theory Spec2Isabelle
  imports Complex_Main "HOL-Library.Sublist"
begin

section \<open>Python values and control\<close>

text \<open>
  The module \<^verbatim>\<open>espaloma/graphs/legacy_force_field.py\<close> is embedded function by
  function. Exceptions are values of \<open>error\<close>; a function that mutates the graph it
  is given returns the graph, and an exception raised half way carries the graph as it
  was left. Tensor entries and unit-less magnitudes are reals: rounding to 32-bit floats
  is outside the model.
\<close>

datatype error =
  NotImplementedError | AssertionError | KeyError | IndexError | AttributeError | ValueError

type_synonym tensor2 = "real list list"

text \<open>\<^verbatim>\<open>torch.zeros(r, c)\<close>.\<close>

definition zeros :: "nat \<Rightarrow> nat \<Rightarrow> tensor2" where
  "zeros r c = replicate r (replicate c 0)"

text \<open>\<^verbatim>\<open>t[p, c] = v\<close> on a two-dimensional tensor, for indices in range.\<close>

definition set_cell :: "tensor2 \<Rightarrow> nat \<Rightarrow> nat \<Rightarrow> real \<Rightarrow> tensor2" where
  "set_cell t p c v = t[p := (t ! p)[c := v]]"

text \<open>\<^verbatim>\<open>torch.Tensor(vs)[:, None]\<close>: a column vector.\<close>

definition column :: "real list \<Rightarrow> tensor2" where
  "column vs = map (\<lambda>v. [v]) vs"

text \<open>Python's \<^verbatim>\<open>sub in s\<close> on strings.\<close>

fun contains :: "string \<Rightarrow> string \<Rightarrow> bool" where
  "contains sub [] = (sub = [])"
| "contains sub (c # cs) = (prefix sub (c # cs) \<or> contains sub cs)"

text \<open>
  A \<^verbatim>\<open>for\<close> loop whose body may raise: the loop stops at the first exception.
\<close>

fun for_loop :: "('a \<Rightarrow> 's \<Rightarrow> 'e + 's) \<Rightarrow> 'a list \<Rightarrow> 's \<Rightarrow> 'e + 's" where
  "for_loop body [] s = Inr s"
| "for_loop body (x # xs) s =
     (case body x s of Inl e \<Rightarrow> Inl e | Inr s' \<Rightarrow> for_loop body xs s')"

text \<open>\<^verbatim>\<open>dict(pairs)\<close> and dictionary comprehensions: a later pair wins.\<close>

definition dict_of :: "('k \<times> 'v) list \<Rightarrow> ('k \<rightharpoonup> 'v)" where
  "dict_of kvs = fold (\<lambda>(key, v) d. d(key \<mapsto> v)) kvs Map.empty"

text \<open>\<^verbatim>\<open>[d[key] for key in keys]\<close>: the first missing key raises KeyError.\<close>

fun getitems :: "('k \<rightharpoonup> 'v) \<Rightarrow> 'k list \<Rightarrow> error + 'v list" where
  "getitems d [] = Inr []"
| "getitems d (key # keys) =
     (case d key of
        None \<Rightarrow> Inl KeyError
      | Some v \<Rightarrow> (case getitems d keys of Inl e \<Rightarrow> Inl e | Inr vs \<Rightarrow> Inr (v # vs)))"

section \<open>The third-party data model\<close>

text \<open>
  An OpenMM or OpenFF quantity is represented by its magnitude; the conversion
  \<^verbatim>\<open>q.value_in_unit(esp.units.X)\<close> into one of espaloma's units is a
  parameter (\<open>value_in_unit\<close> below), since \<^verbatim>\<open>esp.units\<close> and
  \<^verbatim>\<open>simtk.unit\<close> are not part of the module.
\<close>

type_synonym quantity = real

datatype esp_unit =
  DISTANCE_UNIT | FORCE_CONSTANT_UNIT | ANGLE_UNIT | ANGLE_FORCE_CONSTANT_UNIT | ENERGY_UNIT

text \<open>
  What \<^verbatim>\<open>getBondParameters\<close>, \<^verbatim>\<open>getAngleParameters\<close> and
  \<^verbatim>\<open>getTorsionParameters\<close> return, and the forces of an OpenMM system by class
  name. Only these three classes have a name matched by the module.
\<close>

type_synonym bond = "nat \<times> nat \<times> quantity \<times> quantity"
type_synonym angle = "nat \<times> nat \<times> nat \<times> quantity \<times> quantity"
type_synonym torsion = "nat \<times> nat \<times> nat \<times> nat \<times> int \<times> quantity \<times> quantity"

datatype force =
  HarmonicBondForce "bond list"
| HarmonicAngleForce "angle list"
| PeriodicTorsionForce "torsion list"
| OtherForce

text \<open>
  The parameter objects of \<^verbatim>\<open>ForceField.label_molecules\<close>. A torsion parameter has
  a list \<^verbatim>\<open>periodicity\<close> and attributes \<^verbatim>\<open>k<i>\<close>, \<^verbatim>\<open>phase<i>\<close>,
  \<^verbatim>\<open>periodicity<i>\<close> that exist for some \<open>i\<close> (\<^verbatim>\<open>hasattr\<close>).
\<close>

record bond_type =
  bond_k :: quantity
  bond_length :: quantity

record angle_type =
  angle_k :: quantity
  angle_angle :: quantity

record vdw_type =
  vdw_epsilon :: quantity
  vdw_rmin_half :: quantity

record torsion_type =
  periodicity :: "int list"
  k_attr :: "nat \<rightharpoonup> quantity"
  phase_attr :: "nat \<rightharpoonup> quantity"
  periodicity_attr :: "nat \<rightharpoonup> int"

record labels =
  Bonds :: "nat list \<rightharpoonup> bond_type"
  Angles :: "nat list \<rightharpoonup> angle_type"
  vdW :: "nat list \<rightharpoonup> vdw_type"
  ProperTorsions :: "nat list \<rightharpoonup> torsion_type"
  ImproperTorsions :: "nat list \<rightharpoonup> torsion_type"

section \<open>The molecular graph\<close>

text \<open>
  \<^verbatim>\<open>g.nodes[ntype].data[key]\<close>: one dictionary of tensors per node type. The keys
  the module uses are fields (\<open>None\<close>: the key is absent); the keys it builds at run
  time (\<^verbatim>\<open>"u" + suffix\<close>) live in \<open>data\<close>. \<open>idxs\<close> holds one row of atom indices
  per node, so \<^verbatim>\<open>number_of_nodes(ntype)\<close> is its number of rows. \<open>xyz\<close> is
  indexed by atom, conformation, coordinate.
\<close>

datatype ntype = N1 | N2 | N3 | N4 | N4_improper | G

record node_data =
  idxs :: "nat list list"
  xyz :: "real list list list option"
  legacy_typing :: "nat list option"
  epsilon_ref :: "tensor2 option"
  sigma_ref :: "tensor2 option"
  eq_ref :: "tensor2 option"
  k_ref :: "tensor2 option"
  periodicity_ref :: "tensor2 option"
  phases_ref :: "tensor2 option"
  data :: "string \<rightharpoonup> tensor2"

record 'mol graph =
  mol :: 'mol
  nodes :: "ntype \<Rightarrow> node_data"

definition number_of_nodes :: "'mol graph \<Rightarrow> ntype \<Rightarrow> nat" where
  "number_of_nodes g nt = length (idxs (nodes g nt))"

text \<open>
  The lookup tables of \<^verbatim>\<open>_parametrize_gaff\<close>:
  \<^verbatim>\<open>{tuple(idxs): position for position, idxs in enumerate(...data["idxs"])}\<close>.
\<close>

definition lookup_table :: "nat list list \<Rightarrow> (nat list \<rightharpoonup> nat)" where
  "lookup_table rows = dict_of (map (\<lambda>(position, row). (row, position)) (enumerate 0 rows))"

section \<open>What the module calls but does not define\<close>

record ('mol, 'obj) externals =
  value_in_unit :: "quantity \<Rightarrow> esp_unit \<Rightarrow> real"
  to_nanometer :: "real \<Rightarrow> real"
  create_system :: "string \<Rightarrow> 'mol \<Rightarrow> force list"
  getPotentialEnergy :: "force list \<Rightarrow> real list list \<Rightarrow> quantity"
  ForceField :: "string \<Rightarrow> 'mol \<Rightarrow> labels"
  ffxml_atom_types :: "string \<Rightarrow> string list"
  antechamber_types :: "string \<Rightarrow> 'mol \<Rightarrow> string list"
  from_rdkit :: "'obj \<Rightarrow> 'mol"
  from_openeye :: "'obj \<Rightarrow> 'mol"

section \<open>LegacyForceField: construction\<close>

definition REDUNDANT_TYPES :: "(string \<times> string) list" where
  "REDUNDANT_TYPES =
     [(''cd'', ''cc''), (''cf'', ''ce''), (''cq'', ''cp''),
      (''pd'', ''pc''), (''pf'', ''pe''), (''nd'', ''nc'')]"

record 'mol legacy_force_field =
  forcefield :: string
  FF :: "('mol \<Rightarrow> labels) option"
  str_2_idx :: "(string \<rightharpoonup> nat) option"
  idx_2_str :: "(nat \<rightharpoonup> string) option"

text \<open>\<^verbatim>\<open>_convert_to_off\<close>: the argument by its Python type; the result \<open>None\<close> is
  Python's \<^verbatim>\<open>None\<close>, returned when the chain of \<^verbatim>\<open>isinstance\<close> tests falls through.\<close>

datatype ('mol, 'obj) py_object =
  EspGraph "'mol graph"
| OffMolecule 'mol
| RdkitMol 'obj
| OtherObject string 'obj

fun convert_to_off :: "('mol, 'obj) externals \<Rightarrow> ('mol, 'obj) py_object \<Rightarrow> 'mol option" where
  "convert_to_off ext (EspGraph g) = Some (mol g)"
| "convert_to_off ext (OffMolecule m) = Some m"
| "convert_to_off ext (RdkitMol r) = Some (from_rdkit ext r)"
| "convert_to_off ext (OtherObject type_str x) =
     (if contains ''openeye'' type_str then Some (from_openeye ext x) else None)"

text \<open>\<^verbatim>\<open>atom_types.remove(bad_type)\<close>: the first occurrence goes, ValueError if there
  is none.\<close>

definition list_remove :: "'a \<Rightarrow> 'a list \<Rightarrow> error + 'a list" where
  "list_remove x xs = (if x \<in> set xs then Inr (remove1 x xs) else Inl ValueError)"

definition provide_redundant ::
  "string \<times> string \<Rightarrow> (string \<rightharpoonup> nat) \<Rightarrow> error + (string \<rightharpoonup> nat)" where
  "provide_redundant = (\<lambda>(bad_type, good_type) s2i.
     (case s2i good_type of
        None \<Rightarrow> Inl KeyError
      | Some i \<Rightarrow> Inr (s2i(bad_type \<mapsto> i))))"

definition prepare_gaff ::
  "('mol, 'obj) externals \<Rightarrow> 'mol legacy_force_field \<Rightarrow> error + 'mol legacy_force_field" where
  "prepare_gaff ext self =
     (case for_loop list_remove (map fst REDUNDANT_TYPES)
             (ffxml_atom_types ext (forcefield self)) of
        Inl e \<Rightarrow> Inl e
      | Inr atom_types \<Rightarrow>
          (case for_loop provide_redundant REDUNDANT_TYPES
                  (dict_of (zip atom_types [0..<length atom_types])) of
             Inl e \<Rightarrow> Inl e
           | Inr s2i \<Rightarrow>
               Inr (self\<lparr>str_2_idx := Some s2i,
                         idx_2_str := Some (dict_of (zip [0..<length atom_types] atom_types))\<rparr>)))"

definition prepare_smirnoff ::
  "('mol, 'obj) externals \<Rightarrow> 'mol legacy_force_field \<Rightarrow> error + 'mol legacy_force_field" where
  "prepare_smirnoff ext self =
     Inr (self\<lparr>FF := Some (ForceField ext (forcefield self @ ''.offxml''))\<rparr>)"

definition prepare_openff ::
  "('mol, 'obj) externals \<Rightarrow> 'mol legacy_force_field \<Rightarrow> error + 'mol legacy_force_field" where
  "prepare_openff ext self =
     Inr (self\<lparr>FF := Some (ForceField ext (forcefield self @ ''.offxml''))\<rparr>)"

definition prepare_forcefield ::
  "('mol, 'obj) externals \<Rightarrow> 'mol legacy_force_field \<Rightarrow> error + 'mol legacy_force_field" where
  "prepare_forcefield ext self =
     (if contains ''gaff'' (forcefield self) then prepare_gaff ext self
      else if contains ''smirnoff'' (forcefield self) then prepare_smirnoff ext self
      else if contains ''openff'' (forcefield self) then prepare_openff ext self
      else Inl NotImplementedError)"

text \<open>\<^verbatim>\<open>LegacyForceField(forcefield)\<close>, that is \<^verbatim>\<open>__init__\<close>.\<close>

definition LegacyForceField ::
  "('mol, 'obj) externals \<Rightarrow> string \<Rightarrow> error + 'mol legacy_force_field" where
  "LegacyForceField ext name =
     prepare_forcefield ext
       \<lparr>forcefield = name, FF = None, str_2_idx = None, idx_2_str = None\<rparr>"

section \<open>Indexing that may be out of range\<close>

text \<open>\<^verbatim>\<open>t[p, c]\<close> and \<^verbatim>\<open>t[p, c] = v\<close> raise IndexError outside the tensor.\<close>

definition tensor_get :: "tensor2 \<Rightarrow> nat \<Rightarrow> nat \<Rightarrow> error + real" where
  "tensor_get t p c =
     (if p < length t \<and> c < length (t ! p) then Inr (t ! p ! c) else Inl IndexError)"

definition tensor_set :: "tensor2 \<Rightarrow> nat \<Rightarrow> nat \<Rightarrow> real \<Rightarrow> error + tensor2" where
  "tensor_set t p c v =
     (if p < length t \<and> c < length (t ! p) then Inr (set_cell t p c v) else Inl IndexError)"

text \<open>The effect of \<^verbatim>\<open>g.heterograph.apply_nodes(..., ntype=nt)\<close> and of an
  assignment to \<^verbatim>\<open>g.nodes[nt].data[key]\<close>: the data of one node type changes.\<close>

definition update_nodes :: "'mol graph \<Rightarrow> ntype \<Rightarrow> (node_data \<Rightarrow> node_data) \<Rightarrow> 'mol graph" where
  "update_nodes g nt f = g\<lparr>nodes := (nodes g)(nt := f (nodes g nt))\<rparr>"

section \<open>GAFF parametrization\<close>

text \<open>
  The bond and angle blocks of \<^verbatim>\<open>_parametrize_gaff\<close> write into the tensors
  \<^verbatim>\<open>eq_ref\<close> and \<^verbatim>\<open>k_ref\<close> of shape (2 n, 1) that they have just stored on
  the graph; the loop state is this pair, and an exception carries the pair as it was
  left. \<open>assign_ref\<close> is \<^verbatim>\<open>eq_ref[position] = eq; k_ref[position] = k\<close>,
  \<open>assign_both\<close> the four assignments of one loop iteration.
\<close>

type_synonym ref_pair = "tensor2 \<times> tensor2"

definition assign_ref ::
  "nat \<Rightarrow> real \<Rightarrow> real \<Rightarrow> ref_pair \<Rightarrow> (error \<times> ref_pair) + ref_pair" where
  "assign_ref position eq k = (\<lambda>(eqs, ks).
     if position < length eqs then
       (if position < length ks then Inr (eqs[position := [eq]], ks[position := [k]])
        else Inl (IndexError, (eqs[position := [eq]], ks)))
     else Inl (IndexError, (eqs, ks)))"

definition assign_both ::
  "(nat list \<rightharpoonup> nat) \<Rightarrow> nat list \<Rightarrow> nat list \<Rightarrow> real \<Rightarrow> real \<Rightarrow> ref_pair
     \<Rightarrow> (error \<times> ref_pair) + ref_pair" where
  "assign_both lookup key rkey eq k T =
     (case lookup key of
        None \<Rightarrow> Inl (KeyError, T)
      | Some position \<Rightarrow>
          (case assign_ref position eq k T of
             Inl e \<Rightarrow> Inl e
           | Inr T1 \<Rightarrow>
               (case lookup rkey of
                  None \<Rightarrow> Inl (KeyError, T1)
                | Some position' \<Rightarrow> assign_ref position' eq k T1)))"

definition bond_body ::
  "('mol, 'obj) externals \<Rightarrow> (nat list \<rightharpoonup> nat) \<Rightarrow> bond \<Rightarrow> ref_pair
     \<Rightarrow> (error \<times> ref_pair) + ref_pair" where
  "bond_body ext bond_lookup = (\<lambda>(idx0, idx1, eq, k).
     assign_both bond_lookup [idx0, idx1] [idx1, idx0]
       (value_in_unit ext eq DISTANCE_UNIT) (value_in_unit ext k FORCE_CONSTANT_UNIT))"

definition angle_body ::
  "('mol, 'obj) externals \<Rightarrow> (nat list \<rightharpoonup> nat) \<Rightarrow> angle \<Rightarrow> ref_pair
     \<Rightarrow> (error \<times> ref_pair) + ref_pair" where
  "angle_body ext angle_lookup = (\<lambda>(idx0, idx1, idx2, eq, k).
     assign_both angle_lookup [idx0, idx1, idx2] [idx2, idx1, idx0]
       (value_in_unit ext eq ANGLE_UNIT) (value_in_unit ext k ANGLE_FORCE_CONSTANT_UNIT))"

text \<open>
  The torsion block works on the local tensors \<^verbatim>\<open>torsion_ks\<close>,
  \<^verbatim>\<open>torsion_phases\<close>, \<^verbatim>\<open>torsion_periodicities\<close> (in this order).
  \<open>first_zero_column\<close> is the \<^verbatim>\<open>for sub_idx in range(n_max_phases)\<close> loop up to
  its \<^verbatim>\<open>break\<close>; \<open>write_term\<close> the three assignments at one cell.
\<close>

type_synonym torsion_tensors = "tensor2 \<times> tensor2 \<times> tensor2"

fun first_zero_column :: "tensor2 \<Rightarrow> nat \<Rightarrow> nat list \<Rightarrow> error + nat option" where
  "first_zero_column t position [] = Inr None"
| "first_zero_column t position (sub_idx # rest) =
     (case tensor_get t position sub_idx of
        Inl e \<Rightarrow> Inl e
      | Inr v \<Rightarrow> if v = 0 then Inr (Some sub_idx) else first_zero_column t position rest)"

definition write_term ::
  "nat \<Rightarrow> nat \<Rightarrow> real \<Rightarrow> real \<Rightarrow> real \<Rightarrow> torsion_tensors \<Rightarrow> error + torsion_tensors" where
  "write_term position sub_idx kv phasev perv = (\<lambda>(ks, phases, periodicities).
     (case tensor_set ks position sub_idx kv of
        Inl e \<Rightarrow> Inl e
      | Inr ks' \<Rightarrow>
          (case tensor_set phases position sub_idx phasev of
             Inl e \<Rightarrow> Inl e
           | Inr phases' \<Rightarrow>
               (case tensor_set periodicities position sub_idx perv of
                  Inl e \<Rightarrow> Inl e
                | Inr periodicities' \<Rightarrow> Inr (ks', phases', periodicities')))))"

definition torsion_body ::
  "('mol, 'obj) externals \<Rightarrow> (nat list \<rightharpoonup> nat) \<Rightarrow> nat \<Rightarrow> torsion \<Rightarrow> torsion_tensors
     \<Rightarrow> error + torsion_tensors" where
  "torsion_body ext torsion_lookup n_max_phases = (\<lambda>(idx0, idx1, idx2, idx3, per, phase, k) T.
     (case torsion_lookup [idx0, idx1, idx2, idx3] of
        None \<Rightarrow> Inr T
      | Some position \<Rightarrow>
          (case first_zero_column (fst T) position [0..<n_max_phases] of
             Inl e \<Rightarrow> Inl e
           | Inr None \<Rightarrow> Inr T
           | Inr (Some sub_idx) \<Rightarrow>
               (case write_term position sub_idx
                       (0.5 * value_in_unit ext k ENERGY_UNIT)
                       (value_in_unit ext phase ANGLE_UNIT) (of_int per) T of
                  Inl e \<Rightarrow> Inl e
                | Inr T1 \<Rightarrow>
                    (case torsion_lookup [idx3, idx2, idx1, idx0] of
                       None \<Rightarrow> Inl KeyError
                     | Some position' \<Rightarrow>
                         write_term position' sub_idx
                           (0.5 * value_in_unit ext k ENERGY_UNIT)
                           (value_in_unit ext phase ANGLE_UNIT) (of_int per) T1)))))"

text \<open>
  One iteration of \<^verbatim>\<open>for force in sys.getForces()\<close>: the three \<^verbatim>\<open>if\<close> blocks
  (\<open>gaff_force_blocks\<close>), then \<^verbatim>\<open>apply_nodes\<close> on n4 with the torsion tensors.
  The block that would store the improper tensors is disabled in the source (it sits in
  a string literal), and the module has no block for a NonbondedForce.
\<close>

fun gaff_force_blocks ::
  "('mol, 'obj) externals \<Rightarrow> (nat list \<rightharpoonup> nat) \<Rightarrow> (nat list \<rightharpoonup> nat) \<Rightarrow> (nat list \<rightharpoonup> nat)
     \<Rightarrow> nat \<Rightarrow> force \<Rightarrow> 'mol graph \<times> torsion_tensors
     \<Rightarrow> (error \<times> 'mol graph) + ('mol graph \<times> torsion_tensors)" where
  "gaff_force_blocks ext bond_lookup angle_lookup torsion_lookup n_max_phases
       (HarmonicBondForce bonds) (g, T) =
     (if length bonds * 2 \<noteq> number_of_nodes g N2 then Inl (AssertionError, g)
      else
        (case for_loop (bond_body ext bond_lookup) bonds
                (zeros (length bonds * 2) 1, zeros (length bonds * 2) 1) of
           Inl (e, (eqs, ks)) \<Rightarrow>
             Inl (e, update_nodes g N2 (\<lambda>d. d\<lparr>eq_ref := Some eqs, k_ref := Some ks\<rparr>))
         | Inr (eqs, ks) \<Rightarrow>
             Inr (update_nodes g N2 (\<lambda>d. d\<lparr>eq_ref := Some eqs, k_ref := Some ks\<rparr>), T)))"
| "gaff_force_blocks ext bond_lookup angle_lookup torsion_lookup n_max_phases
       (HarmonicAngleForce angles) (g, T) =
     (if length angles * 2 \<noteq> number_of_nodes g N3 then Inl (AssertionError, g)
      else
        (case for_loop (angle_body ext angle_lookup) angles
                (zeros (length angles * 2) 1, zeros (length angles * 2) 1) of
           Inl (e, (eqs, ks)) \<Rightarrow>
             Inl (e, update_nodes g N3 (\<lambda>d. d\<lparr>eq_ref := Some eqs, k_ref := Some ks\<rparr>))
         | Inr (eqs, ks) \<Rightarrow>
             Inr (update_nodes g N3 (\<lambda>d. d\<lparr>eq_ref := Some eqs, k_ref := Some ks\<rparr>), T)))"
| "gaff_force_blocks ext bond_lookup angle_lookup torsion_lookup n_max_phases
       (PeriodicTorsionForce torsions) (g, T) =
     (case for_loop (torsion_body ext torsion_lookup n_max_phases) torsions T of
        Inl e \<Rightarrow> Inl (e, g)
      | Inr T' \<Rightarrow> Inr (g, T'))"
| "gaff_force_blocks ext bond_lookup angle_lookup torsion_lookup n_max_phases
       OtherForce (g, T) = Inr (g, T)"

definition apply_n4 :: "'mol graph \<Rightarrow> torsion_tensors \<Rightarrow> 'mol graph" where
  "apply_n4 g = (\<lambda>(torsion_ks, torsion_phases, torsion_periodicities).
     update_nodes g N4 (\<lambda>d. d\<lparr>k_ref := Some torsion_ks,
                                periodicity_ref := Some torsion_periodicities,
                                phases_ref := Some torsion_phases\<rparr>))"

definition gaff_force ::
  "('mol, 'obj) externals \<Rightarrow> (nat list \<rightharpoonup> nat) \<Rightarrow> (nat list \<rightharpoonup> nat) \<Rightarrow> (nat list \<rightharpoonup> nat)
     \<Rightarrow> nat \<Rightarrow> force \<Rightarrow> 'mol graph \<times> torsion_tensors
     \<Rightarrow> (error \<times> 'mol graph) + ('mol graph \<times> torsion_tensors)" where
  "gaff_force ext bond_lookup angle_lookup torsion_lookup n_max_phases force S =
     (case gaff_force_blocks ext bond_lookup angle_lookup torsion_lookup n_max_phases force S of
        Inl e \<Rightarrow> Inl e
      | Inr (g, T) \<Rightarrow> Inr (apply_n4 g T, T))"

definition parametrize_gaff ::
  "('mol, 'obj) externals \<Rightarrow> 'mol legacy_force_field \<Rightarrow> 'mol graph \<Rightarrow> nat
     \<Rightarrow> (error \<times> 'mol graph) + 'mol graph" where
  "parametrize_gaff ext self g n_max_phases =
     (case for_loop
             (gaff_force ext (lookup_table (idxs (nodes g N2))) (lookup_table (idxs (nodes g N3)))
                (lookup_table (idxs (nodes g N4))) n_max_phases)
             (create_system ext (forcefield self) (mol g))
             (g, zeros (number_of_nodes g N4) n_max_phases,
                 zeros (number_of_nodes g N4) n_max_phases,
                 zeros (number_of_nodes g N4) n_max_phases) of
        Inl e \<Rightarrow> Inl e
      | Inr (g', T) \<Rightarrow> Inr g')"

section \<open>SMIRNOFF parametrization\<close>

text \<open>\<^verbatim>\<open>2.0 * tensor\<close>.\<close>

definition scale :: "real \<Rightarrow> tensor2 \<Rightarrow> tensor2" where
  "scale a t = map (map (\<lambda>v. a * v)) t"

text \<open>
  The body of the \<^verbatim>\<open>for sub_idx in range(len(_force.periodicity))\<close> loop of
  \<^verbatim>\<open>apply_torsion\<close> and \<^verbatim>\<open>apply_improper_torsion\<close>, at row \<open>idx\<close>:
  \<^verbatim>\<open>getattr\<close> of a missing attribute raises AttributeError.
\<close>

definition label_term ::
  "('mol, 'obj) externals \<Rightarrow> torsion_type \<Rightarrow> nat \<Rightarrow> nat \<Rightarrow> torsion_tensors
     \<Rightarrow> error + torsion_tensors" where
  "label_term ext force_at idx sub_idx = (\<lambda>(ks, phases, periodicities).
     (case k_attr force_at sub_idx of
        None \<Rightarrow> Inr (ks, phases, periodicities)
      | Some kq \<Rightarrow>
          (case tensor_set ks idx sub_idx (value_in_unit ext kq ENERGY_UNIT) of
             Inl e \<Rightarrow> Inl e
           | Inr ks' \<Rightarrow>
               (case phase_attr force_at sub_idx of
                  None \<Rightarrow> Inl AttributeError
                | Some phq \<Rightarrow>
                    (case tensor_set phases idx sub_idx (value_in_unit ext phq ANGLE_UNIT) of
                       Inl e \<Rightarrow> Inl e
                     | Inr phases' \<Rightarrow>
                         (case periodicity_attr force_at sub_idx of
                            None \<Rightarrow> Inl AttributeError
                          | Some per \<Rightarrow>
                              (case tensor_set periodicities idx sub_idx (of_int per) of
                                 Inl e \<Rightarrow> Inl e
                               | Inr periodicities' \<Rightarrow>
                                   Inr (ks', phases', periodicities'))))))))"

text \<open>The body of \<^verbatim>\<open>for idx in range(number_of_nodes)\<close>, and the whole of
  \<^verbatim>\<open>apply_torsion\<close> (on n4, with \<^verbatim>\<open>forces["ProperTorsions"]\<close>) and of
  \<^verbatim>\<open>apply_improper_torsion\<close> (on n4_improper, with
  \<^verbatim>\<open>forces["ImproperTorsions"]\<close>). The result is (k, phases, periodicity).\<close>

definition label_row ::
  "('mol, 'obj) externals \<Rightarrow> (nat list \<rightharpoonup> torsion_type) \<Rightarrow> nat list list \<Rightarrow> nat
     \<Rightarrow> torsion_tensors \<Rightarrow> error + torsion_tensors" where
  "label_row ext force rows idx T =
     (case force (rows ! idx) of
        None \<Rightarrow> Inr T
      | Some force_at \<Rightarrow>
          for_loop (label_term ext force_at idx) [0..<length (periodicity force_at)] T)"

definition label_torsions ::
  "('mol, 'obj) externals \<Rightarrow> (nat list \<rightharpoonup> torsion_type) \<Rightarrow> nat list list \<Rightarrow> nat
     \<Rightarrow> error + torsion_tensors" where
  "label_torsions ext force rows n_max_phases =
     for_loop (label_row ext force rows) [0..<length rows]
       (zeros (length rows) n_max_phases, zeros (length rows) n_max_phases,
        zeros (length rows) n_max_phases)"

definition apply_torsion ::
  "('mol, 'obj) externals \<Rightarrow> labels \<Rightarrow> 'mol graph \<Rightarrow> nat \<Rightarrow> error + torsion_tensors" where
  "apply_torsion ext forces g n_max_phases =
     label_torsions ext (ProperTorsions forces) (idxs (nodes g N4)) n_max_phases"

definition apply_improper_torsion ::
  "('mol, 'obj) externals \<Rightarrow> labels \<Rightarrow> 'mol graph \<Rightarrow> nat \<Rightarrow> error + torsion_tensors" where
  "apply_improper_torsion ext forces g n_max_phases =
     label_torsions ext (ImproperTorsions forces) (idxs (nodes g N4_improper)) n_max_phases"

definition store_torsions :: "'mol graph \<Rightarrow> ntype \<Rightarrow> torsion_tensors \<Rightarrow> 'mol graph" where
  "store_torsions g nt = (\<lambda>(ks, phases, periodicities).
     update_nodes g nt (\<lambda>d. d\<lparr>k_ref := Some ks, periodicity_ref := Some periodicities,
                              phases_ref := Some phases\<rparr>))"

text \<open>
  \<^verbatim>\<open>_parametrize_smirnoff\<close>: eight calls of \<^verbatim>\<open>apply_nodes\<close> in the order of the
  source. A force field object prepared for GAFF has no attribute \<^verbatim>\<open>FF\<close>.
\<close>

definition parametrize_smirnoff ::
  "('mol, 'obj) externals \<Rightarrow> 'mol legacy_force_field \<Rightarrow> 'mol graph
     \<Rightarrow> (error \<times> 'mol graph) + 'mol graph" where
  "parametrize_smirnoff ext self g =
     (case FF self of
        None \<Rightarrow> Inl (AttributeError, g)
      | Some label_molecules \<Rightarrow>
     (let forces = label_molecules (mol g) in
     (case getitems (Bonds forces) (idxs (nodes g N2)) of
        Inl e \<Rightarrow> Inl (e, g)
      | Inr bs \<Rightarrow>
     (let g1 = update_nodes g N2 (\<lambda>d. d\<lparr>k_ref := Some (scale 2
                 (column (map (\<lambda>b. value_in_unit ext (bond_k b) FORCE_CONSTANT_UNIT) bs)))\<rparr>) in
     (case getitems (Bonds forces) (idxs (nodes g1 N2)) of
        Inl e \<Rightarrow> Inl (e, g1)
      | Inr bs' \<Rightarrow>
     (let g2 = update_nodes g1 N2 (\<lambda>d. d\<lparr>eq_ref := Some
                 (column (map (\<lambda>b. value_in_unit ext (bond_length b) DISTANCE_UNIT) bs'))\<rparr>) in
     (case getitems (Angles forces) (idxs (nodes g2 N3)) of
        Inl e \<Rightarrow> Inl (e, g2)
      | Inr angs \<Rightarrow>
     (let g3 = update_nodes g2 N3 (\<lambda>d. d\<lparr>k_ref := Some (scale 2
                 (column (map (\<lambda>a. value_in_unit ext (angle_k a) ANGLE_FORCE_CONSTANT_UNIT) angs)))\<rparr>) in
     (case getitems (Angles forces) (idxs (nodes g3 N3)) of
        Inl e \<Rightarrow> Inl (e, g3)
      | Inr angs' \<Rightarrow>
     (let g4 = update_nodes g3 N3 (\<lambda>d. d\<lparr>eq_ref := Some
                 (column (map (\<lambda>a. value_in_unit ext (angle_angle a) ANGLE_UNIT) angs'))\<rparr>) in
     (case getitems (vdW forces) (map (\<lambda>idx. [idx]) [0..<number_of_nodes g4 N1]) of
        Inl e \<Rightarrow> Inl (e, g4)
      | Inr vs \<Rightarrow>
     (let g5 = update_nodes g4 N1 (\<lambda>d. d\<lparr>epsilon_ref := Some
                 (column (map (\<lambda>v. value_in_unit ext (vdw_epsilon v) ENERGY_UNIT) vs))\<rparr>) in
     (case getitems (vdW forces) (map (\<lambda>idx. [idx]) [0..<number_of_nodes g5 N1]) of
        Inl e \<Rightarrow> Inl (e, g5)
      | Inr vs' \<Rightarrow>
     (let g6 = update_nodes g5 N1 (\<lambda>d. d\<lparr>sigma_ref := Some
                 (column (map (\<lambda>v. value_in_unit ext (vdw_rmin_half v) DISTANCE_UNIT) vs'))\<rparr>) in
     (case apply_torsion ext forces g6 6 of
        Inl e \<Rightarrow> Inl (e, g6)
      | Inr T \<Rightarrow>
     (let g7 = store_torsions g6 N4 T in
     (case apply_improper_torsion ext forces g7 6 of
        Inl e \<Rightarrow> Inl (e, g7)
      | Inr T' \<Rightarrow> Inr (store_torsions g7 N4_improper T'))))))))))))))))))"

section \<open>Reference energies, typing and dispatch\<close>

text \<open>
  \<^verbatim>\<open>array.transpose((1, 0, 2))\<close> on the positions: from atom, conformation,
  coordinate to conformation, atom, coordinate. The number of conformations is read
  off the first atom, so a molecule without atoms has none here.
\<close>

definition transpose_102 :: "real list list list \<Rightarrow> real list list list" where
  "transpose_102 x =
     map (\<lambda>c. map (\<lambda>atom. atom ! c) x) [0..<(case x of [] \<Rightarrow> 0 | atom # _ \<Rightarrow> length atom)]"

definition baseline_energy ::
  "('mol, 'obj) externals \<Rightarrow> 'mol legacy_force_field \<Rightarrow> 'mol graph \<Rightarrow> string option
     \<Rightarrow> (error \<times> 'mol graph) + 'mol graph" where
  "baseline_energy ext self g suffix_arg =
     (let suffix' = (case suffix_arg of None \<Rightarrow> ''_'' @ forcefield self | Some s \<Rightarrow> s);
          system = create_system ext (forcefield self) (mol g)
      in (case xyz (nodes g N1) of
            None \<Rightarrow> Inl (KeyError, g)
          | Some positions \<Rightarrow>
              (let xs = transpose_102 (map (map (map (to_nanometer ext))) positions);
                   us = map (\<lambda>x. value_in_unit ext (getPotentialEnergy ext system x) ENERGY_UNIT) xs
               in Inr (update_nodes g G (\<lambda>d. d\<lparr>data := (data d)(''u'' @ suffix' \<mapsto> [us])\<rparr>)))))"

text \<open>\<^verbatim>\<open>_type_gaff\<close>: antechamber's atom types are external, their translation by
  \<^verbatim>\<open>_str_2_idx\<close> is the module's.\<close>

definition type_gaff ::
  "('mol, 'obj) externals \<Rightarrow> 'mol legacy_force_field \<Rightarrow> 'mol graph
     \<Rightarrow> (error \<times> 'mol graph) + 'mol graph" where
  "type_gaff ext self g =
     (if \<not> contains ''gaff'' (forcefield self) then Inl (AssertionError, g)
      else (case str_2_idx self of
              None \<Rightarrow> Inl (AttributeError, g)
            | Some s2i \<Rightarrow>
                (case getitems s2i (antechamber_types ext (forcefield self) (mol g)) of
                   Inl e \<Rightarrow> Inl (e, g)
                 | Inr types \<Rightarrow>
                     Inr (update_nodes g N1 (\<lambda>d. d\<lparr>legacy_typing := Some types\<rparr>)))))"

definition parametrize ::
  "('mol, 'obj) externals \<Rightarrow> 'mol legacy_force_field \<Rightarrow> 'mol graph
     \<Rightarrow> (error \<times> 'mol graph) + 'mol graph" where
  "parametrize ext self g =
     (if contains ''smirnoff'' (forcefield self) \<or> contains ''openff'' (forcefield self)
      then parametrize_smirnoff ext self g
      else if contains ''gaff'' (forcefield self) then parametrize_gaff ext self g 6
      else Inl (NotImplementedError, g))"

definition typing ::
  "('mol, 'obj) externals \<Rightarrow> 'mol legacy_force_field \<Rightarrow> 'mol graph
     \<Rightarrow> (error \<times> 'mol graph) + 'mol graph" where
  "typing ext self g =
     (if contains ''gaff'' (forcefield self) then type_gaff ext self g
      else Inl (NotImplementedError, g))"

section \<open>Concrete inputs\<close>

text \<open>
  Inputs on which the functions are run below. The molecule has five atoms and the bonds
  0-1, 1-2, 2-3 and 1-4; its index tables list every bond, angle and proper torsion in
  both orders, as espaloma's graphs do, and three improper torsions around atom 1.
  Molecules and foreign objects are numbers here.
\<close>

definition new_nodes :: "nat list list \<Rightarrow> node_data" where
  "new_nodes rows =
     \<lparr>idxs = rows, xyz = None, legacy_typing = None, epsilon_ref = None, sigma_ref = None,
      eq_ref = None, k_ref = None, periodicity_ref = None, phases_ref = None,
      data = Map.empty\<rparr>"

definition demo_graph :: "nat graph" where
  "demo_graph =
     \<lparr>mol = 0,
      nodes = (\<lambda>nt. case nt of
         N1 \<Rightarrow> (new_nodes [[0], [1], [2], [3], [4]])
                 \<lparr>xyz := Some [[[0, 0, 0], [0, 0, 1]], [[1, 0, 0], [1, 0, 1]],
                                [[1, 1, 0], [1, 1, 1]], [[2, 1, 0], [2, 1, 2]],
                                [[1, 0, 1], [1, 0, 3]]]\<rparr>
       | N2 \<Rightarrow> new_nodes [[0, 1], [1, 0], [1, 2], [2, 1], [2, 3], [3, 2], [1, 4], [4, 1]]
       | N3 \<Rightarrow> new_nodes [[0, 1, 2], [2, 1, 0], [0, 1, 4], [4, 1, 0],
                            [2, 1, 4], [4, 1, 2], [1, 2, 3], [3, 2, 1]]
       | N4 \<Rightarrow> new_nodes [[0, 1, 2, 3], [3, 2, 1, 0], [4, 1, 2, 3], [3, 2, 1, 4]]
       | N4_improper \<Rightarrow> new_nodes [[1, 0, 2, 4], [1, 2, 4, 0], [1, 4, 0, 2]]
       | G \<Rightarrow> new_nodes [[0]])\<rparr>"

text \<open>An OpenMM system for it: the last torsion is an improper one, absent from the
  table of proper torsions.\<close>

definition demo_system :: "force list" where
  "demo_system =
     [HarmonicBondForce [(0, 1, 0.15, 200), (1, 2, 0.14, 300), (2, 3, 0.15, 200), (1, 4, 0.11, 250)],
      HarmonicAngleForce [(0, 1, 2, 1.9, 50), (0, 1, 4, 1.9, 40), (2, 1, 4, 2, 40), (1, 2, 3, 1.9, 50)],
      PeriodicTorsionForce [(0, 1, 2, 3, 3, 0, 0.5), (0, 1, 2, 3, 2, 3, 1), (4, 1, 2, 3, 3, 0, 0.25),
                            (0, 2, 1, 4, 2, 3, 4)],
      OtherForce]"

definition demo_torsion :: torsion_type where
  "demo_torsion =
     \<lparr>periodicity = [3, 2],
      k_attr = [0 \<mapsto> 0.5, 1 \<mapsto> 1],
      phase_attr = [0 \<mapsto> 0, 1 \<mapsto> 3],
      periodicity_attr = [0 \<mapsto> 3, 1 \<mapsto> 2]\<rparr>"

definition demo_improper :: torsion_type where
  "demo_improper =
     \<lparr>periodicity = [2],
      k_attr = [0 \<mapsto> 4],
      phase_attr = [0 \<mapsto> 3],
      periodicity_attr = [0 \<mapsto> 2]\<rparr>"

definition demo_labels :: labels where
  "demo_labels =
     \<lparr>Bonds = map_of
        [([0, 1], \<lparr>bond_k = 100, bond_length = 0.15\<rparr>), ([1, 0], \<lparr>bond_k = 100, bond_length = 0.15\<rparr>),
         ([1, 2], \<lparr>bond_k = 150, bond_length = 0.14\<rparr>), ([2, 1], \<lparr>bond_k = 150, bond_length = 0.14\<rparr>),
         ([2, 3], \<lparr>bond_k = 100, bond_length = 0.15\<rparr>), ([3, 2], \<lparr>bond_k = 100, bond_length = 0.15\<rparr>),
         ([1, 4], \<lparr>bond_k = 125, bond_length = 0.11\<rparr>), ([4, 1], \<lparr>bond_k = 125, bond_length = 0.11\<rparr>)],
      Angles = map_of
        [([0, 1, 2], \<lparr>angle_k = 25, angle_angle = 1.9\<rparr>), ([2, 1, 0], \<lparr>angle_k = 25, angle_angle = 1.9\<rparr>),
         ([0, 1, 4], \<lparr>angle_k = 20, angle_angle = 1.9\<rparr>), ([4, 1, 0], \<lparr>angle_k = 20, angle_angle = 1.9\<rparr>),
         ([2, 1, 4], \<lparr>angle_k = 20, angle_angle = 2\<rparr>), ([4, 1, 2], \<lparr>angle_k = 20, angle_angle = 2\<rparr>),
         ([1, 2, 3], \<lparr>angle_k = 25, angle_angle = 1.9\<rparr>), ([3, 2, 1], \<lparr>angle_k = 25, angle_angle = 1.9\<rparr>)],
      vdW = map_of
        [([0], \<lparr>vdw_epsilon = 0.4, vdw_rmin_half = 0.19\<rparr>), ([1], \<lparr>vdw_epsilon = 0.4, vdw_rmin_half = 0.19\<rparr>),
         ([2], \<lparr>vdw_epsilon = 0.4, vdw_rmin_half = 0.19\<rparr>), ([3], \<lparr>vdw_epsilon = 0.4, vdw_rmin_half = 0.19\<rparr>),
         ([4], \<lparr>vdw_epsilon = 0.06, vdw_rmin_half = 0.15\<rparr>)],
      ProperTorsions = map_of
        [([0, 1, 2, 3], demo_torsion), ([3, 2, 1, 0], demo_torsion),
         ([4, 1, 2, 3], demo_torsion), ([3, 2, 1, 4], demo_torsion)],
      ImproperTorsions = map_of [([1, 0, 2, 4], demo_improper)]\<rparr>"

text \<open>The externals: a conversion that rescales distances only, an energy that adds up the
  coordinates, and the given atom types, system, labels and antechamber types.\<close>

definition demo_externals ::
  "string list \<Rightarrow> force list \<Rightarrow> labels \<Rightarrow> string list \<Rightarrow> (nat, nat) externals" where
  "demo_externals atom_types sys lbls gaff_types =
     \<lparr>value_in_unit = (\<lambda>q u. if u = DISTANCE_UNIT then 10 * q else q),
      to_nanometer = (\<lambda>x. x / 10),
      create_system = (\<lambda>name m. sys),
      getPotentialEnergy = (\<lambda>system x. sum_list (map sum_list x)),
      ForceField = (\<lambda>name m. lbls),
      ffxml_atom_types = (\<lambda>name. atom_types),
      antechamber_types = (\<lambda>name m. gaff_types),
      from_rdkit = (\<lambda>r. r),
      from_openeye = (\<lambda>x. Suc x)\<rparr>"

definition gaff_types_once :: "string list" where
  "gaff_types_once =
     [''c'', ''cc'', ''cd'', ''ce'', ''cf'', ''cp'', ''cq'', ''pc'', ''pd'', ''pe'', ''pf'',
      ''nc'', ''nd'']"

definition gaff_types_twice :: "string list" where
  "gaff_types_twice =
     [''cc'', ''ce'', ''cp'', ''pc'', ''pe'', ''nc'', ''cd'', ''cd'', ''cf'', ''cq'', ''pd'',
      ''pf'', ''nd'']"

definition new_force_field :: "string \<Rightarrow> nat legacy_force_field" where
  "new_force_field name = \<lparr>forcefield = name, FF = None, str_2_idx = None, idx_2_str = None\<rparr>"

definition demo_ext :: "(nat, nat) externals" where
  "demo_ext = demo_externals gaff_types_once demo_system demo_labels
                [''c'', ''cc'', ''cd'', ''c'', ''nd'']"

text \<open>What the two parametrizations make of the molecule.\<close>

definition demo_gaff_result :: "nat graph" where
  "demo_gaff_result =
     update_nodes
       (update_nodes
          (update_nodes demo_graph N2
             (\<lambda>d. d\<lparr>eq_ref := Some [[3 / 2], [3 / 2], [7 / 5], [7 / 5], [3 / 2], [3 / 2],
                                     [11 / 10], [11 / 10]],
                     k_ref := Some [[200], [200], [300], [300], [200], [200], [250], [250]]\<rparr>))
          N3
          (\<lambda>d. d\<lparr>eq_ref := Some [[19 / 10], [19 / 10], [19 / 10], [19 / 10], [2], [2],
                                  [19 / 10], [19 / 10]],
                  k_ref := Some [[50], [50], [40], [40], [40], [40], [50], [50]]\<rparr>))
       N4
       (\<lambda>d. d\<lparr>k_ref := Some [[1 / 4, 1 / 2, 0, 0, 0, 0], [1 / 4, 1 / 2, 0, 0, 0, 0],
                               [1 / 8, 0, 0, 0, 0, 0], [1 / 8, 0, 0, 0, 0, 0]],
               periodicity_ref := Some [[3, 2, 0, 0, 0, 0], [3, 2, 0, 0, 0, 0],
                                         [3, 0, 0, 0, 0, 0], [3, 0, 0, 0, 0, 0]],
               phases_ref := Some [[0, 3, 0, 0, 0, 0], [0, 3, 0, 0, 0, 0],
                                    [0, 0, 0, 0, 0, 0], [0, 0, 0, 0, 0, 0]]\<rparr>)"

definition demo_proper_tensors :: torsion_tensors where
  "demo_proper_tensors =
     ([[1 / 2, 1, 0, 0, 0, 0], [1 / 2, 1, 0, 0, 0, 0], [1 / 2, 1, 0, 0, 0, 0],
       [1 / 2, 1, 0, 0, 0, 0]],
      [[0, 3, 0, 0, 0, 0], [0, 3, 0, 0, 0, 0], [0, 3, 0, 0, 0, 0], [0, 3, 0, 0, 0, 0]],
      [[3, 2, 0, 0, 0, 0], [3, 2, 0, 0, 0, 0], [3, 2, 0, 0, 0, 0], [3, 2, 0, 0, 0, 0]])"

definition demo_improper_tensors :: torsion_tensors where
  "demo_improper_tensors =
     ([[4, 0, 0, 0, 0, 0], [0, 0, 0, 0, 0, 0], [0, 0, 0, 0, 0, 0]],
      [[3, 0, 0, 0, 0, 0], [0, 0, 0, 0, 0, 0], [0, 0, 0, 0, 0, 0]],
      [[2, 0, 0, 0, 0, 0], [0, 0, 0, 0, 0, 0], [0, 0, 0, 0, 0, 0]])"

definition demo_smirnoff_result :: "nat graph" where
  "demo_smirnoff_result =
     store_torsions
       (store_torsions
          (update_nodes
             (update_nodes
                (update_nodes demo_graph N2
                   (\<lambda>d. d\<lparr>eq_ref := Some [[3 / 2], [3 / 2], [7 / 5], [7 / 5], [3 / 2], [3 / 2],
                                           [11 / 10], [11 / 10]],
                           k_ref := Some [[200], [200], [300], [300], [200], [200], [250], [250]]\<rparr>))
                N3
                (\<lambda>d. d\<lparr>eq_ref := Some [[19 / 10], [19 / 10], [19 / 10], [19 / 10], [2], [2],
                                        [19 / 10], [19 / 10]],
                        k_ref := Some [[50], [50], [40], [40], [40], [40], [50], [50]]\<rparr>))
             N1
             (\<lambda>d. d\<lparr>epsilon_ref := Some [[2 / 5], [2 / 5], [2 / 5], [2 / 5], [3 / 50]],
                     sigma_ref := Some [[19 / 10], [19 / 10], [19 / 10], [19 / 10], [3 / 2]]\<rparr>))
          N4 demo_proper_tensors)
       N4_improper demo_improper_tensors"

section \<open>Notions used in the statements\<close>

text \<open>
  None of these is code of the module. \<open>has_shape r c t\<close>: the tensor has \<open>r\<close> rows of
  \<open>c\<close> columns. \<open>cell T p c\<close>: the entries of the three torsion tensors (k, phases,
  periodicities) at row \<open>p\<close>, column \<open>c\<close>; \<open>write3\<close> sets them. \<open>torsion_key\<close> and
  \<open>torsion_value\<close>: the index quadruple of a term reported by OpenMM, and what the
  module stores for it (half the force constant, the phase, the periodicity).
  \<open>same_torsion q t\<close>: the term \<open>t\<close> is reported for the quadruple \<open>q\<close> in either order.
  \<open>all_torsions\<close>: the terms of all PeriodicTorsionForces of a system, in order.
\<close>

definition has_shape :: "nat \<Rightarrow> nat \<Rightarrow> tensor2 \<Rightarrow> bool" where
  "has_shape r c t \<longleftrightarrow> length t = r \<and> (\<forall>row \<in> set t. length row = c)"

definition shape3 :: "nat \<Rightarrow> nat \<Rightarrow> torsion_tensors \<Rightarrow> bool" where
  "shape3 r c = (\<lambda>(ks, phs, pers). has_shape r c ks \<and> has_shape r c phs \<and> has_shape r c pers)"

definition cell :: "torsion_tensors \<Rightarrow> nat \<Rightarrow> nat \<Rightarrow> real \<times> real \<times> real" where
  "cell = (\<lambda>(ks, phs, pers) p c. (ks ! p ! c, phs ! p ! c, pers ! p ! c))"

definition write3 :: "nat \<Rightarrow> nat \<Rightarrow> real \<times> real \<times> real \<Rightarrow> torsion_tensors \<Rightarrow> torsion_tensors" where
  "write3 p c = (\<lambda>(kv, phv, pev) (ks, phs, pers).
     (set_cell ks p c kv, set_cell phs p c phv, set_cell pers p c pev))"

definition torsion_key :: "torsion \<Rightarrow> nat list" where
  "torsion_key = (\<lambda>(idx0, idx1, idx2, idx3, per, phase, k). [idx0, idx1, idx2, idx3])"

definition torsion_value :: "('mol, 'obj) externals \<Rightarrow> torsion \<Rightarrow> real \<times> real \<times> real" where
  "torsion_value ext = (\<lambda>(idx0, idx1, idx2, idx3, per, phase, k).
     (0.5 * value_in_unit ext k ENERGY_UNIT, value_in_unit ext phase ANGLE_UNIT, of_int per))"

definition same_torsion :: "nat list \<Rightarrow> torsion \<Rightarrow> bool" where
  "same_torsion q t \<longleftrightarrow> torsion_key t = q \<or> torsion_key t = rev q"

text \<open>\<open>label_cell ext label c old new\<close>: \<open>new\<close> is what column \<open>c\<close> of a row holds after the
  labelled torsion parameter of its index tuple, if any, has been recorded: the attributes
  \<^verbatim>\<open>k<c>\<close>, \<^verbatim>\<open>phase<c>\<close>, \<^verbatim>\<open>periodicity<c>\<close> if \<open>c\<close> is below the length of
  \<^verbatim>\<open>periodicity\<close> and \<^verbatim>\<open>k<c>\<close> exists, and \<open>old\<close> otherwise.\<close>

definition label_cell ::
  "('mol, 'obj) externals \<Rightarrow> torsion_type option \<Rightarrow> nat \<Rightarrow> real \<times> real \<times> real
     \<Rightarrow> real \<times> real \<times> real \<Rightarrow> bool" where
  "label_cell ext label c old new \<longleftrightarrow>
     (case label of
        None \<Rightarrow> new = old
      | Some force_at \<Rightarrow>
          if c < length (periodicity force_at) then
            (case k_attr force_at c of
               None \<Rightarrow> new = old
             | Some kq \<Rightarrow>
                 (\<exists>phq per. phase_attr force_at c = Some phq \<and>
                    periodicity_attr force_at c = Some per \<and>
                    new = (value_in_unit ext kq ENERGY_UNIT, value_in_unit ext phq ANGLE_UNIT,
                           of_int per)))
          else new = old)"

fun all_torsions :: "force list \<Rightarrow> torsion list" where
  "all_torsions [] = []"
| "all_torsions (PeriodicTorsionForce torsions # forces) = torsions @ all_torsions forces"
| "all_torsions (force # forces) = all_torsions forces"

text \<open>\<open>row_terms rows q ts\<close>: the terms of \<open>ts\<close>, in order, that are reported for the torsion
  \<open>q\<close> in either index order and whose own index quadruple is a row of the table.\<close>

definition row_terms :: "nat list list \<Rightarrow> nat list \<Rightarrow> torsion list \<Rightarrow> torsion list" where
  "row_terms rows q ts = filter (\<lambda>t. same_torsion q t \<and> torsion_key t \<in> set rows) ts"

section \<open>Invariants of the GAFF loops\<close>

text \<open>
  \<open>symmetric_refs\<close>: the two tensors have one row per table row, and the rows of a key and of
  its reverse agree. \<open>gaff_frame\<close>: what no force block touches.
\<close>

definition symmetric_refs :: "nat list list \<Rightarrow> ref_pair \<Rightarrow> bool" where
  "symmetric_refs rows = (\<lambda>(eqs, ks).
     length eqs = length rows \<and> length ks = length rows \<and>
     (\<forall>key p q. lookup_table rows key = Some p \<and> lookup_table rows (rev key) = Some q
        \<longrightarrow> eqs ! p = eqs ! q \<and> ks ! p = ks ! q))"

definition gaff_frame :: "'mol graph \<Rightarrow> 'mol graph \<Rightarrow> bool" where
  "gaff_frame g g' \<longleftrightarrow>
     mol g' = mol g \<and> (\<forall>nt. idxs (nodes g' nt) = idxs (nodes g nt)) \<and>
     nodes g' N1 = nodes g N1 \<and> nodes g' N4_improper = nodes g N4_improper \<and>
     nodes g' G = nodes g G"

text \<open>\<open>row_filled\<close>: every row that the table gives to its own quadruple holds the values of
  its terms in their order, then zeros.\<close>

definition row_filled ::
  "('mol, 'obj) externals \<Rightarrow> nat list list \<Rightarrow> nat \<Rightarrow> torsion list \<Rightarrow> torsion_tensors \<Rightarrow> bool" where
  "row_filled ext rows n ts T \<longleftrightarrow>
     (\<forall>p < length rows. lookup_table rows (rows ! p) = Some p \<longrightarrow>
        (\<forall>c < n. cell T p c =
           (if c < length (row_terms rows (rows ! p) ts)
            then torsion_value ext (row_terms rows (rows ! p) ts ! c) else (0, 0, 0))))"

section \<open>Further concrete inputs\<close>

text \<open>
  A graph of three atoms whose n2 table has four rows but not the pair (1, 0), and whose
  n3 table has one row; and a system with two bonds and one angle.
\<close>

definition broken_graph :: "nat graph" where
  "broken_graph =
     \<lparr>mol = 0,
      nodes = (\<lambda>nt. case nt of
         N1 \<Rightarrow> new_nodes [[0], [1], [2]]
       | N2 \<Rightarrow> new_nodes [[0, 1], [1, 2], [2, 1], [0, 2]]
       | N3 \<Rightarrow> new_nodes [[0, 1, 2]]
       | N4 \<Rightarrow> new_nodes []
       | N4_improper \<Rightarrow> new_nodes []
       | G \<Rightarrow> new_nodes [[0]])\<rparr>"

definition small_system :: "force list" where
  "small_system =
     [HarmonicBondForce [(0, 1, 0.15, 200), (1, 2, 0.14, 300)],
      HarmonicAngleForce [(0, 1, 2, 1.9, 50)]]"

text \<open>The same three atoms with a complete n2 table; the n3 table still has one row.
  \<open>short_after_bonds\<close> is this graph once the bond force has been processed.\<close>

definition short_graph :: "nat graph" where
  "short_graph =
     \<lparr>mol = 0,
      nodes = (\<lambda>nt. case nt of
         N1 \<Rightarrow> new_nodes [[0], [1], [2]]
       | N2 \<Rightarrow> new_nodes [[0, 1], [1, 0], [1, 2], [2, 1]]
       | N3 \<Rightarrow> new_nodes [[0, 1, 2]]
       | N4 \<Rightarrow> new_nodes []
       | N4_improper \<Rightarrow> new_nodes []
       | G \<Rightarrow> new_nodes [[0]])\<rparr>"

definition short_after_bonds :: "nat graph" where
  "short_after_bonds =
     update_nodes
       (update_nodes short_graph N2
          (\<lambda>d. d\<lparr>eq_ref := Some [[3 / 2], [3 / 2], [7 / 5], [7 / 5]],
                  k_ref := Some [[200], [200], [300], [300]]\<rparr>))
       N4 (\<lambda>d. d\<lparr>k_ref := Some [], periodicity_ref := Some [], phases_ref := Some []\<rparr>)"

text \<open>Systems with seven terms for one torsion, and with a term whose force constant is
  zero, and the torsion tensors that six phases make of them.\<close>

definition overfull_system :: "force list" where
  "overfull_system =
     [PeriodicTorsionForce [(0, 1, 2, 3, 1, 0, 1), (0, 1, 2, 3, 2, 0, 2), (0, 1, 2, 3, 3, 0, 3),
                            (0, 1, 2, 3, 4, 0, 4), (0, 1, 2, 3, 5, 0, 5), (0, 1, 2, 3, 6, 0, 6),
                            (0, 1, 2, 3, 7, 0, 7)]]"

definition overfull_tensors :: torsion_tensors where
  "overfull_tensors =
     ([[1 / 2, 1, 3 / 2, 2, 5 / 2, 3], [1 / 2, 1, 3 / 2, 2, 5 / 2, 3],
       [0, 0, 0, 0, 0, 0], [0, 0, 0, 0, 0, 0]],
      [[0, 0, 0, 0, 0, 0], [0, 0, 0, 0, 0, 0], [0, 0, 0, 0, 0, 0], [0, 0, 0, 0, 0, 0]],
      [[1, 2, 3, 4, 5, 6], [1, 2, 3, 4, 5, 6], [0, 0, 0, 0, 0, 0], [0, 0, 0, 0, 0, 0]])"

definition zero_k_system :: "force list" where
  "zero_k_system = [PeriodicTorsionForce [(0, 1, 2, 3, 1, 3, 0), (0, 1, 2, 3, 2, 0, 4)]]"

definition zero_k_tensors :: torsion_tensors where
  "zero_k_tensors =
     ([[2, 0, 0, 0, 0, 0], [2, 0, 0, 0, 0, 0], [0, 0, 0, 0, 0, 0], [0, 0, 0, 0, 0, 0]],
      [[0, 0, 0, 0, 0, 0], [0, 0, 0, 0, 0, 0], [0, 0, 0, 0, 0, 0], [0, 0, 0, 0, 0, 0]],
      [[2, 0, 0, 0, 0, 0], [2, 0, 0, 0, 0, 0], [0, 0, 0, 0, 0, 0], [0, 0, 0, 0, 0, 0]])"

section \<open>Loops, dictionaries and exceptions\<close>

lemma contains_sublist: "contains sub s = sublist sub s"
  by (induction s) (simp_all add: sublist_Cons_right)

lemma for_loop_append:
  "for_loop body (xs @ ys) s =
     (case for_loop body xs s of Inl e \<Rightarrow> Inl e | Inr s' \<Rightarrow> for_loop body ys s')"
  by (induction xs arbitrary: s) (simp_all split: sum.splits)

lemma for_loop_error:
  "for_loop body xs s = Inl e \<Longrightarrow> \<exists>x s'. x \<in> set xs \<and> body x s' = Inl e"
proof (induction xs arbitrary: s)
  case Nil
  then show ?case by simp
next
  case (Cons x xs)
  show ?case
  proof (cases "body x s")
    case (Inl e')
    with Cons.prems have "body x s = Inl e" by simp
    then show ?thesis by auto
  next
    case (Inr s')
    with Cons.prems have "for_loop body xs s' = Inl e" by simp
    from Cons.IH [OF this] show ?thesis by auto
  qed
qed

lemma dict_of_snoc: "dict_of (kvs @ [(key, v)]) = (dict_of kvs)(key \<mapsto> v)"
  by (simp add: dict_of_def)

lemma dict_of_Nil: "dict_of [] = Map.empty"
  by (simp add: dict_of_def)

lemma lookup_table_snoc:
  "lookup_table (rows @ [row]) = (lookup_table rows)(row \<mapsto> length rows)"
  by (simp add: lookup_table_def enumerate_append_eq dict_of_snoc)

lemma lookup_table_Some:
  "lookup_table rows key = Some p \<Longrightarrow> p < length rows \<and> rows ! p = key"
proof (induction rows arbitrary: p rule: rev_induct)
  case Nil
  then show ?case by (simp add: lookup_table_def dict_of_Nil)
next
  case (snoc row rows)
  show ?case
  proof (cases "key = row")
    case True
    with snoc.prems have "p = length rows" by (simp add: lookup_table_snoc)
    with True show ?thesis by simp
  next
    case False
    with snoc.prems have "lookup_table rows key = Some p" by (simp add: lookup_table_snoc)
    from snoc.IH [OF this] show ?thesis by (simp add: nth_append)
  qed
qed

lemma lookup_table_inj:
  "lookup_table rows key = Some p \<Longrightarrow> lookup_table rows key' = Some p \<Longrightarrow> key = key'"
  using lookup_table_Some by blast

lemma lookup_table_Nil: "lookup_table [] = Map.empty"
  by (simp add: lookup_table_def dict_of_Nil)

lemma lookup_table_dom: "lookup_table rows key \<noteq> None \<longleftrightarrow> key \<in> set rows"
  by (induction rows rule: rev_induct) (auto simp: lookup_table_snoc lookup_table_Nil)

lemma convert_to_off_None:
  "convert_to_off ext x = None \<longleftrightarrow> (\<exists>ts y. x = OtherObject ts y \<and> \<not> sublist ''openeye'' ts)"
  by (cases x) (simp_all add: contains_sublist)

lemma list_remove_error: "list_remove x xs = Inl e \<Longrightarrow> e = ValueError"
  by (simp add: list_remove_def split: if_splits)

lemma provide_redundant_error: "provide_redundant p d = Inl e \<Longrightarrow> e = KeyError"
  by (cases p) (simp add: provide_redundant_def split: option.splits)

lemma prepare_gaff_error: "prepare_gaff ext self = Inl e \<Longrightarrow> e = ValueError \<or> e = KeyError"
  unfolding prepare_gaff_def
  by (auto split: sum.splits dest!: for_loop_error list_remove_error provide_redundant_error)

lemma LegacyForceField_NotImplemented:
  "LegacyForceField ext name = Inl NotImplementedError \<longleftrightarrow>
     \<not> sublist ''gaff'' name \<and> \<not> sublist ''smirnoff'' name \<and> \<not> sublist ''openff'' name"
  by (auto simp: LegacyForceField_def prepare_forcefield_def prepare_smirnoff_def
        prepare_openff_def contains_sublist dest: prepare_gaff_error)

lemma getitems_error: "getitems d keys = Inl e \<Longrightarrow> e = KeyError"
  by (induction keys) (auto split: option.splits sum.splits)

lemma type_gaff_error:
  "type_gaff ext self g = Inl (e, g') \<Longrightarrow> e \<noteq> NotImplementedError"
  by (auto simp: type_gaff_def split: if_splits option.splits sum.splits dest: getitems_error)

lemma typing_NotImplemented:
  "(\<exists>g'. typing ext self g = Inl (NotImplementedError, g')) \<longleftrightarrow> \<not> sublist ''gaff'' (forcefield self)"
  by (auto simp: typing_def contains_sublist dest: type_gaff_error)

lemma assign_ref_error: "assign_ref p eq k T = Inl (e, T') \<Longrightarrow> e = IndexError"
  by (cases T) (auto simp: assign_ref_def split: if_splits)

lemma assign_both_error:
  "assign_both lk key rkey eq k T = Inl (e, T') \<Longrightarrow> e = KeyError \<or> e = IndexError"
  by (auto simp: assign_both_def split: option.splits sum.splits dest: assign_ref_error)

lemma tensor_set_error: "tensor_set t p c v = Inl e \<Longrightarrow> e = IndexError"
  by (simp add: tensor_set_def split: if_splits)

lemma tensor_get_error: "tensor_get t p c = Inl e \<Longrightarrow> e = IndexError"
  by (simp add: tensor_get_def split: if_splits)

lemma first_zero_column_error: "first_zero_column t p cs = Inl e \<Longrightarrow> e = IndexError"
  by (induction cs) (auto split: sum.splits if_splits dest: tensor_get_error)

lemma write_term_error: "write_term p c kv phv pev T = Inl e \<Longrightarrow> e = IndexError"
  by (cases T) (auto simp: write_term_def split: sum.splits dest: tensor_set_error)

lemma torsion_body_error:
  "torsion_body ext lk n t T = Inl e \<Longrightarrow> e = KeyError \<or> e = IndexError"
  by (cases t)
     (auto simp: torsion_body_def split: option.splits sum.splits
           dest: first_zero_column_error write_term_error)

lemma gaff_force_blocks_error:
  assumes "gaff_force_blocks ext bl al tlk n f S = Inl (e, g')"
  shows "e = AssertionError \<or> e = KeyError \<or> e = IndexError"
proof -
  obtain g T where Pair: "S = (g, T)" by (cases S) auto
  show ?thesis
  proof (cases f)
    case (HarmonicBondForce bonds)
    with assms Pair show ?thesis
      by (auto simp: bond_body_def split: if_splits sum.splits prod.splits
            dest!: for_loop_error assign_both_error)
  next
    case (HarmonicAngleForce angles)
    with assms Pair show ?thesis
      by (auto simp: angle_body_def split: if_splits sum.splits prod.splits
            dest!: for_loop_error assign_both_error)
  next
    case (PeriodicTorsionForce torsions)
    with assms Pair show ?thesis
      by (auto split: sum.splits dest!: for_loop_error torsion_body_error)
  next
    case OtherForce
    with assms Pair show ?thesis by simp
  qed
qed

lemma gaff_force_error:
  "gaff_force ext bl al tlk n f S = Inl (e, g') \<Longrightarrow> e = AssertionError \<or> e = KeyError \<or> e = IndexError"
  by (auto simp: gaff_force_def split: sum.splits prod.splits dest: gaff_force_blocks_error)

lemma parametrize_gaff_error:
  "parametrize_gaff ext self g n = Inl (e, g') \<Longrightarrow> e = AssertionError \<or> e = KeyError \<or> e = IndexError"
  unfolding parametrize_gaff_def
  by (auto split: sum.splits prod.splits dest!: for_loop_error dest: gaff_force_error)

lemma label_term_error:
  "label_term ext fa idx sub_idx T = Inl e \<Longrightarrow> e = IndexError \<or> e = AttributeError"
  by (cases T) (auto simp: label_term_def split: option.splits sum.splits dest: tensor_set_error)

lemma label_torsions_error:
  "label_torsions ext force rows n = Inl e \<Longrightarrow> e = IndexError \<or> e = AttributeError"
  unfolding label_torsions_def
  by (auto simp: label_row_def split: option.splits dest!: for_loop_error dest: label_term_error)

lemma parametrize_smirnoff_error:
  "parametrize_smirnoff ext self g = Inl (e, g') \<Longrightarrow> e = KeyError \<or> e = IndexError \<or> e = AttributeError"
  unfolding parametrize_smirnoff_def Let_def apply_torsion_def apply_improper_torsion_def
  by (auto split: option.splits sum.splits dest: getitems_error label_torsions_error)

lemma parametrize_NotImplemented:
  "(\<exists>g'. parametrize ext self g = Inl (NotImplementedError, g')) \<longleftrightarrow>
     \<not> sublist ''gaff'' (forcefield self) \<and> \<not> sublist ''smirnoff'' (forcefield self)
     \<and> \<not> sublist ''openff'' (forcefield self)"
  by (auto simp: parametrize_def contains_sublist
        dest: parametrize_smirnoff_error parametrize_gaff_error)

lemma dict_of_zip_index:
  "dict_of (zip [0..<length xs] xs) i = (if i < length xs then Some (xs ! i) else None)"
proof (induction xs rule: rev_induct)
  case Nil
  then show ?case by (simp add: dict_of_Nil)
next
  case (snoc x xs)
  have "zip [0..<length (xs @ [x])] (xs @ [x]) = zip [0..<length xs] xs @ [(length xs, x)]"
    by simp
  then show ?case using snoc by (simp add: dict_of_snoc nth_append)
qed

lemma dict_of_zip_value:
  "dict_of (zip xs [0..<length xs]) t = Some i \<Longrightarrow> i < length xs \<and> xs ! i = t"
proof (induction xs arbitrary: i rule: rev_induct)
  case Nil
  then show ?case by (simp add: dict_of_Nil)
next
  case (snoc x xs)
  have z: "zip (xs @ [x]) [0..<length (xs @ [x])] = zip xs [0..<length xs] @ [(x, length xs)]"
    by simp
  show ?case
  proof (cases "t = x")
    case True
    with snoc.prems z have "i = length xs" by (simp add: dict_of_snoc)
    with True show ?thesis by simp
  next
    case False
    with snoc.prems z have "dict_of (zip xs [0..<length xs]) t = Some i"
      by (simp add: dict_of_snoc)
    from snoc.IH [OF this] show ?thesis by (simp add: nth_append)
  qed
qed

lemma dict_of_zip_dom:
  "t \<in> set xs \<Longrightarrow> dict_of (zip xs [0..<length xs]) t \<noteq> None"
proof (induction xs rule: rev_induct)
  case Nil
  then show ?case by simp
next
  case (snoc x xs)
  have z: "zip (xs @ [x]) [0..<length (xs @ [x])] = zip xs [0..<length xs] @ [(x, length xs)]"
    by simp
  show ?case using snoc by (auto simp: z dict_of_snoc)
qed

lemma count_list_remove1:
  "count_list (remove1 x xs) t = (if x = t \<and> x \<in> set xs then count_list xs t - 1 else count_list xs t)"
  by (induction xs) auto

lemma remove_loop_count:
  "for_loop list_remove bs xs = Inr ys \<Longrightarrow> distinct bs \<Longrightarrow>
     count_list ys t = (if t \<in> set bs then count_list xs t - 1 else count_list xs t)"
proof (induction bs arbitrary: xs)
  case Nil
  then show ?case by simp
next
  case (Cons b bs)
  from Cons.prems(1) obtain zs where zs: "list_remove b xs = Inr zs"
    and rest': "for_loop list_remove bs zs = Inr ys"
    by (auto split: sum.splits)
  from zs have b: "b \<in> set xs" and "zs = remove1 b xs"
    by (auto simp: list_remove_def split: if_splits)
  with rest' have rest: "for_loop list_remove bs (remove1 b xs) = Inr ys" by simp
  from Cons.prems(2) have "distinct bs" "b \<notin> set bs" by auto
  from Cons.IH [OF rest \<open>distinct bs\<close>] \<open>b \<notin> set bs\<close> b show ?case
    by (auto simp: count_list_remove1)
qed

lemma remove_loop_set:
  "for_loop list_remove bs xs = Inr ys \<Longrightarrow> t \<notin> set bs \<Longrightarrow> t \<in> set ys \<longleftrightarrow> t \<in> set xs"
proof (induction bs arbitrary: xs)
  case Nil
  then show ?case by simp
next
  case (Cons b bs)
  from Cons.prems(1) obtain zs where zs: "list_remove b xs = Inr zs"
    and rest': "for_loop list_remove bs zs = Inr ys"
    by (auto split: sum.splits)
  from zs have "zs = remove1 b xs"
    by (auto simp: list_remove_def split: if_splits)
  with rest' have rest: "for_loop list_remove bs (remove1 b xs) = Inr ys" by simp
  from Cons.prems(2) have "t \<notin> set bs" "t \<noteq> b" by auto
  from Cons.IH [OF rest \<open>t \<notin> set bs\<close>] \<open>t \<noteq> b\<close> show ?case by simp
qed

lemma provide_loop:
  assumes "for_loop provide_redundant REDUNDANT_TYPES d = Inr d'"
  shows "(\<forall>t. t \<notin> fst ` set REDUNDANT_TYPES \<longrightarrow> d' t = d t)"
    and "(\<forall>(bad_type, good_type) \<in> set REDUNDANT_TYPES. \<exists>i. d' bad_type = Some i \<and> d' good_type = Some i)"
  using assms
  by (auto simp: REDUNDANT_TYPES_def provide_redundant_def split: option.splits)

lemma for_loop_invariant:
  assumes "for_loop body xs s = Inr s'" and "P s"
    and "\<And>x t t'. x \<in> set xs \<Longrightarrow> P t \<Longrightarrow> body x t = Inr t' \<Longrightarrow> P t'"
  shows "P s'"
  using assms
proof (induction xs arbitrary: s)
  case Nil
  then show ?case by simp
next
  case (Cons x xs)
  from Cons.prems(1) obtain t where t: "body x s = Inr t" and rest: "for_loop body xs t = Inr s'"
    by (auto split: sum.splits)
  from Cons.prems(3) [of x s t] Cons.prems(2) t have "P t" by simp
  show ?case
  proof (rule Cons.IH [OF rest \<open>P t\<close>])
    fix y u u'
    assume "y \<in> set xs" "P u" "body y u = Inr u'"
    then show "P u'" using Cons.prems(3) [of y u u'] by simp
  qed
qed

lemma for_loop_error_invariant:
  assumes "for_loop body xs s = Inl e" and "P s"
    and "\<And>x t t'. x \<in> set xs \<Longrightarrow> P t \<Longrightarrow> body x t = Inr t' \<Longrightarrow> P t'"
  shows "\<exists>x t. x \<in> set xs \<and> P t \<and> body x t = Inl e"
  using assms
proof (induction xs arbitrary: s)
  case Nil
  then show ?case by simp
next
  case (Cons x xs)
  show ?case
  proof (cases "body x s")
    case (Inl e')
    with Cons.prems(1) have "body x s = Inl e" by simp
    with Cons.prems(2) show ?thesis by auto
  next
    case (Inr t)
    with Cons.prems(1) have rest: "for_loop body xs t = Inl e" by simp
    from Cons.prems(3) [of x s t] Cons.prems(2) Inr have "P t" by simp
    have "\<exists>y u. y \<in> set xs \<and> P u \<and> body y u = Inl e"
    proof (rule Cons.IH [OF rest \<open>P t\<close>])
      fix y u u'
      assume "y \<in> set xs" "P u" "body y u = Inr u'"
      then show "P u'" using Cons.prems(3) [of y u u'] by simp
    qed
    then show ?thesis by auto
  qed
qed

lemma for_loop_snoc_Inr:
  "for_loop body (xs @ [x]) s = Inr s' \<longleftrightarrow>
     (\<exists>t. for_loop body xs s = Inr t \<and> body x t = Inr s')"
  by (auto simp: for_loop_append split: sum.splits)

lemma for_loop_each:
  assumes "for_loop body xs s = Inr s'" and "x \<in> set xs"
  shows "\<exists>t t'. body x t = Inr t'"
  using assms
proof (induction xs arbitrary: s)
  case Nil
  then show ?case by simp
next
  case (Cons y ys)
  from Cons.prems(1) obtain t where t: "body y s = Inr t" and rest: "for_loop body ys t = Inr s'"
    by (auto split: sum.splits)
  show ?case
  proof (cases "x = y")
    case True
    with t show ?thesis by blast
  next
    case False
    with Cons.prems(2) have "x \<in> set ys" by simp
    from Cons.IH [OF rest this] show ?thesis .
  qed
qed

lemma assign_ref_Inr:
  "assign_ref p a b (eqs, ks) = Inr T' \<longleftrightarrow>
     p < length eqs \<and> p < length ks \<and> T' = (eqs[p := [a]], ks[p := [b]])"
  by (auto simp: assign_ref_def)

lemma assign_both_Inr:
  "assign_both lk key rkey a b (eqs, ks) = Inr T' \<longleftrightarrow>
     (\<exists>p q. lk key = Some p \<and> lk rkey = Some q \<and> p < length eqs \<and> p < length ks \<and>
        q < length eqs \<and> q < length ks \<and>
        T' = (eqs[p := [a], q := [a]], ks[p := [b], q := [b]]))"
  by (auto simp: assign_both_def assign_ref_def split: option.splits sum.splits if_splits)

lemma symmetric_refs_zeros: "symmetric_refs rows (zeros (length rows) c, zeros (length rows) c)"
  by (auto simp: symmetric_refs_def zeros_def dest!: lookup_table_Some)

lemma symmetric_refs_step:
  assumes sym: "symmetric_refs rows T"
    and step: "assign_both (lookup_table rows) key (rev key) a b T = Inr T'"
  shows "symmetric_refs rows T'"
proof -
  obtain eqs ks where T: "T = (eqs, ks)" by (cases T)
  from step T obtain p0 q0 where p0: "lookup_table rows key = Some p0"
    and q0: "lookup_table rows (rev key) = Some q0"
    and len: "p0 < length eqs" "p0 < length ks" "q0 < length eqs" "q0 < length ks"
    and T': "T' = (eqs[p0 := [a], q0 := [a]], ks[p0 := [b], q0 := [b]])"
    by (auto simp: assign_both_Inr)
  from sym T have l: "length eqs = length rows" "length ks = length rows"
    and old: "\<And>key p q. lookup_table rows key = Some p \<Longrightarrow> lookup_table rows (rev key) = Some q
        \<Longrightarrow> eqs ! p = eqs ! q \<and> ks ! p = ks ! q"
    by (auto simp: symmetric_refs_def)
  have "eqs[p0 := [a], q0 := [a]] ! p = eqs[p0 := [a], q0 := [a]] ! q
      \<and> ks[p0 := [b], q0 := [b]] ! p = ks[p0 := [b], q0 := [b]] ! q"
    if p: "lookup_table rows key' = Some p" and q: "lookup_table rows (rev key') = Some q"
    for key' p q
  proof -
    have a1: "p = p0 \<Longrightarrow> q = q0"
      using lookup_table_inj [OF p] p0 q q0 by auto
    have a2: "p = q0 \<Longrightarrow> q = p0"
    proof -
      assume "p = q0"
      with lookup_table_inj [OF p, of "rev key"] q0 have "key' = rev key" by simp
      with q p0 show "q = p0" by simp
    qed
    have a3: "q = p0 \<Longrightarrow> p = q0"
    proof -
      assume "q = p0"
      with lookup_table_inj [OF q, of key] p0 have "rev key' = key" by simp
      then have "key' = rev key" by auto
      with p q0 show "p = q0" by simp
    qed
    have a4: "q = q0 \<Longrightarrow> p = p0"
    proof -
      assume "q = q0"
      with lookup_table_inj [OF q, of "rev key"] q0 have "rev key' = rev key" by simp
      then have "key' = key" by simp
      with p p0 show "p = p0" by simp
    qed
    consider (rev) "p = q0" | (fwd) "p \<noteq> q0" "p = p0" | (other) "p \<noteq> q0" "p \<noteq> p0"
      by blast
    then show ?thesis
    proof cases
      case rev
      with a2 have "q = p0" by simp
      with rev len show ?thesis by (simp add: nth_list_update)
    next
      case fwd
      with a1 have "q = q0" by simp
      with fwd len show ?thesis by (simp add: nth_list_update)
    next
      case other
      with a3 a4 have "q \<noteq> p0" "q \<noteq> q0" by auto
      with other old [OF p q] show ?thesis by simp
    qed
  qed
  with l T' show ?thesis unfolding symmetric_refs_def by auto
qed

lemma refs_loop_values:
  fixes key :: "'x \<Rightarrow> nat list"
  defines "body \<equiv> (\<lambda>rows a b x. assign_both (lookup_table rows) (key x) (rev (key x)) (a x) (b x))"
  shows "for_loop (body rows a b) xs (zeros (length rows) 1, zeros (length rows) 1) = Inr (eqs, ks) \<Longrightarrow>
     symmetric_refs rows (eqs, ks) \<and>
     (\<forall>x \<in> set xs. \<exists>p x'. lookup_table rows (key x) = Some p \<and> x' \<in> set xs \<and>
        (key x' = key x \<or> key x' = rev (key x)) \<and> eqs ! p = [a x'] \<and> ks ! p = [b x'])"
proof (induction xs arbitrary: eqs ks rule: rev_induct)
  case Nil
  then have "eqs = zeros (length rows) 1" "ks = zeros (length rows) 1" by auto
  with symmetric_refs_zeros [of rows 1] show ?case by simp
next
  case (snoc x0 xs)
  from snoc.prems obtain eqs0 ks0 where
    mid: "for_loop (body rows a b) xs (zeros (length rows) 1, zeros (length rows) 1) = Inr (eqs0, ks0)"
    and step: "body rows a b x0 (eqs0, ks0) = Inr (eqs, ks)"
    by (auto simp: for_loop_snoc_Inr)
  from snoc.IH [OF mid] have sym0: "symmetric_refs rows (eqs0, ks0)"
    and val0: "\<forall>x \<in> set xs. \<exists>p x'. lookup_table rows (key x) = Some p \<and> x' \<in> set xs \<and>
        (key x' = key x \<or> key x' = rev (key x)) \<and> eqs0 ! p = [a x'] \<and> ks0 ! p = [b x']"
    by auto
  from step have step': "assign_both (lookup_table rows) (key x0) (rev (key x0)) (a x0) (b x0) (eqs0, ks0)
      = Inr (eqs, ks)"
    by (simp add: body_def)
  from symmetric_refs_step [OF sym0 step'] have sym: "symmetric_refs rows (eqs, ks)" .
  from step' obtain p0 q0 where p0: "lookup_table rows (key x0) = Some p0"
    and q0: "lookup_table rows (rev (key x0)) = Some q0"
    and len: "p0 < length eqs0" "p0 < length ks0" "q0 < length eqs0" "q0 < length ks0"
    and eqs: "eqs = eqs0[p0 := [a x0], q0 := [a x0]]" and ks: "ks = ks0[p0 := [b x0], q0 := [b x0]]"
    by (auto simp: assign_both_Inr)
  have at_p0: "eqs ! p0 = [a x0] \<and> ks ! p0 = [b x0]"
    using len eqs ks by (simp add: nth_list_update)
  have at_q0: "eqs ! q0 = [a x0] \<and> ks ! q0 = [b x0]"
    using len eqs ks by (simp add: nth_list_update)
  have "\<exists>p x'. lookup_table rows (key x) = Some p \<and> x' \<in> set (xs @ [x0]) \<and>
        (key x' = key x \<or> key x' = rev (key x)) \<and> eqs ! p = [a x'] \<and> ks ! p = [b x']"
    if x: "x \<in> set (xs @ [x0])" for x
  proof (cases "x = x0")
    case True
    with p0 at_p0 show ?thesis by auto
  next
    case False
    with x have "x \<in> set xs" by simp
    with val0 obtain p x' where p: "lookup_table rows (key x) = Some p" and x': "x' \<in> set xs"
      and same: "key x' = key x \<or> key x' = rev (key x)"
      and v: "eqs0 ! p = [a x']" "ks0 ! p = [b x']"
      by blast
    consider (fwd) "p = p0" | (rev) "p = q0" | (other) "p \<noteq> p0" "p \<noteq> q0" by blast
    then show ?thesis
    proof cases
      case fwd
      with lookup_table_inj [OF p, of "key x0"] p0 have "key x0 = key x" by simp
      with fwd p at_p0 show ?thesis by auto
    next
      case rev
      with lookup_table_inj [OF p, of "rev (key x0)"] q0 have "key x = rev (key x0)" by simp
      then have "key x0 = rev (key x)" by simp
      with rev p at_q0 show ?thesis by auto
    next
      case other
      with v eqs ks have "eqs ! p = [a x']" "ks ! p = [b x']" by simp_all
      with p x' same show ?thesis by auto
    qed
  qed
  with sym show ?case by blast
qed

lemma refs_loop_both:
  assumes run: "for_loop (\<lambda>x. assign_both (lookup_table rows) (key x) (rev (key x)) (a x) (b x)) xs
                 (zeros (length rows) 1, zeros (length rows) 1) = Inr (eqs, ks)"
    and x: "x \<in> set xs"
  shows "\<exists>p q x'. lookup_table rows (key x) = Some p \<and> lookup_table rows (rev (key x)) = Some q \<and>
           p < length eqs \<and> q < length eqs \<and> p < length ks \<and> q < length ks \<and>
           x' \<in> set xs \<and> (key x' = key x \<or> key x' = rev (key x)) \<and>
           eqs ! p = [a x'] \<and> ks ! p = [b x'] \<and> eqs ! q = [a x'] \<and> ks ! q = [b x']"
proof -
  from refs_loop_values [OF run] have sym: "symmetric_refs rows (eqs, ks)"
    and val: "\<forall>x \<in> set xs. \<exists>p x'. lookup_table rows (key x) = Some p \<and> x' \<in> set xs \<and>
        (key x' = key x \<or> key x' = rev (key x)) \<and> eqs ! p = [a x'] \<and> ks ! p = [b x']"
    by auto
  from val x obtain p x' where p: "lookup_table rows (key x) = Some p" and x': "x' \<in> set xs"
    and same: "key x' = key x \<or> key x' = rev (key x)" and v: "eqs ! p = [a x']" "ks ! p = [b x']"
    by blast
  from for_loop_each [OF run x] obtain T T' where
    "assign_both (lookup_table rows) (key x) (rev (key x)) (a x) (b x) T = Inr T'" by blast
  then obtain q where q: "lookup_table rows (rev (key x)) = Some q"
    by (cases T) (auto simp: assign_both_Inr)
  from sym p q have "eqs ! p = eqs ! q" "ks ! p = ks ! q" and l: "length eqs = length rows" "length ks = length rows"
    by (auto simp: symmetric_refs_def)
  moreover from lookup_table_Some [OF p] lookup_table_Some [OF q] have "p < length rows" "q < length rows"
    by auto
  ultimately show ?thesis using p q x' same v by auto
qed

lemma nodes_update_nodes [simp]:
  "nodes (update_nodes g nt f) nt' = (if nt' = nt then f (nodes g nt) else nodes g nt')"
  by (simp add: update_nodes_def)

lemma mol_update_nodes [simp]: "mol (update_nodes g nt f) = mol g"
  by (simp add: update_nodes_def)

lemma nodes_apply_n4 [simp]:
  "nodes (apply_n4 g (ks, phs, pers)) nt =
     (if nt = N4 then (nodes g N4)\<lparr>k_ref := Some ks, periodicity_ref := Some pers, phases_ref := Some phs\<rparr>
      else nodes g nt)"
  by (simp add: apply_n4_def)

lemma mol_apply_n4 [simp]: "mol (apply_n4 g T) = mol g"
  by (cases T) (simp add: apply_n4_def)

lemma gaff_frame_refl: "gaff_frame g g"
  by (simp add: gaff_frame_def)

lemma gaff_frame_trans: "gaff_frame g g1 \<Longrightarrow> gaff_frame g1 g2 \<Longrightarrow> gaff_frame g g2"
  by (simp add: gaff_frame_def)

lemma gaff_frame_number_of_nodes: "gaff_frame g g' \<Longrightarrow> number_of_nodes g' nt = number_of_nodes g nt"
  by (simp add: gaff_frame_def number_of_nodes_def)

lemma gaff_force_blocks_frame:
  "gaff_force_blocks ext bl al tlk n f (g1, T1) = Inr (g2, T2) \<Longrightarrow> gaff_frame g1 g2"
  "gaff_force_blocks ext bl al tlk n f (g1, T1) = Inl (e, g2) \<Longrightarrow> gaff_frame g1 g2"
  by (cases f; auto simp: gaff_frame_def split: if_splits sum.splits prod.splits)+

lemma gaff_force_frame:
  "gaff_force ext bl al tlk n f (g1, T1) = Inr (g2, T2) \<Longrightarrow> gaff_frame g1 g2"
  "gaff_force ext bl al tlk n f (g1, T1) = Inl (e, g2) \<Longrightarrow> gaff_frame g1 g2"
proof -
  assume "gaff_force ext bl al tlk n f (g1, T1) = Inr (g2, T2)"
  then obtain g' where b: "gaff_force_blocks ext bl al tlk n f (g1, T1) = Inr (g', T2)"
    and g2: "g2 = apply_n4 g' T2"
    by (auto simp: gaff_force_def split: sum.splits)
  from gaff_force_blocks_frame(1) [OF b] g2 show "gaff_frame g1 g2"
    by (cases T2) (auto simp: gaff_frame_def)
next
  assume "gaff_force ext bl al tlk n f (g1, T1) = Inl (e, g2)"
  then have "gaff_force_blocks ext bl al tlk n f (g1, T1) = Inl (e, g2)"
    by (auto simp: gaff_force_def split: sum.splits)
  then show "gaff_frame g1 g2" by (rule gaff_force_blocks_frame(2))
qed

lemma gaff_loop_frame:
  assumes "for_loop (gaff_force ext bl al tlk n) sys (g0, T0) = Inr (g', T')"
  shows "gaff_frame g0 g'"
proof -
  have "(\<lambda>(gx, Tx). gaff_frame g0 gx) (g', T')"
  proof (rule for_loop_invariant [OF assms])
    show "(\<lambda>(gx, Tx). gaff_frame g0 gx) (g0, T0)" by (simp add: gaff_frame_refl)
  next
    fix f t t'
    assume "(\<lambda>(gx, Tx). gaff_frame g0 gx) t" "gaff_force ext bl al tlk n f t = Inr t'"
    then show "(\<lambda>(gx, Tx). gaff_frame g0 gx) t'"
      by (cases t; cases t') (auto dest: gaff_force_frame(1) gaff_frame_trans)
  qed
  then show ?thesis by simp
qed

lemma gaff_loop_error_frame:
  assumes "for_loop (gaff_force ext bl al tlk n) sys (g0, T0) = Inl (e, g')"
  shows "gaff_frame g0 g'"
proof -
  have "\<exists>f t. f \<in> set sys \<and> (\<lambda>(gx, Tx). gaff_frame g0 gx) t \<and> gaff_force ext bl al tlk n f t = Inl (e, g')"
  proof (rule for_loop_error_invariant [OF assms])
    show "(\<lambda>(gx, Tx). gaff_frame g0 gx) (g0, T0)" by (simp add: gaff_frame_refl)
  next
    fix f t t'
    assume "(\<lambda>(gx, Tx). gaff_frame g0 gx) t" "gaff_force ext bl al tlk n f t = Inr t'"
    then show "(\<lambda>(gx, Tx). gaff_frame g0 gx) t'"
      by (cases t; cases t') (auto dest: gaff_force_frame(1) gaff_frame_trans)
  qed
  then show ?thesis by (auto dest: gaff_force_frame(2) gaff_frame_trans)
qed

section \<open>Lemmas on the SMIRNOFF parametrization\<close>

lemma transpose_102_rect:
  "positions \<noteq> [] \<Longrightarrow> \<forall>atom \<in> set positions. length atom = n_conf \<Longrightarrow>
     transpose_102 positions = map (\<lambda>c. map (\<lambda>atom. atom ! c) positions) [0..<n_conf]"
  by (cases positions) (simp_all add: transpose_102_def)

lemma getitems_Inr:
  "getitems d keys = Inr vs \<Longrightarrow>
     length vs = length keys \<and> (\<forall>i < length keys. d (keys ! i) = Some (vs ! i))"
proof (induction keys arbitrary: vs)
  case Nil
  then show ?case by simp
next
  case (Cons key keys)
  from Cons.prems obtain v vs' where v: "d key = Some v" and rest: "getitems d keys = Inr vs'"
    and vs: "vs = v # vs'"
    by (auto split: option.splits sum.splits)
  from Cons.IH [OF rest] v vs show ?case by (auto simp: nth_Cons split: nat.splits)
qed

lemma nodes_store_torsions [simp]:
  "nodes (store_torsions g nt (ks, phs, pers)) nt' =
     (if nt' = nt then (nodes g nt)\<lparr>k_ref := Some ks, periodicity_ref := Some pers, phases_ref := Some phs\<rparr>
      else nodes g nt')"
  by (simp add: store_torsions_def)

lemma parametrize_smirnoff_Inr:
  assumes "parametrize_smirnoff ext self g = Inr g'"
  shows "\<exists>lm vs T T'. FF self = Some lm \<and>
           getitems (vdW (lm (mol g))) (map (\<lambda>idx. [idx]) [0..<number_of_nodes g N1]) = Inr vs \<and>
           apply_torsion ext (lm (mol g)) g 6 = Inr T \<and>
           apply_improper_torsion ext (lm (mol g)) g 6 = Inr T' \<and>
           nodes g' N1 = (nodes g N1)\<lparr>
             epsilon_ref := Some (column (map (\<lambda>v. value_in_unit ext (vdw_epsilon v) ENERGY_UNIT) vs)),
             sigma_ref := Some (column (map (\<lambda>v. value_in_unit ext (vdw_rmin_half v) DISTANCE_UNIT) vs))\<rparr> \<and>
           nodes g' N4 = (nodes g N4)\<lparr>k_ref := Some (fst T), periodicity_ref := Some (snd (snd T)),
                                     phases_ref := Some (fst (snd T))\<rparr> \<and>
           nodes g' N4_improper = (nodes g N4_improper)\<lparr>k_ref := Some (fst T'),
               periodicity_ref := Some (snd (snd T')), phases_ref := Some (fst (snd T'))\<rparr>"
  using assms
  unfolding parametrize_smirnoff_def Let_def
  by (auto simp: apply_torsion_def apply_improper_torsion_def number_of_nodes_def
        split: option.splits sum.splits)

lemma has_shape_zeros: "has_shape r c (zeros r c)"
  by (simp add: has_shape_def zeros_def)

lemma shape3_zeros: "shape3 r c (zeros r c, zeros r c, zeros r c)"
  by (simp add: shape3_def has_shape_zeros)

lemma has_shape_set_cell:
  assumes "has_shape r n t"
  shows "has_shape r n (set_cell t p c v)"
proof (cases "p < length t")
  case True
  with assms have "length ((t ! p)[c := v]) = n" by (simp add: has_shape_def)
  with assms show ?thesis
    using set_update_subset_insert [of t p "(t ! p)[c := v]"]
    by (auto simp: has_shape_def set_cell_def)
next
  case False
  then have "t[p := (t ! p)[c := v]] = t" by (simp add: list_update_beyond)
  with assms show ?thesis by (simp add: set_cell_def)
qed

lemma has_shape_nth: "has_shape r n t \<Longrightarrow> p < r \<Longrightarrow> length (t ! p) = n"
  using nth_mem [of p t] by (auto simp: has_shape_def)

lemma tensor_set_Inr:
  "tensor_set t p c v = Inr t' \<longleftrightarrow> p < length t \<and> c < length (t ! p) \<and> t' = set_cell t p c v"
  by (auto simp: tensor_set_def)

lemma tensor_get_Inr:
  "tensor_get t p c = Inr v \<longleftrightarrow> p < length t \<and> c < length (t ! p) \<and> v = t ! p ! c"
  by (auto simp: tensor_get_def)

lemma set_cell_nth:
  "p < length t \<Longrightarrow> c < length (t ! p) \<Longrightarrow>
     set_cell t p c v ! p2 ! c2 = (if p2 = p \<and> c2 = c then v else t ! p2 ! c2)"
  by (auto simp: set_cell_def nth_list_update)

lemma write_term_Inr:
  "write_term p c kv phv pev (ks, phs, pers) = Inr T' \<longleftrightarrow>
     p < length ks \<and> c < length (ks ! p) \<and> p < length phs \<and> c < length (phs ! p) \<and>
     p < length pers \<and> c < length (pers ! p) \<and> T' = write3 p c (kv, phv, pev) (ks, phs, pers)"
  by (auto simp: write_term_def write3_def tensor_set_def split: sum.splits if_splits)

lemma cell_write3:
  assumes "p < length ks" "c < length (ks ! p)" "p < length phs" "c < length (phs ! p)"
    "p < length pers" "c < length (pers ! p)"
  shows "cell (write3 p c v (ks, phs, pers)) p2 c2 =
           (if p2 = p \<and> c2 = c then v else cell (ks, phs, pers) p2 c2)"
  using assms by (cases v) (simp add: cell_def write3_def set_cell_nth)

lemma shape3_write3: "shape3 r n T \<Longrightarrow> shape3 r n (write3 p c v T)"
  by (cases T; cases v) (simp add: shape3_def write3_def has_shape_set_cell)

lemma cell_write3_shape:
  assumes "shape3 r n T" "p < r" "c < n"
  shows "cell (write3 p c v T) p2 c2 = (if p2 = p \<and> c2 = c then v else cell T p2 c2)"
proof -
  obtain ks phs pers where T: "T = (ks, phs, pers)" by (cases T)
  with assms have "p < length ks" "c < length (ks ! p)" "p < length phs" "c < length (phs ! p)"
    "p < length pers" "c < length (pers ! p)"
    by (auto simp: shape3_def has_shape_def)
  then show ?thesis unfolding T by (rule cell_write3)
qed

lemma cell_zeros: "p < r \<Longrightarrow> c < n \<Longrightarrow> cell (zeros r n, zeros r n, zeros r n) p c = (0, 0, 0)"
  by (simp add: cell_def zeros_def)

lemma write_term_shape:
  assumes "shape3 r n T"
  shows "write_term p c kv phv pev T = Inr T' \<longleftrightarrow> p < r \<and> c < n \<and> T' = write3 p c (kv, phv, pev) T"
proof -
  obtain ks phs pers where T: "T = (ks, phs, pers)" by (cases T)
  from assms T have l: "length ks = r" "length phs = r" "length pers = r"
    and rows: "\<And>q. q < r \<Longrightarrow> length (ks ! q) = n \<and> length (phs ! q) = n \<and> length (pers ! q) = n"
    by (auto simp: shape3_def has_shape_def)
  show ?thesis unfolding T write_term_Inr using l rows by auto
qed

lemma label_term_Inr:
  assumes sh: "shape3 r n T" and step: "label_term ext fa idx c T = Inr T'"
  shows "case k_attr fa c of
           None \<Rightarrow> T' = T
         | Some kq \<Rightarrow> idx < r \<and> c < n \<and>
             (\<exists>phq per. phase_attr fa c = Some phq \<and> periodicity_attr fa c = Some per \<and>
                T' = write3 idx c (value_in_unit ext kq ENERGY_UNIT,
                       value_in_unit ext phq ANGLE_UNIT, of_int per) T)"
proof -
  obtain ks phs pers where T: "T = (ks, phs, pers)" by (cases T)
  from sh T have l: "length ks = r" "length phs = r" "length pers = r"
    and rows: "\<And>q. q < r \<Longrightarrow> length (ks ! q) = n \<and> length (phs ! q) = n \<and> length (pers ! q) = n"
    by (auto simp: shape3_def has_shape_def)
  show ?thesis
  proof (cases "k_attr fa c")
    case None
    with step T show ?thesis by (simp add: label_term_def)
  next
    case (Some kq)
    with step T have "idx < r \<and> c < n"
      using l rows [of idx]
      by (auto simp: label_term_def tensor_set_def split: sum.splits option.splits if_splits)
    moreover from Some step T have "\<exists>phq per. phase_attr fa c = Some phq \<and> periodicity_attr fa c = Some per \<and>
                T' = write3 idx c (value_in_unit ext kq ENERGY_UNIT,
                       value_in_unit ext phq ANGLE_UNIT, of_int per) T"
      by (auto simp: label_term_def tensor_set_def write3_def split: sum.splits option.splits if_splits)
    ultimately show ?thesis using Some by simp
  qed
qed

lemma label_term_shape:
  assumes "shape3 r n T" "label_term ext fa idx c T = Inr T'"
  shows "shape3 r n T'"
  using label_term_Inr [OF assms] assms(1)
  by (auto split: option.splits intro: shape3_write3)

lemma label_term_cell:
  assumes sh: "shape3 r n T" and step: "label_term ext fa idx c T = Inr T'"
  shows "(p \<noteq> idx \<or> c2 \<noteq> c \<longrightarrow> cell T' p c2 = cell T p c2) \<and>
         (case k_attr fa c of
            None \<Rightarrow> cell T' idx c = cell T idx c
          | Some kq \<Rightarrow> \<exists>phq per. phase_attr fa c = Some phq \<and> periodicity_attr fa c = Some per \<and>
              cell T' idx c = (value_in_unit ext kq ENERGY_UNIT, value_in_unit ext phq ANGLE_UNIT,
                               of_int per))"
  using label_term_Inr [OF sh step]
  by (auto split: option.splits simp: cell_write3_shape [OF sh])

lemma label_inner:
  assumes sh: "shape3 r n T"
  shows "for_loop (label_term ext fa idx) [0..<L] T = Inr T' \<Longrightarrow>
     shape3 r n T' \<and>
     (\<forall>p c. p \<noteq> idx \<or> L \<le> c \<longrightarrow> cell T' p c = cell T p c) \<and>
     (\<forall>c < L. case k_attr fa c of
         None \<Rightarrow> cell T' idx c = cell T idx c
       | Some kq \<Rightarrow> \<exists>phq per. phase_attr fa c = Some phq \<and> periodicity_attr fa c = Some per \<and>
           cell T' idx c = (value_in_unit ext kq ENERGY_UNIT, value_in_unit ext phq ANGLE_UNIT,
                            of_int per))"
proof (induction L arbitrary: T')
  case 0
  then show ?case using sh by simp
next
  case (Suc L)
  from Suc.prems obtain T1 where mid: "for_loop (label_term ext fa idx) [0..<L] T = Inr T1"
    and step: "label_term ext fa idx L T1 = Inr T'"
    by (auto simp: for_loop_snoc_Inr)
  from Suc.IH [OF mid] have sh1: "shape3 r n T1"
    and frame1: "\<And>p c. p \<noteq> idx \<or> L \<le> c \<Longrightarrow> cell T1 p c = cell T p c"
    and done1: "\<And>c. c < L \<Longrightarrow> (case k_attr fa c of
         None \<Rightarrow> cell T1 idx c = cell T idx c
       | Some kq \<Rightarrow> \<exists>phq per. phase_attr fa c = Some phq \<and> periodicity_attr fa c = Some per \<and>
           cell T1 idx c = (value_in_unit ext kq ENERGY_UNIT, value_in_unit ext phq ANGLE_UNIT,
                            of_int per))"
    by auto
  note here = label_term_cell [OF sh1 step]
  have "shape3 r n T'" using sh1 step by (rule label_term_shape)
  moreover have "cell T' p c = cell T p c" if "p \<noteq> idx \<or> Suc L \<le> c" for p c
  proof -
    from that have "p \<noteq> idx \<or> c \<noteq> L" by auto
    with here [of p c] have "cell T' p c = cell T1 p c" by simp
    also from that have "cell T1 p c = cell T p c" by (intro frame1) auto
    finally show ?thesis .
  qed
  moreover have "case k_attr fa c of
         None \<Rightarrow> cell T' idx c = cell T idx c
       | Some kq \<Rightarrow> \<exists>phq per. phase_attr fa c = Some phq \<and> periodicity_attr fa c = Some per \<and>
           cell T' idx c = (value_in_unit ext kq ENERGY_UNIT, value_in_unit ext phq ANGLE_UNIT,
                            of_int per)" if "c < Suc L" for c
  proof (cases "c = L")
    case True
    with here [of idx L] frame1 [of idx L] show ?thesis by (auto split: option.splits)
  next
    case False
    with that have "c < L" by simp
    from False here [of idx c] have "cell T' idx c = cell T1 idx c" by simp
    with done1 [OF \<open>c < L\<close>] show ?thesis by (auto split: option.splits)
  qed
  ultimately show ?case by blast
qed

lemma label_row_cells:
  assumes sh: "shape3 r n T" and step: "label_row ext force rows idx T = Inr T'"
  shows "shape3 r n T' \<and> (\<forall>p c. p \<noteq> idx \<longrightarrow> cell T' p c = cell T p c) \<and>
         (\<forall>c. label_cell ext (force (rows ! idx)) c (cell T idx c) (cell T' idx c))"
proof (cases "force (rows ! idx)")
  case None
  with step sh show ?thesis by (simp add: label_row_def label_cell_def)
next
  case (Some fa)
  with step have "for_loop (label_term ext fa idx) [0..<length (periodicity fa)] T = Inr T'"
    by (simp add: label_row_def)
  from label_inner [OF sh this] Some show ?thesis
    by (auto simp: label_cell_def split: option.splits)
qed

lemma label_outer:
  assumes sh: "shape3 r n T"
  shows "for_loop (label_row ext force rows) [0..<m] T = Inr T' \<Longrightarrow>
     shape3 r n T' \<and>
     (\<forall>p c. m \<le> p \<longrightarrow> cell T' p c = cell T p c) \<and>
     (\<forall>p < m. \<forall>c. label_cell ext (force (rows ! p)) c (cell T p c) (cell T' p c))"
proof (induction m arbitrary: T')
  case 0
  then show ?case using sh by simp
next
  case (Suc m)
  from Suc.prems obtain T1 where mid: "for_loop (label_row ext force rows) [0..<m] T = Inr T1"
    and step: "label_row ext force rows m T1 = Inr T'"
    by (auto simp: for_loop_snoc_Inr)
  from Suc.IH [OF mid] have sh1: "shape3 r n T1"
    and frame1: "\<And>p c. m \<le> p \<Longrightarrow> cell T1 p c = cell T p c"
    and done1: "\<And>p c. p < m \<Longrightarrow> label_cell ext (force (rows ! p)) c (cell T p c) (cell T1 p c)"
    by auto
  from label_row_cells [OF sh1 step] have sh': "shape3 r n T'"
    and frame': "\<And>p c. p \<noteq> m \<Longrightarrow> cell T' p c = cell T1 p c"
    and here: "\<And>c. label_cell ext (force (rows ! m)) c (cell T1 m c) (cell T' m c)"
    by auto
  have "cell T' p c = cell T p c" if "Suc m \<le> p" for p c
    using that frame' [of p c] frame1 [of p c] by simp
  moreover have "label_cell ext (force (rows ! p)) c (cell T p c) (cell T' p c)" if "p < Suc m" for p c
  proof (cases "p = m")
    case True
    with here [of c] frame1 [of m c] show ?thesis by simp
  next
    case False
    with that have "p < m" by simp
    with done1 [of p c] frame' [of p c] False show ?thesis by simp
  qed
  ultimately show ?case using sh' by blast
qed

lemma label_torsions_cells:
  assumes "label_torsions ext force rows n = Inr T"
  shows "shape3 (length rows) n T \<and>
         (\<forall>p < length rows. \<forall>c < n. label_cell ext (force (rows ! p)) c (0, 0, 0) (cell T p c))"
proof -
  let ?Z = "(zeros (length rows) n, zeros (length rows) n, zeros (length rows) n)"
  from assms have run: "for_loop (label_row ext force rows) [0..<length rows] ?Z = Inr T"
    by (simp add: label_torsions_def)
  from label_outer [OF shape3_zeros run] have sh: "shape3 (length rows) n T"
    and cells: "\<And>p c. p < length rows \<Longrightarrow> label_cell ext (force (rows ! p)) c (cell ?Z p c) (cell T p c)"
    by auto
  have "label_cell ext (force (rows ! p)) c (0, 0, 0) (cell T p c)" if "p < length rows" "c < n" for p c
    using cells [OF that(1), of c] cell_zeros [OF that] by simp
  with sh show ?thesis by blast
qed

section \<open>Lemmas on the GAFF parametrization\<close>

lemma parametrize_gaff_frame:
  "parametrize_gaff ext self g n = Inr g' \<Longrightarrow> gaff_frame g g'"
  "parametrize_gaff ext self g n = Inl (e, g') \<Longrightarrow> gaff_frame g g'"
  unfolding parametrize_gaff_def
  by (auto split: sum.splits prod.splits dest: gaff_loop_frame gaff_loop_error_frame)

lemma bond_body_assign:
  "bond_body ext lk =
     (\<lambda>x. assign_both lk ((\<lambda>(i, j, eq, k). [i, j]) x) (rev ((\<lambda>(i, j, eq, k). [i, j]) x))
            ((\<lambda>(i, j, eq, k). value_in_unit ext eq DISTANCE_UNIT) x)
            ((\<lambda>(i, j, eq, k). value_in_unit ext k FORCE_CONSTANT_UNIT) x))"
  by (auto simp: bond_body_def fun_eq_iff)

lemma gaff_force_bond_Inr:
  assumes "gaff_force ext bl al tlk n (HarmonicBondForce bonds) (g1, T1) = Inr (g2, T2)"
  shows "length bonds * 2 = number_of_nodes g1 N2 \<and> T2 = T1 \<and>
         (\<exists>eqs ks. for_loop (bond_body ext bl) bonds
                      (zeros (length bonds * 2) 1, zeros (length bonds * 2) 1) = Inr (eqs, ks) \<and>
                    eq_ref (nodes g2 N2) = Some eqs \<and> k_ref (nodes g2 N2) = Some ks)"
  using assms
  by (cases T1) (auto simp: gaff_force_def split: if_splits sum.splits prod.splits)

lemma gaff_force_keeps_n2:
  assumes "gaff_force ext bl al tlk n f (g1, T1) = Inr (g2, T2)" and "\<forall>bonds. f \<noteq> HarmonicBondForce bonds"
  shows "nodes g2 N2 = nodes g1 N2"
  using assms
  by (cases f; cases T1; cases T2) (auto simp: gaff_force_def split: if_splits sum.splits prod.splits)

lemma gaff_loop_keeps_n2:
  assumes run: "for_loop (gaff_force ext bl al tlk n) fs (g1, T1) = Inr (g2, T2)"
    and none: "\<forall>bonds. HarmonicBondForce bonds \<notin> set fs"
  shows "nodes g2 N2 = nodes g1 N2"
proof -
  have "(\<lambda>(gx, Tx). nodes gx N2 = nodes g1 N2) (g2, T2)"
  proof (rule for_loop_invariant [OF run])
    show "(\<lambda>(gx, Tx). nodes gx N2 = nodes g1 N2) (g1, T1)" by simp
  next
    fix f t t'
    assume f: "f \<in> set fs" and t: "(\<lambda>(gx, Tx). nodes gx N2 = nodes g1 N2) t"
      and step: "gaff_force ext bl al tlk n f t = Inr t'"
    from f none have "\<forall>bonds. f \<noteq> HarmonicBondForce bonds" by auto
    with t step show "(\<lambda>(gx, Tx). nodes gx N2 = nodes g1 N2) t'"
      by (cases t; cases t') (auto dest: gaff_force_keeps_n2)
  qed
  then show ?thesis by simp
qed

lemma gaff_loop_last_bond:
  assumes run: "for_loop (gaff_force ext bl al tlk n) (pre @ HarmonicBondForce bonds # post) (g0, T0)
                  = Inr (g', T')"
    and none: "\<forall>bs. HarmonicBondForce bs \<notin> set post"
  shows "length bonds * 2 = number_of_nodes g0 N2 \<and>
         (\<exists>eqs ks. for_loop (bond_body ext bl) bonds
                      (zeros (length bonds * 2) 1, zeros (length bonds * 2) 1) = Inr (eqs, ks) \<and>
                    eq_ref (nodes g' N2) = Some eqs \<and> k_ref (nodes g' N2) = Some ks)"
proof -
  from run obtain g1 T1 g2 T2 where
    pre: "for_loop (gaff_force ext bl al tlk n) pre (g0, T0) = Inr (g1, T1)"
    and here: "gaff_force ext bl al tlk n (HarmonicBondForce bonds) (g1, T1) = Inr (g2, T2)"
    and post: "for_loop (gaff_force ext bl al tlk n) post (g2, T2) = Inr (g', T')"
    by (auto simp: for_loop_append split: sum.splits)
  from gaff_loop_frame [OF pre] have n: "number_of_nodes g1 N2 = number_of_nodes g0 N2"
    by (rule gaff_frame_number_of_nodes)
  from gaff_loop_keeps_n2 [OF post none] have same: "nodes g' N2 = nodes g2 N2" .
  from gaff_force_bond_Inr [OF here] obtain eqs ks where
    len: "length bonds * 2 = number_of_nodes g1 N2"
    and loop: "for_loop (bond_body ext bl) bonds
                 (zeros (length bonds * 2) 1, zeros (length bonds * 2) 1) = Inr (eqs, ks)"
    and res: "eq_ref (nodes g2 N2) = Some eqs" "k_ref (nodes g2 N2) = Some ks"
    by blast
  from len n have "length bonds * 2 = number_of_nodes g0 N2" by simp
  moreover from res same have "eq_ref (nodes g' N2) = Some eqs" "k_ref (nodes g' N2) = Some ks"
    by simp_all
  ultimately show ?thesis using loop by blast
qed

lemma gaff_loop_bond_each:
  assumes run: "for_loop (gaff_force ext bl al tlk n) fs (g0, T0) = Inr (g', T')"
    and f: "HarmonicBondForce bonds \<in> set fs" and x: "x \<in> set bonds"
  shows "\<exists>T T'. bond_body ext bl x T = Inr T'"
proof -
  from for_loop_each [OF run f] obtain S S' where
    "gaff_force ext bl al tlk n (HarmonicBondForce bonds) S = Inr S'" by blast
  then obtain g1 T1 g2 T2 where
    "gaff_force ext bl al tlk n (HarmonicBondForce bonds) (g1, T1) = Inr (g2, T2)"
    by (cases S; cases S') auto
  from gaff_force_bond_Inr [OF this] obtain eqs ks where
    "for_loop (bond_body ext bl) bonds
       (zeros (length bonds * 2) 1, zeros (length bonds * 2) 1) = Inr (eqs, ks)"
    by blast
  from for_loop_each [OF this x] show ?thesis .
qed

lemma gaff_bonds_symmetric:
  assumes ok: "parametrize_gaff ext self g n = Inr g'"
    and f: "HarmonicBondForce bonds \<in> set (create_system ext (forcefield self) (mol g))"
    and b: "(i, j, eq, k) \<in> set bonds"
  shows "\<exists>p q eqs ks. lookup_table (idxs (nodes g N2)) [i, j] = Some p \<and>
           lookup_table (idxs (nodes g N2)) [j, i] = Some q \<and>
           eq_ref (nodes g' N2) = Some eqs \<and> k_ref (nodes g' N2) = Some ks \<and>
           p < length eqs \<and> q < length eqs \<and> p < length ks \<and> q < length ks \<and>
           eqs ! p = eqs ! q \<and> ks ! p = ks ! q"
proof -
  let ?rows = "idxs (nodes g N2)"
  let ?bl = "lookup_table ?rows"
  let ?sys = "create_system ext (forcefield self) (mol g)"
  let ?F = "gaff_force ext ?bl (lookup_table (idxs (nodes g N3))) (lookup_table (idxs (nodes g N4))) n"
  from ok obtain T' T0 where run: "for_loop ?F ?sys (g, T0) = Inr (g', T')"
    unfolding parametrize_gaff_def by (auto split: sum.splits)
  from gaff_loop_bond_each [OF run f b] obtain T T1 where "bond_body ext ?bl (i, j, eq, k) T = Inr T1"
    by blast
  then obtain p q where p: "?bl [i, j] = Some p" and q: "?bl [j, i] = Some q"
    by (cases T) (auto simp: bond_body_def assign_both_Inr)
  from f have "\<exists>f \<in> set ?sys. \<exists>bs. f = HarmonicBondForce bs" by blast
  from split_list_last_prop [OF this] obtain pre last post where
    split: "?sys = pre @ last # post" and "\<exists>bs. last = HarmonicBondForce bs"
    and none: "\<forall>f \<in> set post. \<not> (\<exists>bs. f = HarmonicBondForce bs)"
    by blast
  then obtain bs where last: "last = HarmonicBondForce bs" by blast
  from none have none': "\<forall>bs. HarmonicBondForce bs \<notin> set post" by blast
  from run split last have "for_loop ?F (pre @ HarmonicBondForce bs # post) (g, T0) = Inr (g', T')"
    by simp
  from gaff_loop_last_bond [OF this none'] obtain eqs ks where
    len: "length bs * 2 = number_of_nodes g N2"
    and loop: "for_loop (bond_body ext ?bl) bs (zeros (length bs * 2) 1, zeros (length bs * 2) 1) = Inr (eqs, ks)"
    and res: "eq_ref (nodes g' N2) = Some eqs" "k_ref (nodes g' N2) = Some ks"
    by blast
  from len have len': "length bs * 2 = length ?rows" by (simp add: number_of_nodes_def)
  from loop have "symmetric_refs ?rows (eqs, ks)"
    unfolding bond_body_assign len' by (rule refs_loop_values [THEN conjunct1])
  moreover have "rev [i, j] = [j, i]" by simp
  ultimately have "eqs ! p = eqs ! q \<and> ks ! p = ks ! q"
    and "length eqs = length ?rows" "length ks = length ?rows"
    using p q unfolding symmetric_refs_def by (metis (mono_tags, lifting) case_prod_conv)+
  moreover from lookup_table_Some [OF p] lookup_table_Some [OF q]
  have "p < length ?rows" "q < length ?rows" by auto
  ultimately show ?thesis using p q res by auto
qed
lemma gaff_bonds_values:
  assumes ok: "parametrize_gaff ext self g n = Inr g'"
    and split: "create_system ext (forcefield self) (mol g) = pre @ HarmonicBondForce bonds # post"
    and none: "\<forall>bs. HarmonicBondForce bs \<notin> set post"
    and b: "(i, j, eq, k) \<in> set bonds"
  shows "\<exists>p eqs ks i' j' eq' k'. lookup_table (idxs (nodes g N2)) [i, j] = Some p \<and>
           eq_ref (nodes g' N2) = Some eqs \<and> k_ref (nodes g' N2) = Some ks \<and>
           (i', j', eq', k') \<in> set bonds \<and> (i' = i \<and> j' = j \<or> i' = j \<and> j' = i) \<and>
           eqs ! p = [value_in_unit ext eq' DISTANCE_UNIT] \<and>
           ks ! p = [value_in_unit ext k' FORCE_CONSTANT_UNIT]"
proof -
  let ?rows = "idxs (nodes g N2)"
  let ?bl = "lookup_table ?rows"
  let ?F = "gaff_force ext ?bl (lookup_table (idxs (nodes g N3))) (lookup_table (idxs (nodes g N4))) n"
  from ok split obtain T' T0 where
    run: "for_loop ?F (pre @ HarmonicBondForce bonds # post) (g, T0) = Inr (g', T')"
    unfolding parametrize_gaff_def by (auto split: sum.splits)
  from gaff_loop_last_bond [OF run none] obtain eqs ks where
    len: "length bonds * 2 = number_of_nodes g N2"
    and loop: "for_loop (bond_body ext ?bl) bonds
                 (zeros (length bonds * 2) 1, zeros (length bonds * 2) 1) = Inr (eqs, ks)"
    and res: "eq_ref (nodes g' N2) = Some eqs" "k_ref (nodes g' N2) = Some ks"
    by blast
  from len have len': "length bonds * 2 = length ?rows" by (simp add: number_of_nodes_def)
  from loop have loop': "for_loop
     (\<lambda>x. assign_both ?bl ((\<lambda>(i, j, eq, k). [i, j]) x) (rev ((\<lambda>(i, j, eq, k). [i, j]) x))
            ((\<lambda>(i, j, eq, k). value_in_unit ext eq DISTANCE_UNIT) x)
            ((\<lambda>(i, j, eq, k). value_in_unit ext k FORCE_CONSTANT_UNIT) x))
     bonds (zeros (length ?rows) 1, zeros (length ?rows) 1) = Inr (eqs, ks)"
    unfolding bond_body_assign len' .
  from refs_loop_both [OF loop' b] obtain p x' where
    p: "?bl [i, j] = Some p" and x': "x' \<in> set bonds"
    and same: "(\<lambda>(i, j, eq, k). [i, j]) x' = [i, j] \<or> (\<lambda>(i, j, eq, k). [i, j]) x' = rev [i, j]"
    and v: "eqs ! p = [(\<lambda>(i, j, eq, k). value_in_unit ext eq DISTANCE_UNIT) x']"
      "ks ! p = [(\<lambda>(i, j, eq, k). value_in_unit ext k FORCE_CONSTANT_UNIT) x']"
    by auto
  obtain i' j' eq' k' where x'_def: "x' = (i', j', eq', k')" by (cases x')
  from same x'_def have "i' = i \<and> j' = j \<or> i' = j \<and> j' = i" by auto
  with p res x' v x'_def show ?thesis
    by (intro exI [of _ p] exI [of _ eqs] exI [of _ ks] exI [of _ i'] exI [of _ j']
          exI [of _ eq'] exI [of _ k']) simp
qed


lemma angle_body_assign:
  "angle_body ext lk =
     (\<lambda>x. assign_both lk ((\<lambda>(i, j, l, eq, k). [i, j, l]) x) (rev ((\<lambda>(i, j, l, eq, k). [i, j, l]) x))
            ((\<lambda>(i, j, l, eq, k). value_in_unit ext eq ANGLE_UNIT) x)
            ((\<lambda>(i, j, l, eq, k). value_in_unit ext k ANGLE_FORCE_CONSTANT_UNIT) x))"
  by (auto simp: angle_body_def fun_eq_iff)

lemma gaff_force_angle_Inr:
  assumes "gaff_force ext bl al tlk n (HarmonicAngleForce angles) (g1, T1) = Inr (g2, T2)"
  shows "length angles * 2 = number_of_nodes g1 N3 \<and> T2 = T1 \<and>
         (\<exists>eqs ks. for_loop (angle_body ext al) angles
                      (zeros (length angles * 2) 1, zeros (length angles * 2) 1) = Inr (eqs, ks) \<and>
                    eq_ref (nodes g2 N3) = Some eqs \<and> k_ref (nodes g2 N3) = Some ks)"
  using assms
  by (cases T1) (auto simp: gaff_force_def split: if_splits sum.splits prod.splits)

lemma gaff_force_keeps_n3:
  assumes "gaff_force ext bl al tlk n f (g1, T1) = Inr (g2, T2)" and "\<forall>angles. f \<noteq> HarmonicAngleForce angles"
  shows "nodes g2 N3 = nodes g1 N3"
  using assms
  by (cases f; cases T1; cases T2) (auto simp: gaff_force_def split: if_splits sum.splits prod.splits)

lemma gaff_loop_keeps_n3:
  assumes run: "for_loop (gaff_force ext bl al tlk n) fs (g1, T1) = Inr (g2, T2)"
    and none: "\<forall>angles. HarmonicAngleForce angles \<notin> set fs"
  shows "nodes g2 N3 = nodes g1 N3"
proof -
  have "(\<lambda>(gx, Tx). nodes gx N3 = nodes g1 N3) (g2, T2)"
  proof (rule for_loop_invariant [OF run])
    show "(\<lambda>(gx, Tx). nodes gx N3 = nodes g1 N3) (g1, T1)" by simp
  next
    fix f t t'
    assume f: "f \<in> set fs" and t: "(\<lambda>(gx, Tx). nodes gx N3 = nodes g1 N3) t"
      and step: "gaff_force ext bl al tlk n f t = Inr t'"
    from f none have "\<forall>angles. f \<noteq> HarmonicAngleForce angles" by auto
    with t step show "(\<lambda>(gx, Tx). nodes gx N3 = nodes g1 N3) t'"
      by (cases t; cases t') (auto dest: gaff_force_keeps_n3)
  qed
  then show ?thesis by simp
qed

lemma gaff_loop_last_angle:
  assumes run: "for_loop (gaff_force ext bl al tlk n) (pre @ HarmonicAngleForce angles # post) (g0, T0)
                  = Inr (g', T')"
    and none: "\<forall>bs. HarmonicAngleForce bs \<notin> set post"
  shows "length angles * 2 = number_of_nodes g0 N3 \<and>
         (\<exists>eqs ks. for_loop (angle_body ext al) angles
                      (zeros (length angles * 2) 1, zeros (length angles * 2) 1) = Inr (eqs, ks) \<and>
                    eq_ref (nodes g' N3) = Some eqs \<and> k_ref (nodes g' N3) = Some ks)"
proof -
  from run obtain g1 T1 g2 T2 where
    pre: "for_loop (gaff_force ext bl al tlk n) pre (g0, T0) = Inr (g1, T1)"
    and here: "gaff_force ext bl al tlk n (HarmonicAngleForce angles) (g1, T1) = Inr (g2, T2)"
    and post: "for_loop (gaff_force ext bl al tlk n) post (g2, T2) = Inr (g', T')"
    by (auto simp: for_loop_append split: sum.splits)
  from gaff_loop_frame [OF pre] have n: "number_of_nodes g1 N3 = number_of_nodes g0 N3"
    by (rule gaff_frame_number_of_nodes)
  from gaff_loop_keeps_n3 [OF post none] have same: "nodes g' N3 = nodes g2 N3" .
  from gaff_force_angle_Inr [OF here] obtain eqs ks where
    len: "length angles * 2 = number_of_nodes g1 N3"
    and loop: "for_loop (angle_body ext al) angles
                 (zeros (length angles * 2) 1, zeros (length angles * 2) 1) = Inr (eqs, ks)"
    and res: "eq_ref (nodes g2 N3) = Some eqs" "k_ref (nodes g2 N3) = Some ks"
    by blast
  from len n have "length angles * 2 = number_of_nodes g0 N3" by simp
  moreover from res same have "eq_ref (nodes g' N3) = Some eqs" "k_ref (nodes g' N3) = Some ks"
    by simp_all
  ultimately show ?thesis using loop by blast
qed

lemma gaff_loop_angle_each:
  assumes run: "for_loop (gaff_force ext bl al tlk n) fs (g0, T0) = Inr (g', T')"
    and f: "HarmonicAngleForce angles \<in> set fs" and x: "x \<in> set angles"
  shows "\<exists>T T'. angle_body ext al x T = Inr T'"
proof -
  from for_loop_each [OF run f] obtain S S' where
    "gaff_force ext bl al tlk n (HarmonicAngleForce angles) S = Inr S'" by blast
  then obtain g1 T1 g2 T2 where
    "gaff_force ext bl al tlk n (HarmonicAngleForce angles) (g1, T1) = Inr (g2, T2)"
    by (cases S; cases S') auto
  from gaff_force_angle_Inr [OF this] obtain eqs ks where
    "for_loop (angle_body ext al) angles
       (zeros (length angles * 2) 1, zeros (length angles * 2) 1) = Inr (eqs, ks)"
    by blast
  from for_loop_each [OF this x] show ?thesis .
qed

lemma gaff_angles_symmetric:
  assumes ok: "parametrize_gaff ext self g n = Inr g'"
    and f: "HarmonicAngleForce angles \<in> set (create_system ext (forcefield self) (mol g))"
    and b: "(i, j, l, eq, k) \<in> set angles"
  shows "\<exists>p q eqs ks. lookup_table (idxs (nodes g N3)) [i, j, l] = Some p \<and>
           lookup_table (idxs (nodes g N3)) [l, j, i] = Some q \<and>
           eq_ref (nodes g' N3) = Some eqs \<and> k_ref (nodes g' N3) = Some ks \<and>
           p < length eqs \<and> q < length eqs \<and> p < length ks \<and> q < length ks \<and>
           eqs ! p = eqs ! q \<and> ks ! p = ks ! q"
proof -
  let ?rows = "idxs (nodes g N3)"
  let ?bl = "lookup_table ?rows"
  let ?sys = "create_system ext (forcefield self) (mol g)"
  let ?F = "gaff_force ext (lookup_table (idxs (nodes g N2))) ?bl (lookup_table (idxs (nodes g N4))) n"
  from ok obtain T' T0 where run: "for_loop ?F ?sys (g, T0) = Inr (g', T')"
    unfolding parametrize_gaff_def by (auto split: sum.splits)
  from gaff_loop_angle_each [OF run f b] obtain T T1 where "angle_body ext ?bl (i, j, l, eq, k) T = Inr T1"
    by blast
  then obtain p q where p: "?bl [i, j, l] = Some p" and q: "?bl [l, j, i] = Some q"
    by (cases T) (auto simp: angle_body_def assign_both_Inr)
  from f have "\<exists>f \<in> set ?sys. \<exists>bs. f = HarmonicAngleForce bs" by blast
  from split_list_last_prop [OF this] obtain pre last post where
    split: "?sys = pre @ last # post" and "\<exists>bs. last = HarmonicAngleForce bs"
    and none: "\<forall>f \<in> set post. \<not> (\<exists>bs. f = HarmonicAngleForce bs)"
    by blast
  then obtain bs where last: "last = HarmonicAngleForce bs" by blast
  from none have none': "\<forall>bs. HarmonicAngleForce bs \<notin> set post" by blast
  from run split last have "for_loop ?F (pre @ HarmonicAngleForce bs # post) (g, T0) = Inr (g', T')"
    by simp
  from gaff_loop_last_angle [OF this none'] obtain eqs ks where
    len: "length bs * 2 = number_of_nodes g N3"
    and loop: "for_loop (angle_body ext ?bl) bs (zeros (length bs * 2) 1, zeros (length bs * 2) 1) = Inr (eqs, ks)"
    and res: "eq_ref (nodes g' N3) = Some eqs" "k_ref (nodes g' N3) = Some ks"
    by blast
  from len have len': "length bs * 2 = length ?rows" by (simp add: number_of_nodes_def)
  from loop have "symmetric_refs ?rows (eqs, ks)"
    unfolding angle_body_assign len' by (rule refs_loop_values [THEN conjunct1])
  moreover have "rev [i, j, l] = [l, j, i]" by simp
  ultimately have "eqs ! p = eqs ! q \<and> ks ! p = ks ! q"
    and "length eqs = length ?rows" "length ks = length ?rows"
    using p q unfolding symmetric_refs_def by (metis (mono_tags, lifting) case_prod_conv)+
  moreover from lookup_table_Some [OF p] lookup_table_Some [OF q]
  have "p < length ?rows" "q < length ?rows" by auto
  ultimately show ?thesis using p q res by auto
qed
lemma gaff_angles_values:
  assumes ok: "parametrize_gaff ext self g n = Inr g'"
    and split: "create_system ext (forcefield self) (mol g) = pre @ HarmonicAngleForce angles # post"
    and none: "\<forall>bs. HarmonicAngleForce bs \<notin> set post"
    and b: "(i, j, l, eq, k) \<in> set angles"
  shows "\<exists>p eqs ks i' j' l' eq' k'. lookup_table (idxs (nodes g N3)) [i, j, l] = Some p \<and>
           eq_ref (nodes g' N3) = Some eqs \<and> k_ref (nodes g' N3) = Some ks \<and>
           (i', j', l', eq', k') \<in> set angles \<and> (i' = i \<and> j' = j \<and> l' = l \<or> i' = l \<and> j' = j \<and> l' = i) \<and>
           eqs ! p = [value_in_unit ext eq' ANGLE_UNIT] \<and>
           ks ! p = [value_in_unit ext k' ANGLE_FORCE_CONSTANT_UNIT]"
proof -
  let ?rows = "idxs (nodes g N3)"
  let ?bl = "lookup_table ?rows"
  let ?F = "gaff_force ext (lookup_table (idxs (nodes g N2))) ?bl (lookup_table (idxs (nodes g N4))) n"
  from ok split obtain T' T0 where
    run: "for_loop ?F (pre @ HarmonicAngleForce angles # post) (g, T0) = Inr (g', T')"
    unfolding parametrize_gaff_def by (auto split: sum.splits)
  from gaff_loop_last_angle [OF run none] obtain eqs ks where
    len: "length angles * 2 = number_of_nodes g N3"
    and loop: "for_loop (angle_body ext ?bl) angles
                 (zeros (length angles * 2) 1, zeros (length angles * 2) 1) = Inr (eqs, ks)"
    and res: "eq_ref (nodes g' N3) = Some eqs" "k_ref (nodes g' N3) = Some ks"
    by blast
  from len have len': "length angles * 2 = length ?rows" by (simp add: number_of_nodes_def)
  from loop have loop': "for_loop
     (\<lambda>x. assign_both ?bl ((\<lambda>(i, j, l, eq, k). [i, j, l]) x) (rev ((\<lambda>(i, j, l, eq, k). [i, j, l]) x))
            ((\<lambda>(i, j, l, eq, k). value_in_unit ext eq ANGLE_UNIT) x)
            ((\<lambda>(i, j, l, eq, k). value_in_unit ext k ANGLE_FORCE_CONSTANT_UNIT) x))
     angles (zeros (length ?rows) 1, zeros (length ?rows) 1) = Inr (eqs, ks)"
    unfolding angle_body_assign len' .
  from refs_loop_both [OF loop' b] obtain p x' where
    p: "?bl [i, j, l] = Some p" and x': "x' \<in> set angles"
    and same: "(\<lambda>(i, j, l, eq, k). [i, j, l]) x' = [i, j, l] \<or> (\<lambda>(i, j, l, eq, k). [i, j, l]) x' = rev [i, j, l]"
    and v: "eqs ! p = [(\<lambda>(i, j, l, eq, k). value_in_unit ext eq ANGLE_UNIT) x']"
      "ks ! p = [(\<lambda>(i, j, l, eq, k). value_in_unit ext k ANGLE_FORCE_CONSTANT_UNIT) x']"
    by auto
  obtain i' j' l' eq' k' where x'_def: "x' = (i', j', l', eq', k')" by (cases x')
  from same x'_def have "i' = i \<and> j' = j \<and> l' = l \<or> i' = l \<and> j' = j \<and> l' = i" by auto
  with p res x' v x'_def show ?thesis
    by (intro exI [of _ p] exI [of _ eqs] exI [of _ ks] exI [of _ i'] exI [of _ j'] exI [of _ l']
          exI [of _ eq'] exI [of _ k']) simp
qed

lemma torsion_body_create_system:
  "torsion_body (ext\<lparr>create_system := cs\<rparr>) tlk n = torsion_body ext tlk n"
proof -
  have same: "value_in_unit (ext\<lparr>create_system := cs\<rparr>) = value_in_unit ext" by simp
  show ?thesis unfolding torsion_body_def same by (rule refl)
qed

lemma gaff_force_blocks_create_system:
  "gaff_force_blocks (ext\<lparr>create_system := cs\<rparr>) bl al tlk n f S = gaff_force_blocks ext bl al tlk n f S"
  by (cases f; cases S) (simp_all add: bond_body_def angle_body_def torsion_body_create_system)

lemma gaff_force_create_system:
  "gaff_force (ext\<lparr>create_system := cs\<rparr>) bl al tlk n = gaff_force ext bl al tlk n"
  by (simp add: fun_eq_iff gaff_force_def gaff_force_blocks_create_system)

lemma gaff_force_blocks_assertion:
  assumes "gaff_force_blocks ext bl al tlk n f (g1, T1) = Inl (AssertionError, g2)"
  shows "(\<exists>bonds. f = HarmonicBondForce bonds \<and> length bonds * 2 \<noteq> number_of_nodes g1 N2) \<or>
         (\<exists>angles. f = HarmonicAngleForce angles \<and> length angles * 2 \<noteq> number_of_nodes g1 N3)"
proof (cases f)
  case (HarmonicBondForce bonds)
  show ?thesis
  proof (rule ccontr)
    assume "\<not> ?thesis"
    with HarmonicBondForce have "length bonds * 2 = number_of_nodes g1 N2" by simp
    with assms HarmonicBondForce obtain T where
      "for_loop (bond_body ext bl) bonds (zeros (length bonds * 2) 1, zeros (length bonds * 2) 1)
         = Inl (AssertionError, T)"
      by (auto split: sum.splits prod.splits)
    from for_loop_error [OF this] show False
      by (auto simp: bond_body_def dest: assign_both_error)
  qed
next
  case (HarmonicAngleForce angles)
  show ?thesis
  proof (rule ccontr)
    assume "\<not> ?thesis"
    with HarmonicAngleForce have "length angles * 2 = number_of_nodes g1 N3" by simp
    with assms HarmonicAngleForce obtain T where
      "for_loop (angle_body ext al) angles (zeros (length angles * 2) 1, zeros (length angles * 2) 1)
         = Inl (AssertionError, T)"
      by (auto split: sum.splits prod.splits)
    from for_loop_error [OF this] show False
      by (auto simp: angle_body_def dest: assign_both_error)
  qed
next
  case (PeriodicTorsionForce torsions)
  with assms have "for_loop (torsion_body ext tlk n) torsions T1 = Inl AssertionError"
    by (auto split: sum.splits)
  from for_loop_error [OF this] show ?thesis by (auto dest: torsion_body_error)
next
  case OtherForce
  with assms show ?thesis by simp
qed

lemma gaff_force_violation:
  assumes "(\<exists>bonds. f = HarmonicBondForce bonds \<and> length bonds * 2 \<noteq> number_of_nodes g1 N2) \<or>
           (\<exists>angles. f = HarmonicAngleForce angles \<and> length angles * 2 \<noteq> number_of_nodes g1 N3)"
  shows "gaff_force ext bl al tlk n f (g1, T1) = Inl (AssertionError, g1)"
  using assms by (auto simp: gaff_force_def)

lemma gaff_assertion_unreachable:
  assumes bonds: "\<forall>bonds. HarmonicBondForce bonds \<in> set (create_system ext (forcefield self) (mol g))
                    \<longrightarrow> length bonds * 2 = number_of_nodes g N2"
    and angles: "\<forall>angles. HarmonicAngleForce angles \<in> set (create_system ext (forcefield self) (mol g))
                    \<longrightarrow> length angles * 2 = number_of_nodes g N3"
  shows "parametrize_gaff ext self g n \<noteq> Inl (AssertionError, g')"
proof
  let ?F = "gaff_force ext (lookup_table (idxs (nodes g N2))) (lookup_table (idxs (nodes g N3)))
              (lookup_table (idxs (nodes g N4))) n"
  let ?sys = "create_system ext (forcefield self) (mol g)"
  assume "parametrize_gaff ext self g n = Inl (AssertionError, g')"
  then obtain T0 where run: "for_loop ?F ?sys (g, T0) = Inl (AssertionError, g')"
    unfolding parametrize_gaff_def by (auto split: sum.splits)
  have "\<exists>f t. f \<in> set ?sys \<and> (\<lambda>(gx, Tx). gaff_frame g gx) t \<and> ?F f t = Inl (AssertionError, g')"
  proof (rule for_loop_error_invariant [OF run])
    show "(\<lambda>(gx, Tx). gaff_frame g gx) (g, T0)" by (simp add: gaff_frame_refl)
  next
    fix f t t'
    assume "(\<lambda>(gx, Tx). gaff_frame g gx) t" "?F f t = Inr t'"
    then show "(\<lambda>(gx, Tx). gaff_frame g gx) t'"
      by (cases t; cases t') (auto dest: gaff_force_frame(1) gaff_frame_trans)
  qed
  then obtain f g1 T1 where f: "f \<in> set ?sys" and frame: "gaff_frame g g1"
    and step: "?F f (g1, T1) = Inl (AssertionError, g')"
    by auto
  from step have "gaff_force_blocks ext (lookup_table (idxs (nodes g N2)))
      (lookup_table (idxs (nodes g N3))) (lookup_table (idxs (nodes g N4))) n f (g1, T1)
      = Inl (AssertionError, g')"
    by (auto simp: gaff_force_def split: sum.splits)
  from gaff_force_blocks_assertion [OF this] gaff_frame_number_of_nodes [OF frame] f bonds angles
  show False by auto
qed

lemma gaff_violation_fails:
  assumes f: "f \<in> set (create_system ext (forcefield self) (mol g))"
    and bad: "(\<exists>bonds. f = HarmonicBondForce bonds \<and> length bonds * 2 \<noteq> number_of_nodes g N2) \<or>
              (\<exists>angles. f = HarmonicAngleForce angles \<and> length angles * 2 \<noteq> number_of_nodes g N3)"
  shows "\<exists>e g'. parametrize_gaff ext self g n = Inl (e, g')"
proof -
  let ?F = "gaff_force ext (lookup_table (idxs (nodes g N2))) (lookup_table (idxs (nodes g N3)))
              (lookup_table (idxs (nodes g N4))) n"
  let ?T0 = "(zeros (number_of_nodes g N4) n, zeros (number_of_nodes g N4) n,
              zeros (number_of_nodes g N4) n)"
  from f obtain pre post where split: "create_system ext (forcefield self) (mol g) = pre @ f # post"
    by (auto dest: split_list)
  show ?thesis
  proof (cases "for_loop ?F pre (g, ?T0)")
    case (Inl err)
    then show ?thesis
      unfolding parametrize_gaff_def split by (cases err) (simp add: for_loop_append)
  next
    case (Inr S)
    obtain g1 T1 where S: "S = (g1, T1)" by (cases S)
    from gaff_loop_frame Inr S have "gaff_frame g g1" by blast
    from gaff_frame_number_of_nodes [OF this] bad
    have "?F f (g1, T1) = Inl (AssertionError, g1)" by (intro gaff_force_violation) simp
    with Inr S show ?thesis
      unfolding parametrize_gaff_def split by (simp add: for_loop_append)
  qed
qed

lemma gaff_violation_assertion:
  assumes split: "create_system ext (forcefield self) (mol g) = pre @ f # post"
    and bad: "(\<exists>bonds. f = HarmonicBondForce bonds \<and> length bonds * 2 \<noteq> number_of_nodes g N2) \<or>
              (\<exists>angles. f = HarmonicAngleForce angles \<and> length angles * 2 \<noteq> number_of_nodes g N3)"
    and before: "parametrize_gaff (ext\<lparr>create_system := \<lambda>name m. pre\<rparr>) self g n = Inr g1"
  shows "parametrize_gaff ext self g n = Inl (AssertionError, g1)"
proof -
  let ?F = "gaff_force ext (lookup_table (idxs (nodes g N2))) (lookup_table (idxs (nodes g N3)))
              (lookup_table (idxs (nodes g N4))) n"
  let ?T0 = "(zeros (number_of_nodes g N4) n, zeros (number_of_nodes g N4) n,
              zeros (number_of_nodes g N4) n)"
  from before obtain T1 where pre: "for_loop ?F pre (g, ?T0) = Inr (g1, T1)"
    unfolding parametrize_gaff_def by (auto simp: gaff_force_create_system split: sum.splits)
  from gaff_loop_frame [OF pre] have "gaff_frame g g1" .
  from gaff_frame_number_of_nodes [OF this] bad
  have "?F f (g1, T1) = Inl (AssertionError, g1)" by (intro gaff_force_violation) simp
  with pre show ?thesis
    unfolding parametrize_gaff_def split by (simp add: for_loop_append)
qed

lemma first_zero_column_Inr:
  "first_zero_column t p cs = Inr r \<Longrightarrow>
     (case r of
        None \<Rightarrow> \<forall>c \<in> set cs. t ! p ! c \<noteq> 0
      | Some c \<Rightarrow> \<exists>i < length cs. cs ! i = c \<and> t ! p ! c = 0 \<and> (\<forall>j < i. t ! p ! (cs ! j) \<noteq> 0))"
proof (induction cs)
  case Nil
  then show ?case by auto
next
  case (Cons a cs)
  from Cons.prems obtain v where v: "tensor_get t p a = Inr v" by (auto split: sum.splits)
  then have va: "v = t ! p ! a" by (simp add: tensor_get_Inr)
  show ?case
  proof (cases "v = 0")
    case True
    with Cons.prems v have "r = Some a" by simp
    with True va show ?thesis by auto
  next
    case False
    with Cons.prems v have rest: "first_zero_column t p cs = Inr r" by simp
    show ?thesis
    proof (cases r)
      case None
      with Cons.IH [OF rest] False va show ?thesis by simp
    next
      case (Some c)
      with Cons.IH [OF rest] obtain i where i: "i < length cs" "cs ! i = c" "t ! p ! c = 0"
        "\<forall>j < i. t ! p ! (cs ! j) \<noteq> 0"
        by auto
      have "\<forall>j < Suc i. t ! p ! ((a # cs) ! j) \<noteq> 0"
        using i(4) False va by (auto simp: nth_Cons split: nat.splits)
      with i Some show ?thesis by (auto intro!: exI [of _ "Suc i"])
    qed
  qed
qed

lemma first_zero_column_upt:
  assumes "first_zero_column t p [0..<n] = Inr r"
  shows "case r of
           None \<Rightarrow> \<forall>c < n. t ! p ! c \<noteq> 0
         | Some c \<Rightarrow> c < n \<and> t ! p ! c = 0 \<and> (\<forall>c' < c. t ! p ! c' \<noteq> 0)"
proof (cases r)
  case None
  with first_zero_column_Inr [OF assms] show ?thesis by simp
next
  case (Some c)
  with first_zero_column_Inr [OF assms] obtain i where "i < n" "[0..<n] ! i = c" "t ! p ! c = 0"
    "\<forall>j < i. t ! p ! ([0..<n] ! j) \<noteq> 0"
    by auto
  then have "c < n \<and> t ! p ! c = 0 \<and> (\<forall>c' < c. t ! p ! c' \<noteq> 0)" by auto
  with Some show ?thesis by simp
qed

lemma torsion_body_Inr:
  assumes sh: "shape3 r n T" and step: "torsion_body ext lk n t T = Inr T'"
  shows "case lk (torsion_key t) of
           None \<Rightarrow> T' = T
         | Some p \<Rightarrow>
             if \<forall>c < n. fst (cell T p c) \<noteq> 0 then T' = T
             else \<exists>c p'. c < n \<and> fst (cell T p c) = 0 \<and> (\<forall>c' < c. fst (cell T p c') \<noteq> 0) \<and>
                    lk (rev (torsion_key t)) = Some p' \<and> p < r \<and> p' < r \<and>
                    T' = write3 p' c (torsion_value ext t) (write3 p c (torsion_value ext t) T)"
proof -
  obtain idx0 idx1 idx2 idx3 per phase k where t: "t = (idx0, idx1, idx2, idx3, per, phase, k)"
    by (cases t)
  obtain ks phs pers where T: "T = (ks, phs, pers)" by (cases T)
  have key: "torsion_key t = [idx0, idx1, idx2, idx3]" "rev (torsion_key t) = [idx3, idx2, idx1, idx0]"
    and val: "torsion_value ext t = (0.5 * value_in_unit ext k ENERGY_UNIT,
                value_in_unit ext phase ANGLE_UNIT, of_int per)"
    by (simp_all add: t torsion_key_def torsion_value_def)
  have kc: "fst (cell T p c) = ks ! p ! c" for p c by (simp add: T cell_def)
  show ?thesis
  proof (cases "lk [idx0, idx1, idx2, idx3]")
    case None
    with step have "T' = T" by (simp add: t torsion_body_def)
    with None show ?thesis by (simp add: key)
  next
    case (Some p)
    note lkp = Some
    from lkp step obtain fz where fz: "first_zero_column ks p [0..<n] = Inr fz"
      by (auto simp: t T torsion_body_def split: sum.splits)
    note fzc = first_zero_column_upt [OF fz]
    show ?thesis
    proof (cases fz)
      case None
      with step fz lkp have "T' = T" by (simp add: t T torsion_body_def)
      moreover from fzc None have "\<forall>c < n. fst (cell T p c) \<noteq> 0" by (simp add: kc)
      ultimately show ?thesis using lkp by (simp add: key)
    next
      case (Some c)
      note fzs = Some
      from fzc fzs have c: "c < n" "ks ! p ! c = 0" "\<forall>c' < c. ks ! p ! c' \<noteq> 0" by auto
      from step fz lkp fzs obtain T1 p' where
        w1: "write_term p c (0.5 * value_in_unit ext k ENERGY_UNIT)
               (value_in_unit ext phase ANGLE_UNIT) (of_int per) T = Inr T1"
        and p': "lk [idx3, idx2, idx1, idx0] = Some p'"
        and w2: "write_term p' c (0.5 * value_in_unit ext k ENERGY_UNIT)
               (value_in_unit ext phase ANGLE_UNIT) (of_int per) T1 = Inr T'"
        by (auto simp: t T torsion_body_def split: sum.splits option.splits)
      from w1 have 1: "p < r" "T1 = write3 p c (torsion_value ext t) T"
        by (simp_all add: write_term_shape [OF sh] val)
      from sh 1 have sh1: "shape3 r n T1" by (simp add: shape3_write3)
      from w2 have 2: "p' < r" "T' = write3 p' c (torsion_value ext t) T1"
        by (simp_all add: write_term_shape [OF sh1] val)
      from c have "\<not> (\<forall>c < n. fst (cell T p c) \<noteq> 0)" by (auto simp: kc)
      moreover from c p' 1 2 have "\<exists>c p'. c < n \<and> fst (cell T p c) = 0 \<and>
          (\<forall>c' < c. fst (cell T p c') \<noteq> 0) \<and> lk [idx3, idx2, idx1, idx0] = Some p' \<and> p < r \<and> p' < r \<and>
          T' = write3 p' c (torsion_value ext t) (write3 p c (torsion_value ext t) T)"
        by (auto simp: kc)
      ultimately show ?thesis using lkp by (auto simp: key)
    qed
  qed
qed

lemma torsion_body_shape:
  assumes "shape3 r n T" "torsion_body ext lk n t T = Inr T'"
  shows "shape3 r n T'"
  using torsion_body_Inr [OF assms] assms(1)
  by (auto split: option.splits if_splits intro: shape3_write3)

lemma torsion_loop_shape:
  assumes "for_loop (torsion_body ext lk n) ts T = Inr T'" "shape3 r n T"
  shows "shape3 r n T'"
  using assms(1,2) by (rule for_loop_invariant) (rule torsion_body_shape)

lemma same_torsion_rev: "same_torsion (rev q) = same_torsion q"
  by (auto simp: same_torsion_def fun_eq_iff)

lemma same_torsion_key: "same_torsion (torsion_key t) t"
  by (simp add: same_torsion_def)

subsection \<open>The torsion loop\<close>

text \<open>A row holds zeros from the column on that equals the number of terms processed for
  its torsion.\<close>

lemma zero_beyond_step:
  assumes sh: "shape3 (length rows) n T"
    and inv: "\<forall>p < length rows. \<forall>c < n.
                length (filter (same_torsion (rows ! p)) seen) \<le> c \<longrightarrow> cell T p c = (0, 0, 0)"
    and step: "torsion_body ext (lookup_table rows) n t T = Inr T'"
  shows "\<forall>p < length rows. \<forall>c < n.
           length (filter (same_torsion (rows ! p)) (seen @ [t])) \<le> c \<longrightarrow> cell T' p c = (0, 0, 0)"
proof (intro allI impI)
  fix p2 c2
  assume p2: "p2 < length rows" and c2: "c2 < n"
    and cnt: "length (filter (same_torsion (rows ! p2)) (seen @ [t])) \<le> c2"
  then have cnt0: "length (filter (same_torsion (rows ! p2)) seen) \<le> c2" by simp
  with inv p2 c2 have old: "cell T p2 c2 = (0, 0, 0)" by simp
  note char = torsion_body_Inr [OF sh step]
  show "cell T' p2 c2 = (0, 0, 0)"
  proof (cases "lookup_table rows (torsion_key t)")
    case None
    with char old show ?thesis by simp
  next
    case (Some p)
    show ?thesis
    proof (cases "\<forall>c < n. fst (cell T p c) \<noteq> 0")
      case True
      with char Some old show ?thesis by simp
    next
      case False
      with char Some obtain c p' where c: "c < n" "fst (cell T p c) = 0"
        "\<forall>c' < c. fst (cell T p c') \<noteq> 0"
        and p': "lookup_table rows (rev (torsion_key t)) = Some p'"
        and r: "p < length rows" "p' < length rows"
        and T': "T' = write3 p' c (torsion_value ext t) (write3 p c (torsion_value ext t) T)"
        by auto
      let ?m = "length (filter (same_torsion (torsion_key t)) seen)"
      from lookup_table_Some [OF Some] have rp: "rows ! p = torsion_key t" by simp
      from lookup_table_Some [OF p'] have rp': "rows ! p' = rev (torsion_key t)" by simp
      have cm: "c \<le> ?m"
      proof (rule ccontr)
        assume "\<not> c \<le> ?m"
        then have m: "?m < c" by simp
        with c(1) have "?m < n" by simp
        with inv r(1) rp have "cell T p ?m = (0, 0, 0)" by simp
        moreover from c(3) m have "fst (cell T p ?m) \<noteq> 0" by blast
        ultimately show False by simp
      qed
      have not_p: "\<not> (p2 = p \<and> c2 = c)"
      proof
        assume "p2 = p \<and> c2 = c"
        with cnt rp have "Suc ?m \<le> c" by (simp add: same_torsion_key)
        with cm show False by simp
      qed
      have not_p': "\<not> (p2 = p' \<and> c2 = c)"
      proof
        assume "p2 = p' \<and> c2 = c"
        with cnt rp' have "Suc ?m \<le> c" by (simp add: same_torsion_rev same_torsion_key)
        with cm show False by simp
      qed
      have sh1: "shape3 (length rows) n (write3 p c (torsion_value ext t) T)"
        using sh by (rule shape3_write3)
      from not_p not_p' have "cell T' p2 c2 = cell T p2 c2"
        unfolding T' by (auto simp: cell_write3_shape [OF sh1 r(2) c(1)] cell_write3_shape [OF sh r(1) c(1)])
      with old show ?thesis by simp
    qed
  qed
qed

lemma zero_beyond_loop:
  "for_loop (torsion_body ext (lookup_table rows) n) ts
      (zeros (length rows) n, zeros (length rows) n, zeros (length rows) n) = Inr T \<Longrightarrow>
   shape3 (length rows) n T \<and>
   (\<forall>p < length rows. \<forall>c < n.
      length (filter (same_torsion (rows ! p)) ts) \<le> c \<longrightarrow> cell T p c = (0, 0, 0))"
proof (induction ts arbitrary: T rule: rev_induct)
  case Nil
  then have "T = (zeros (length rows) n, zeros (length rows) n, zeros (length rows) n)" by simp
  then show ?case by (simp add: shape3_zeros cell_zeros)
next
  case (snoc t ts)
  from snoc.prems obtain T1 where
    mid: "for_loop (torsion_body ext (lookup_table rows) n) ts
            (zeros (length rows) n, zeros (length rows) n, zeros (length rows) n) = Inr T1"
    and step: "torsion_body ext (lookup_table rows) n t T1 = Inr T"
    by (auto simp: for_loop_snoc_Inr)
  from snoc.IH [OF mid] have sh: "shape3 (length rows) n T1"
    and inv: "\<forall>p < length rows. \<forall>c < n.
      length (filter (same_torsion (rows ! p)) ts) \<le> c \<longrightarrow> cell T1 p c = (0, 0, 0)"
    by auto
  from torsion_body_shape [OF sh step] zero_beyond_step [OF sh inv step] show ?case by blast
qed

text \<open>A term whose row has room is written, to the row of its key and to the row of the
  reversed key; later terms of other torsions, and later terms of the same torsion when the
  written force constant is not zero, leave it in place.\<close>

lemma torsion_written:
  assumes sh: "shape3 (length rows) n T"
    and inv: "\<forall>p < length rows. \<forall>c < n.
                length (filter (same_torsion (rows ! p)) seen) \<le> c \<longrightarrow> cell T p c = (0, 0, 0)"
    and step: "torsion_body ext (lookup_table rows) n t T = Inr T'"
    and p: "lookup_table rows (torsion_key t) = Some p"
    and room: "length (filter (same_torsion (torsion_key t)) seen) < n"
  shows "\<exists>c p'. c \<le> length (filter (same_torsion (torsion_key t)) seen) \<and> c < n \<and>
           lookup_table rows (rev (torsion_key t)) = Some p' \<and> p < length rows \<and> p' < length rows \<and>
           cell T' p c = torsion_value ext t \<and> cell T' p' c = torsion_value ext t"
proof -
  let ?m = "length (filter (same_torsion (torsion_key t)) seen)"
  from lookup_table_Some [OF p] have rp: "rows ! p = torsion_key t" and pr: "p < length rows" by auto
  from inv pr room rp have "cell T p ?m = (0, 0, 0)" by simp
  with room have "\<not> (\<forall>c < n. fst (cell T p c) \<noteq> 0)" by auto
  with torsion_body_Inr [OF sh step] p obtain c p' where c: "c < n" "fst (cell T p c) = 0"
        "\<forall>c' < c. fst (cell T p c') \<noteq> 0"
        and p': "lookup_table rows (rev (torsion_key t)) = Some p'"
        and r: "p < length rows" "p' < length rows"
        and T': "T' = write3 p' c (torsion_value ext t) (write3 p c (torsion_value ext t) T)"
    by auto
  have cm: "c \<le> ?m"
  proof (rule ccontr)
    assume "\<not> c \<le> ?m"
    then have "?m < c" by simp
    with c(3) have "fst (cell T p ?m) \<noteq> 0" by blast
    with \<open>cell T p ?m = (0, 0, 0)\<close> show False by simp
  qed
  have sh1: "shape3 (length rows) n (write3 p c (torsion_value ext t) T)"
    using sh by (rule shape3_write3)
  have "cell T' p c = torsion_value ext t" "cell T' p' c = torsion_value ext t"
    unfolding T' by (simp_all add: cell_write3_shape [OF sh1 r(2) c(1)] cell_write3_shape [OF sh r(1) c(1)])
  with cm c(1) p' r show ?thesis by blast
qed

lemma torsion_kept_step:
  assumes sh: "shape3 (length rows) n T"
    and here: "cell T p c = v" "cell T p' c = v"
    and p: "lookup_table rows q = Some p" and p': "lookup_table rows (rev q) = Some p'"
    and keeps: "fst v \<noteq> 0 \<or> \<not> same_torsion q t"
    and step: "torsion_body ext (lookup_table rows) n t T = Inr T'"
  shows "cell T' p c = v \<and> cell T' p' c = v"
proof (cases "lookup_table rows (torsion_key t)")
  case None
  with torsion_body_Inr [OF sh step] here show ?thesis by simp
next
  case (Some p2)
  show ?thesis
  proof (cases "\<forall>c < n. fst (cell T p2 c) \<noteq> 0")
    case True
    with torsion_body_Inr [OF sh step] Some here show ?thesis by simp
  next
    case False
    with torsion_body_Inr [OF sh step] Some obtain c2 p2' where c2: "c2 < n" "fst (cell T p2 c2) = 0"
      and p2': "lookup_table rows (rev (torsion_key t)) = Some p2'"
      and r: "p2 < length rows" "p2' < length rows"
      and T': "T' = write3 p2' c2 (torsion_value ext t) (write3 p2 c2 (torsion_value ext t) T)"
      by auto
    have sh1: "shape3 (length rows) n (write3 p2 c2 (torsion_value ext t) T)"
      using sh by (rule shape3_write3)
    have frame: "cell T' x y = cell T x y" if "\<not> (x = p2 \<and> y = c2)" "\<not> (x = p2' \<and> y = c2)" for x y
      using that unfolding T'
      by (auto simp: cell_write3_shape [OF sh1 r(2) c2(1)] cell_write3_shape [OF sh r(1) c2(1)])
    have key_p: "p2 = p \<Longrightarrow> torsion_key t = q" using lookup_table_inj [OF Some] p by simp
    have key_p': "p2 = p' \<Longrightarrow> torsion_key t = rev q" using lookup_table_inj [OF Some] p' by simp
    have rkey_p: "p2' = p \<Longrightarrow> torsion_key t = rev q"
    proof -
      assume "p2' = p"
      with lookup_table_inj [OF p2', of q] p have "rev (torsion_key t) = q" by simp
      then show ?thesis by auto
    qed
    have rkey_p': "p2' = p' \<Longrightarrow> torsion_key t = q"
    proof -
      assume "p2' = p'"
      with lookup_table_inj [OF p2', of "rev q"] p' have "rev (torsion_key t) = rev q" by simp
      then show ?thesis by simp
    qed
    have same: "same_torsion q t \<Longrightarrow> fst v \<noteq> 0" using keeps by blast
    have clash: "False" if "c2 = c" "p2 = p \<or> p2 = p' \<or> p2' = p \<or> p2' = p'"
    proof -
      from that(2) key_p key_p' rkey_p rkey_p' have k: "torsion_key t = q \<or> torsion_key t = rev q"
        by blast
      then have nz: "fst v \<noteq> 0" using same by (simp add: same_torsion_def)
      from k Some p p' have "p2 = p \<or> p2 = p'" by auto
      with c2(2) that(1) here have "fst v = 0" by auto
      with nz show False by simp
    qed
    from clash have "\<not> (p = p2 \<and> c = c2)" "\<not> (p = p2' \<and> c = c2)"
      "\<not> (p' = p2 \<and> c = c2)" "\<not> (p' = p2' \<and> c = c2)"
      by blast+
    with frame [of p c] frame [of p' c] here show ?thesis by simp
  qed
qed

lemma torsion_kept_loop:
  assumes run: "for_loop (torsion_body ext (lookup_table rows) n) ts T = Inr T'"
    and sh: "shape3 (length rows) n T"
    and here: "cell T p c = v" "cell T p' c = v"
    and p: "lookup_table rows q = Some p" and p': "lookup_table rows (rev q) = Some p'"
    and keeps: "fst v \<noteq> 0 \<or> (\<forall>t \<in> set ts. \<not> same_torsion q t)"
  shows "cell T' p c = v \<and> cell T' p' c = v"
proof -
  have "shape3 (length rows) n T' \<and> cell T' p c = v \<and> cell T' p' c = v"
  proof (rule for_loop_invariant [OF run, where P = "\<lambda>T. shape3 (length rows) n T \<and> cell T p c = v \<and> cell T p' c = v"])
    show "shape3 (length rows) n T \<and> cell T p c = v \<and> cell T p' c = v" using sh here by simp
  next
    fix t U U'
    assume t: "t \<in> set ts" and U: "shape3 (length rows) n U \<and> cell U p c = v \<and> cell U p' c = v"
      and step: "torsion_body ext (lookup_table rows) n t U = Inr U'"
    from keeps t have k: "fst v \<noteq> 0 \<or> \<not> same_torsion q t" by blast
    from U torsion_body_shape [OF _ step] torsion_kept_step [OF _ _ _ p p' k step]
    show "shape3 (length rows) n U' \<and> cell U' p c = v \<and> cell U' p' c = v" by blast
  qed
  then show ?thesis by simp
qed

lemma torsion_loop_stored:
  assumes run: "for_loop (torsion_body ext (lookup_table rows) n) (pre @ t # post)
                  (zeros (length rows) n, zeros (length rows) n, zeros (length rows) n) = Inr T"
    and p: "lookup_table rows (torsion_key t) = Some p"
    and room: "length (filter (same_torsion (torsion_key t)) pre) < n"
    and keeps: "fst (torsion_value ext t) \<noteq> 0 \<or> (\<forall>t' \<in> set post. \<not> same_torsion (torsion_key t) t')"
  shows "\<exists>c p'. c \<le> length (filter (same_torsion (torsion_key t)) pre) \<and> c < n \<and>
           lookup_table rows (rev (torsion_key t)) = Some p' \<and> p < length rows \<and> p' < length rows \<and>
           cell T p c = torsion_value ext t \<and> cell T p' c = torsion_value ext t"
proof -
  let ?Z = "(zeros (length rows) n, zeros (length rows) n, zeros (length rows) n)"
  let ?B = "torsion_body ext (lookup_table rows) n"
  from run obtain T1 T2 where pre: "for_loop ?B pre ?Z = Inr T1"
    and step: "?B t T1 = Inr T2" and post: "for_loop ?B post T2 = Inr T"
    by (auto simp: for_loop_append split: sum.splits)
  from zero_beyond_loop [OF pre] have sh1: "shape3 (length rows) n T1"
    and inv: "\<forall>p < length rows. \<forall>c < n.
      length (filter (same_torsion (rows ! p)) pre) \<le> c \<longrightarrow> cell T1 p c = (0, 0, 0)"
    by auto
  from torsion_written [OF sh1 inv step p room] obtain c p' where
    c: "c \<le> length (filter (same_torsion (torsion_key t)) pre)" "c < n"
    and p': "lookup_table rows (rev (torsion_key t)) = Some p'"
    and r: "p < length rows" "p' < length rows"
    and now: "cell T2 p c = torsion_value ext t" "cell T2 p' c = torsion_value ext t"
    by blast
  from torsion_body_shape [OF sh1 step] have sh2: "shape3 (length rows) n T2" .
  from torsion_kept_loop [OF post sh2 now p p' keeps] c p' r show ?thesis by blast
qed

text \<open>The torsion tensors that the loop over the forces threads through are those of the
  loop over all torsion terms of the system, and the last force stores them on n4.\<close>

lemma gaff_force_torsions:
  assumes "gaff_force ext bl al tlk n f (g1, T1) = Inr (g2, T2)"
  shows "for_loop (torsion_body ext tlk n) (all_torsions [f]) T1 = Inr T2"
  using assms
  by (cases f; cases T1; cases T2) (auto simp: gaff_force_def split: if_splits sum.splits prod.splits)

lemma all_torsions_append: "all_torsions (xs @ ys) = all_torsions xs @ all_torsions ys"
  by (induction xs rule: all_torsions.induct) simp_all

lemma gaff_loop_torsions:
  "for_loop (gaff_force ext bl al tlk n) fs (g0, T0) = Inr (g', T') \<Longrightarrow>
     for_loop (torsion_body ext tlk n) (all_torsions fs) T0 = Inr T'"
proof (induction fs arbitrary: g' T' rule: rev_induct)
  case Nil
  then show ?case by simp
next
  case (snoc f fs)
  from snoc.prems obtain g1 T1 where mid: "for_loop (gaff_force ext bl al tlk n) fs (g0, T0) = Inr (g1, T1)"
    and step: "gaff_force ext bl al tlk n f (g1, T1) = Inr (g', T')"
    by (auto simp: for_loop_snoc_Inr)
  from snoc.IH [OF mid] gaff_force_torsions [OF step] show ?case
    by (simp add: all_torsions_append for_loop_append)
qed

lemma gaff_force_n4:
  assumes "gaff_force ext bl al tlk n f (g1, T1) = Inr (g2, T2)"
  shows "k_ref (nodes g2 N4) = Some (fst T2) \<and> phases_ref (nodes g2 N4) = Some (fst (snd T2)) \<and>
         periodicity_ref (nodes g2 N4) = Some (snd (snd T2))"
  using assms
  by (cases T2) (auto simp: gaff_force_def split: sum.splits)

lemma gaff_loop_n4:
  assumes run: "for_loop (gaff_force ext bl al tlk n) fs (g0, T0) = Inr (g', T')" and "fs \<noteq> []"
  shows "k_ref (nodes g' N4) = Some (fst T') \<and> phases_ref (nodes g' N4) = Some (fst (snd T')) \<and>
         periodicity_ref (nodes g' N4) = Some (snd (snd T'))"
proof -
  from \<open>fs \<noteq> []\<close> obtain fs' f where "fs = fs' @ [f]" by (cases fs rule: rev_cases) auto
  with run obtain g1 T1 where "gaff_force ext bl al tlk n f (g1, T1) = Inr (g', T')"
    by (auto simp: for_loop_snoc_Inr)
  then show ?thesis by (rule gaff_force_n4)
qed

lemma parametrize_gaff_torsions:
  assumes ok: "parametrize_gaff ext self g n = Inr g'"
    and sys: "create_system ext (forcefield self) (mol g) \<noteq> []"
  shows "\<exists>T. for_loop (torsion_body ext (lookup_table (idxs (nodes g N4))) n)
                (all_torsions (create_system ext (forcefield self) (mol g)))
                (zeros (number_of_nodes g N4) n, zeros (number_of_nodes g N4) n,
                 zeros (number_of_nodes g N4) n) = Inr T \<and>
             k_ref (nodes g' N4) = Some (fst T) \<and> phases_ref (nodes g' N4) = Some (fst (snd T)) \<and>
             periodicity_ref (nodes g' N4) = Some (snd (snd T))"
proof -
  from ok obtain T where run: "for_loop
     (gaff_force ext (lookup_table (idxs (nodes g N2))) (lookup_table (idxs (nodes g N3)))
        (lookup_table (idxs (nodes g N4))) n)
     (create_system ext (forcefield self) (mol g))
     (g, zeros (number_of_nodes g N4) n, zeros (number_of_nodes g N4) n,
         zeros (number_of_nodes g N4) n) = Inr (g', T)"
    unfolding parametrize_gaff_def by (auto split: sum.splits)
  from gaff_loop_torsions [OF run] gaff_loop_n4 [OF run sys] show ?thesis by blast
qed

lemma torsion_cells_step:
  assumes sh: "shape3 (length rows) n T"
    and inv: "\<forall>p < length rows. \<forall>c < n. cell T p c = (0, 0, 0) \<or>
                (\<exists>t \<in> S. same_torsion (rows ! p) t \<and> cell T p c = torsion_value ext t)"
    and step: "torsion_body ext (lookup_table rows) n t T = Inr T'"
    and t: "t \<in> S"
  shows "\<forall>p < length rows. \<forall>c < n. cell T' p c = (0, 0, 0) \<or>
           (\<exists>t \<in> S. same_torsion (rows ! p) t \<and> cell T' p c = torsion_value ext t)"
proof (cases "lookup_table rows (torsion_key t)")
  case None
  with torsion_body_Inr [OF sh step] inv show ?thesis by simp
next
  case (Some p2)
  show ?thesis
  proof (cases "\<forall>c < n. fst (cell T p2 c) \<noteq> 0")
    case True
    with torsion_body_Inr [OF sh step] Some inv show ?thesis by simp
  next
    case False
    with torsion_body_Inr [OF sh step] Some obtain c2 p2' where c2: "c2 < n"
      and p2': "lookup_table rows (rev (torsion_key t)) = Some p2'"
      and r: "p2 < length rows" "p2' < length rows"
      and T': "T' = write3 p2' c2 (torsion_value ext t) (write3 p2 c2 (torsion_value ext t) T)"
      by auto
    have sh1: "shape3 (length rows) n (write3 p2 c2 (torsion_value ext t) T)"
      using sh by (rule shape3_write3)
    have cells: "cell T' x y = (if (x = p2 \<or> x = p2') \<and> y = c2 then torsion_value ext t else cell T x y)"
      for x y
      unfolding T'
      by (auto simp: cell_write3_shape [OF sh1 r(2) c2(1)] cell_write3_shape [OF sh r(1) c2(1)])
    from lookup_table_Some [OF Some] have k2: "rows ! p2 = torsion_key t" by simp
    from lookup_table_Some [OF p2'] have k2': "rows ! p2' = rev (torsion_key t)" by simp
    have same: "same_torsion (rows ! p2) t" "same_torsion (rows ! p2') t"
      by (simp_all add: k2 k2' same_torsion_def)
    show ?thesis
    proof (intro allI impI)
      fix p c assume pc: "p < length rows" "c < n"
      show "cell T' p c = (0, 0, 0) \<or>
           (\<exists>t \<in> S. same_torsion (rows ! p) t \<and> cell T' p c = torsion_value ext t)"
      proof (cases "(p = p2 \<or> p = p2') \<and> c = c2")
        case True
        with cells [of p c] same t show ?thesis by auto
      next
        case False
        with cells [of p c] have "cell T' p c = cell T p c" by simp
        with inv pc show ?thesis by simp
      qed
    qed
  qed
qed

lemma torsion_cells_loop:
  assumes run: "for_loop (torsion_body ext (lookup_table rows) n) ts
      (zeros (length rows) n, zeros (length rows) n, zeros (length rows) n) = Inr T"
  shows "\<forall>p < length rows. \<forall>c < n. cell T p c = (0, 0, 0) \<or>
           (\<exists>t \<in> set ts. same_torsion (rows ! p) t \<and> cell T p c = torsion_value ext t)"
proof -
  let ?P = "\<lambda>T. shape3 (length rows) n T \<and> (\<forall>p < length rows. \<forall>c < n. cell T p c = (0, 0, 0) \<or>
           (\<exists>t \<in> set ts. same_torsion (rows ! p) t \<and> cell T p c = torsion_value ext t))"
  have "?P T"
  proof (rule for_loop_invariant [OF run, where P = ?P])
    show "?P (zeros (length rows) n, zeros (length rows) n, zeros (length rows) n)"
      by (simp add: shape3_zeros cell_zeros)
  next
    fix t U U'
    assume t: "t \<in> set ts" and U: "?P U"
      and step: "torsion_body ext (lookup_table rows) n t U = Inr U'"
    from U have sh: "shape3 (length rows) n U" by simp
    from U have inv: "\<forall>p < length rows. \<forall>c < n. cell U p c = (0, 0, 0) \<or>
           (\<exists>t \<in> set ts. same_torsion (rows ! p) t \<and> cell U p c = torsion_value ext t)" by simp
    from torsion_body_shape [OF sh step] torsion_cells_step [OF sh inv step t]
    show "?P U'" by simp
  qed
  then show ?thesis by simp
qed

lemma torsion_step_cells:
  assumes sh: "shape3 (length rows) n T"
    and step: "torsion_body ext (lookup_table rows) n t T = Inr T'"
  shows "case lookup_table rows (torsion_key t) of
           None \<Rightarrow> T' = T
         | Some p \<Rightarrow>
             if \<forall>c < n. fst (cell T p c) \<noteq> 0 then T' = T
             else \<exists>c p'. c < n \<and> fst (cell T p c) = 0 \<and> (\<forall>c' < c. fst (cell T p c') \<noteq> 0) \<and>
                    lookup_table rows (rev (torsion_key t)) = Some p' \<and>
                    shape3 (length rows) n T' \<and>
                    (\<forall>x y. cell T' x y =
                       (if (x = p \<or> x = p') \<and> y = c then torsion_value ext t else cell T x y))"
proof (cases "lookup_table rows (torsion_key t)")
  case None
  with torsion_body_Inr [OF sh step] show ?thesis by simp
next
  case (Some p2)
  show ?thesis
  proof (cases "\<forall>c < n. fst (cell T p2 c) \<noteq> 0")
    case True
    with torsion_body_Inr [OF sh step] Some show ?thesis by simp
  next
    case False
    with torsion_body_Inr [OF sh step] Some obtain c2 p2' where c2: "c2 < n"
      "fst (cell T p2 c2) = 0" "\<forall>c' < c2. fst (cell T p2 c') \<noteq> 0"
      and p2': "lookup_table rows (rev (torsion_key t)) = Some p2'"
      and r: "p2 < length rows" "p2' < length rows"
      and T': "T' = write3 p2' c2 (torsion_value ext t) (write3 p2 c2 (torsion_value ext t) T)"
      by auto
    have sh1: "shape3 (length rows) n (write3 p2 c2 (torsion_value ext t) T)"
      using sh by (rule shape3_write3)
    have cells: "cell T' x y = (if (x = p2 \<or> x = p2') \<and> y = c2 then torsion_value ext t else cell T x y)"
      for x y
      unfolding T'
      by (auto simp: cell_write3_shape [OF sh1 r(2) c2(1)] cell_write3_shape [OF sh r(1) c2(1)])
    have "\<exists>c p'. c < n \<and> fst (cell T p2 c) = 0 \<and> (\<forall>c' < c. fst (cell T p2 c') \<noteq> 0) \<and>
                    lookup_table rows (rev (torsion_key t)) = Some p' \<and>
                    shape3 (length rows) n T' \<and>
                    (\<forall>x y. cell T' x y =
                       (if (x = p2 \<or> x = p') \<and> y = c then torsion_value ext t else cell T x y))"
      using c2 p2' torsion_body_shape [OF sh step] cells
      by (intro exI [of _ c2] exI [of _ p2']) simp
    with Some False show ?thesis by (simp only: option.case if_False)
  qed
qed

text \<open>With force constants that are not zero, the terms of a torsion fill the columns of
  its two rows from the left, in their order.\<close>

lemma row_terms_rev: "row_terms rows (rev q) ts = row_terms rows q ts"
  by (simp add: row_terms_def same_torsion_rev)

lemma row_terms_snoc:
  "row_terms rows q (ts @ [t]) =
     (if same_torsion q t \<and> torsion_key t \<in> set rows then row_terms rows q ts @ [t]
      else row_terms rows q ts)"
  by (simp add: row_terms_def)

lemma row_terms_subset: "set (row_terms rows q ts) \<subseteq> set ts"
  by (auto simp: row_terms_def)

lemma row_filled_step:
  assumes sh: "shape3 (length rows) n T"
    and inv: "row_filled ext rows n ts T"
    and nz: "\<forall>t' \<in> set ts. fst (torsion_value ext t') \<noteq> 0"
    and step: "torsion_body ext (lookup_table rows) n t T = Inr T'"
  shows "row_filled ext rows n (ts @ [t]) T'"
proof (cases "lookup_table rows (torsion_key t)")
  case None
  then have "torsion_key t \<notin> set rows" using lookup_table_dom [of rows "torsion_key t"] by simp
  then have "row_terms rows q (ts @ [t]) = row_terms rows q ts" for q
    by (simp add: row_terms_snoc)
  moreover from torsion_body_Inr [OF sh step] None have "T' = T" by simp
  ultimately show ?thesis using inv by (simp add: row_filled_def)
next
  case (Some p2)
  from lookup_table_Some [OF Some] have p2: "p2 < length rows" "rows ! p2 = torsion_key t" by simp_all
  have own: "lookup_table rows (rows ! p2) = Some p2" using Some p2 by simp
  have inrows: "torsion_key t \<in> set rows" using Some lookup_table_dom [of rows "torsion_key t"] by simp
  let ?ms = "row_terms rows (torsion_key t) ts"
  have row2: "cell T p2 c = (if c < length ?ms then torsion_value ext (?ms ! c) else (0, 0, 0))"
    if "c < n" for c
    using inv p2 own that unfolding row_filled_def by auto
  have nonzero: "fst (cell T p2 c) \<noteq> 0" if "c < n" "c < length ?ms" for c
  proof -
    from that(2) have "?ms ! c \<in> set ts" using row_terms_subset [of rows "torsion_key t" ts] nth_mem by blast
    with nz row2 [OF that(1)] that(2) show ?thesis by simp
  qed
  have zero: "fst (cell T p2 c) = 0" if "c < n" "length ?ms \<le> c" for c
    using row2 [OF that(1)] that(2) by simp
  have matches: "p = p2 \<or> rows ! p = rev (torsion_key t)"
    if "p < length rows" "lookup_table rows (rows ! p) = Some p" "same_torsion (rows ! p) t" for p
  proof -
    from that(3) have "torsion_key t = rows ! p \<or> torsion_key t = rev (rows ! p)"
      by (simp add: same_torsion_def)
    then show ?thesis
    proof
      assume "torsion_key t = rows ! p"
      with that(2) Some show ?thesis by simp
    next
      assume "torsion_key t = rev (rows ! p)"
      then have "rows ! p = rev (torsion_key t)" by simp
      then show ?thesis by simp
    qed
  qed
  have terms_of: "row_terms rows (rows ! p) us = row_terms rows (torsion_key t) us"
    if "p = p2 \<or> rows ! p = rev (torsion_key t)" for p us
    using that p2(2) by (auto simp: row_terms_rev)
  show ?thesis
  proof (cases "\<forall>c < n. fst (cell T p2 c) \<noteq> 0")
    case True
    with torsion_body_Inr [OF sh step] Some have same: "T' = T" by simp
    from True zero have full: "n \<le> length ?ms" by (meson not_le_imp_less order_refl)
    show ?thesis unfolding row_filled_def same
    proof (intro allI impI)
      fix p c assume p: "p < length rows" "lookup_table rows (rows ! p) = Some p" and c: "c < n"
      from inv p c have old: "cell T p c =
           (if c < length (row_terms rows (rows ! p) ts)
            then torsion_value ext (row_terms rows (rows ! p) ts ! c) else (0, 0, 0))"
        unfolding row_filled_def by simp
      show "cell T p c =
           (if c < length (row_terms rows (rows ! p) (ts @ [t]))
            then torsion_value ext (row_terms rows (rows ! p) (ts @ [t]) ! c) else (0, 0, 0))"
      proof (cases "same_torsion (rows ! p) t")
        case False
        then show ?thesis using old by (simp add: row_terms_snoc)
      next
        case True
        from terms_of [OF matches [OF p True]] full c
        have "c < length (row_terms rows (rows ! p) ts)" by simp
        then show ?thesis using old by (simp add: row_terms_snoc nth_append)
      qed
    qed
  next
    case False
    with torsion_body_Inr [OF sh step] Some obtain c2 p2' where c2: "c2 < n"
      "fst (cell T p2 c2) = 0" "\<forall>c' < c2. fst (cell T p2 c') \<noteq> 0"
      and p2': "lookup_table rows (rev (torsion_key t)) = Some p2'"
      and r: "p2 < length rows" "p2' < length rows"
      and T': "T' = write3 p2' c2 (torsion_value ext t) (write3 p2 c2 (torsion_value ext t) T)"
      by auto
    have sh1: "shape3 (length rows) n (write3 p2 c2 (torsion_value ext t) T)"
      using sh by (rule shape3_write3)
    have cells: "cell T' x y = (if (x = p2 \<or> x = p2') \<and> y = c2 then torsion_value ext t else cell T x y)"
      for x y
      unfolding T'
      by (auto simp: cell_write3_shape [OF sh1 r(2) c2(1)] cell_write3_shape [OF sh r(1) c2(1)])
    have col: "c2 = length ?ms"
    proof (rule antisym)
      show "c2 \<le> length ?ms"
      proof (rule ccontr)
        assume "\<not> c2 \<le> length ?ms"
        then have "length ?ms < c2" by simp
        with c2(3) have "fst (cell T p2 (length ?ms)) \<noteq> 0" by simp
        moreover from \<open>length ?ms < c2\<close> c2(1) have "fst (cell T p2 (length ?ms)) = 0"
          by (intro zero) simp_all
        ultimately show False by simp
      qed
      show "length ?ms \<le> c2"
      proof (rule ccontr)
        assume "\<not> length ?ms \<le> c2"
        then have "c2 < length ?ms" by simp
        from nonzero [OF c2(1) this] c2(2) show False by simp
      qed
    qed
    from lookup_table_Some [OF p2'] have k2': "rows ! p2' = rev (torsion_key t)" by simp
    show ?thesis unfolding row_filled_def
    proof (intro allI impI)
      fix p c assume p: "p < length rows" "lookup_table rows (rows ! p) = Some p" and c: "c < n"
      from inv p c have old: "cell T p c =
           (if c < length (row_terms rows (rows ! p) ts)
            then torsion_value ext (row_terms rows (rows ! p) ts ! c) else (0, 0, 0))"
        unfolding row_filled_def by simp
      show "cell T' p c =
           (if c < length (row_terms rows (rows ! p) (ts @ [t]))
            then torsion_value ext (row_terms rows (rows ! p) (ts @ [t]) ! c) else (0, 0, 0))"
      proof (cases "same_torsion (rows ! p) t")
        case False
        have "p \<noteq> p2" using False p2(2) by (auto simp: same_torsion_def)
        moreover have "p \<noteq> p2'" using False k2' by (auto simp: same_torsion_def)
        ultimately have "cell T' p c = cell T p c" using cells [of p c] by simp
        with False old show ?thesis by (simp add: row_terms_snoc)
      next
        case True
        note m = matches [OF p True]
        have pp: "p = p2 \<or> p = p2'"
        proof (rule disjE [OF m])
          assume "p = p2" then show ?thesis by simp
        next
          assume "rows ! p = rev (torsion_key t)"
          with p(2) p2' show ?thesis by simp
        qed
        have len: "length (row_terms rows (rows ! p) ts) = c2"
          using terms_of [OF m, of ts] col by simp
        have new: "row_terms rows (rows ! p) (ts @ [t]) = row_terms rows (rows ! p) ts @ [t]"
          using True inrows by (simp add: row_terms_snoc)
        show ?thesis
        proof (cases "c = c2")
          case True
          with pp cells [of p c] have "cell T' p c = torsion_value ext t" by auto
          then show ?thesis using True len by (simp add: new nth_append)
        next
          case False
          with cells [of p c] have "cell T' p c = cell T p c" by simp
          with old False len show ?thesis by (auto simp: new nth_append)
        qed
      qed
    qed
  qed
qed

lemma row_filled_loop:
  "for_loop (torsion_body ext (lookup_table rows) n) ts
      (zeros (length rows) n, zeros (length rows) n, zeros (length rows) n) = Inr T \<Longrightarrow>
   \<forall>t \<in> set ts. fst (torsion_value ext t) \<noteq> 0 \<Longrightarrow>
   row_filled ext rows n ts T"
proof (induction ts arbitrary: T rule: rev_induct)
  case Nil
  then have "T = (zeros (length rows) n, zeros (length rows) n, zeros (length rows) n)" by simp
  then show ?case by (simp add: row_filled_def row_terms_def cell_zeros)
next
  case (snoc t ts)
  let ?Z = "(zeros (length rows) n, zeros (length rows) n, zeros (length rows) n)"
  from snoc.prems(1) obtain T1 where
    pre: "for_loop (torsion_body ext (lookup_table rows) n) ts ?Z = Inr T1"
    and step: "torsion_body ext (lookup_table rows) n t T1 = Inr T"
    by (auto simp: for_loop_snoc_Inr)
  from snoc.prems(2) have nz: "\<forall>t' \<in> set ts. fst (torsion_value ext t') \<noteq> 0" by simp
  from zero_beyond_loop [OF pre] have sh: "shape3 (length rows) n T1" by simp
  from row_filled_step [OF sh snoc.IH [OF pre nz] nz step] show ?case .
qed

section \<open>Runs on the concrete inputs\<close>

lemmas demo_defs =
  demo_ext_def demo_externals_def demo_system_def demo_labels_def demo_torsion_def
  demo_improper_def demo_graph_def new_nodes_def new_force_field_def gaff_types_once_def

lemmas gaff_defs =
  parametrize_gaff_def gaff_force_def number_of_nodes_def lookup_table_def dict_of_def
  bond_body_def angle_body_def torsion_body_def assign_both_def assign_ref_def zeros_def
  write_term_def tensor_set_def tensor_get_def set_cell_def apply_n4_def update_nodes_def

lemmas smirnoff_defs =
  parametrize_smirnoff_def apply_torsion_def apply_improper_torsion_def label_torsions_def
  label_row_def label_term_def store_torsions_def column_def scale_def number_of_nodes_def
  zeros_def tensor_set_def set_cell_def update_nodes_def

lemma demo_gaff_run:
  "parametrize demo_ext (new_force_field ''gaff-1.81'') demo_graph = Inr demo_gaff_result"
  by (simp add: parametrize_def demo_gaff_result_def gaff_defs demo_defs eval_nat_numeral)

lemma demo_openff_prepared:
  "LegacyForceField demo_ext ''openff-1.2.0''
     = Inr ((new_force_field ''openff-1.2.0'')\<lparr>FF := Some (\<lambda>m. demo_labels)\<rparr>)"
  by (simp add: LegacyForceField_def prepare_forcefield_def prepare_openff_def new_force_field_def
        demo_ext_def demo_externals_def)

lemma demo_smirnoff_run:
  "parametrize demo_ext ((new_force_field ''openff-1.2.0'')\<lparr>FF := Some (\<lambda>m. demo_labels)\<rparr>) demo_graph
     = Inr demo_smirnoff_result"
  by (simp add: parametrize_def demo_smirnoff_result_def demo_proper_tensors_def
        demo_improper_tensors_def smirnoff_defs demo_defs eval_nat_numeral)

lemma demo_gaff_run_6:
  "parametrize_gaff demo_ext (new_force_field ''gaff-1.81'') demo_graph 6 = Inr demo_gaff_result"
  using demo_gaff_run by (simp add: parametrize_def new_force_field_def)

lemma broken_graph_run:
  "parametrize_gaff (demo_externals [] small_system demo_labels []) (new_force_field ''gaff-1.81'')
     broken_graph 6
   = Inl (KeyError, update_nodes broken_graph N2
            (\<lambda>d. d\<lparr>eq_ref := Some [[3 / 2], [0], [0], [0]], k_ref := Some [[200], [0], [0], [0]]\<rparr>))"
  by (simp add: gaff_defs demo_externals_def small_system_def broken_graph_def new_nodes_def
        new_force_field_def eval_nat_numeral)

lemma short_graph_prefix_run:
  "parametrize_gaff
     ((demo_externals [] small_system demo_labels [])
        \<lparr>create_system := \<lambda>name m. [HarmonicBondForce [(0, 1, 0.15, 200), (1, 2, 0.14, 300)]]\<rparr>)
     (new_force_field ''gaff-1.81'') short_graph 6
   = Inr short_after_bonds"
  by (simp add: gaff_defs demo_externals_def short_graph_def short_after_bonds_def new_nodes_def
        new_force_field_def eval_nat_numeral)

lemma demo_smirnoff_run_direct:
  "parametrize_smirnoff demo_ext ((new_force_field ''openff-1.2.0'')\<lparr>FF := Some (\<lambda>m. demo_labels)\<rparr>)
     demo_graph = Inr demo_smirnoff_result"
  using demo_smirnoff_run by (simp add: parametrize_def new_force_field_def)

lemma demo_first_term:
  "for_loop (torsion_body demo_ext (lookup_table (idxs (nodes demo_graph N4))) 6)
     [(0, 1, 2, 3, 3, 0, 0.5)]
     (zeros (number_of_nodes demo_graph N4) 6, zeros (number_of_nodes demo_graph N4) 6,
      zeros (number_of_nodes demo_graph N4) 6)
   = Inr ([[1 / 4, 0, 0, 0, 0, 0], [1 / 4, 0, 0, 0, 0, 0], [0, 0, 0, 0, 0, 0], [0, 0, 0, 0, 0, 0]],
          [[0, 0, 0, 0, 0, 0], [0, 0, 0, 0, 0, 0], [0, 0, 0, 0, 0, 0], [0, 0, 0, 0, 0, 0]],
          [[3, 0, 0, 0, 0, 0], [3, 0, 0, 0, 0, 0], [0, 0, 0, 0, 0, 0], [0, 0, 0, 0, 0, 0]])"
  by (simp add: gaff_defs demo_defs eval_nat_numeral)

lemma demo_table:
  "lookup_table (idxs (nodes demo_graph N4)) [0, 1, 2, 3] = Some 0"
  "lookup_table (idxs (nodes demo_graph N4)) [3, 2, 1, 0] = Some 1"
  "number_of_nodes demo_graph N4 = 4"
  "idxs (nodes demo_graph N4) = [[0, 1, 2, 3], [3, 2, 1, 0], [4, 1, 2, 3], [3, 2, 1, 4]]"
  by (simp_all add: lookup_table_def dict_of_def number_of_nodes_def demo_defs)

lemma overfull_run:
  "parametrize (demo_externals [] overfull_system demo_labels []) (new_force_field ''gaff-1.81'')
     demo_graph = Inr (apply_n4 demo_graph overfull_tensors)"
  by (simp add: parametrize_def overfull_system_def overfull_tensors_def gaff_defs demo_defs
        eval_nat_numeral)

lemma zero_k_run:
  "parametrize (demo_externals [] zero_k_system demo_labels []) (new_force_field ''gaff-1.81'')
     demo_graph = Inr (apply_n4 demo_graph zero_k_tensors)"
  by (simp add: parametrize_def zero_k_system_def zero_k_tensors_def gaff_defs demo_defs
        eval_nat_numeral)

section \<open>The claims\<close>

subsection \<open>Conversion of the argument\<close>

text \<open>
  C10. \<^verbatim>\<open>_convert_to_off\<close> returns the molecule of an espaloma graph, an OpenFF
  molecule as it is, and the conversion of an RDKit molecule or of an object whose type
  name contains "openeye". The result is \<^verbatim>\<open>None\<close>, with no error raised, exactly
  for an object of any other type.
\<close>

theorem convert_to_off_falls_through:
  "convert_to_off ext (EspGraph g) = Some (mol g) \<and>
   convert_to_off ext (OffMolecule m) = Some m \<and>
   convert_to_off ext (RdkitMol r) = Some (from_rdkit ext r) \<and>
   (sublist ''openeye'' type_str \<longrightarrow>
      convert_to_off ext (OtherObject type_str x) = Some (from_openeye ext x)) \<and>
   (convert_to_off ext obj = None \<longleftrightarrow>
      (\<exists>ts y. obj = OtherObject ts y \<and> \<not> sublist ''openeye'' ts))"
  by (simp add: convert_to_off_None) (simp add: contains_sublist)

theorem convert_to_off_falls_through_witness:
  "sublist ''openeye'' ''<class 'openeye.oechem.OEMol'>'' \<and>
   convert_to_off (demo_externals [] [] demo_labels []) (OtherObject ''<class 'openeye.oechem.OEMol'>'' 7)
     = Some 8 \<and>
   convert_to_off (demo_externals [] [] demo_labels []) (OtherObject ''<class 'str'>'' 7) = None"
  using convert_to_off_falls_through
    [of "demo_externals [] [] demo_labels []" demo_graph 0 0 "''<class 'openeye.oechem.OEMol'>''" 7
        "OtherObject ''<class 'str'>'' 7"]
  by (simp add: contains_sublist [symmetric] demo_externals_def)

subsection \<open>Dispatch on the name of the force field\<close>

text \<open>
  C6. \<^verbatim>\<open>parametrize\<close> is \<^verbatim>\<open>_parametrize_smirnoff\<close> when the name contains
  "smirnoff" or "openff", is \<^verbatim>\<open>_parametrize_gaff\<close> (with six phases) when it contains
  neither but contains "gaff", and raises NotImplementedError exactly for the names that
  contain none of the three. The constructor raises NotImplementedError exactly for the
  same names, and \<^verbatim>\<open>typing\<close> exactly for the names without "gaff".
\<close>

theorem parametrize_dispatch:
  "(sublist ''smirnoff'' (forcefield self) \<or> sublist ''openff'' (forcefield self) \<longrightarrow>
      parametrize ext self g = parametrize_smirnoff ext self g) \<and>
   (\<not> sublist ''smirnoff'' (forcefield self) \<and> \<not> sublist ''openff'' (forcefield self) \<and>
    sublist ''gaff'' (forcefield self) \<longrightarrow>
      parametrize ext self g = parametrize_gaff ext self g 6) \<and>
   (\<not> sublist ''smirnoff'' (forcefield self) \<and> \<not> sublist ''openff'' (forcefield self) \<and>
    \<not> sublist ''gaff'' (forcefield self) \<longrightarrow>
      parametrize ext self g = Inl (NotImplementedError, g)) \<and>
   ((\<exists>g'. parametrize ext self g = Inl (NotImplementedError, g')) \<longleftrightarrow>
      \<not> sublist ''gaff'' (forcefield self) \<and> \<not> sublist ''smirnoff'' (forcefield self) \<and>
      \<not> sublist ''openff'' (forcefield self)) \<and>
   (LegacyForceField ext name = Inl NotImplementedError \<longleftrightarrow>
      \<not> sublist ''gaff'' name \<and> \<not> sublist ''smirnoff'' name \<and> \<not> sublist ''openff'' name) \<and>
   ((\<exists>g'. typing ext self g = Inl (NotImplementedError, g')) \<longleftrightarrow>
      \<not> sublist ''gaff'' (forcefield self))"
proof -
  have "parametrize ext self g = parametrize_smirnoff ext self g"
    if "sublist ''smirnoff'' (forcefield self) \<or> sublist ''openff'' (forcefield self)"
    using that by (simp add: parametrize_def contains_sublist)
  moreover have "parametrize ext self g = parametrize_gaff ext self g 6"
    if "\<not> sublist ''smirnoff'' (forcefield self)" "\<not> sublist ''openff'' (forcefield self)"
      "sublist ''gaff'' (forcefield self)"
    using that by (simp add: parametrize_def contains_sublist)
  moreover have "parametrize ext self g = Inl (NotImplementedError, g)"
    if "\<not> sublist ''smirnoff'' (forcefield self)" "\<not> sublist ''openff'' (forcefield self)"
      "\<not> sublist ''gaff'' (forcefield self)"
    using that by (simp add: parametrize_def contains_sublist)
  ultimately show ?thesis
    using parametrize_NotImplemented [of ext self g] LegacyForceField_NotImplemented [of ext name]
      typing_NotImplemented [of ext self g]
    by blast
qed

theorem parametrize_dispatch_witness:
  "parametrize (demo_externals [] demo_system demo_labels []) (new_force_field ''openff-1.2.0'') demo_graph
     = parametrize_smirnoff (demo_externals [] demo_system demo_labels [])
         (new_force_field ''openff-1.2.0'') demo_graph \<and>
   parametrize (demo_externals [] demo_system demo_labels []) (new_force_field ''gaff-1.81'') demo_graph
     = parametrize_gaff (demo_externals [] demo_system demo_labels [])
         (new_force_field ''gaff-1.81'') demo_graph 6 \<and>
   parametrize (demo_externals [] demo_system demo_labels []) (new_force_field ''amber14'') demo_graph
     = Inl (NotImplementedError, demo_graph) \<and>
   LegacyForceField (demo_externals [] demo_system demo_labels []) ''amber14''
     = (Inl NotImplementedError :: error + nat legacy_force_field)"
  using
    parametrize_dispatch [of "new_force_field ''openff-1.2.0''"
      "demo_externals [] demo_system demo_labels []" demo_graph "''amber14''"]
    parametrize_dispatch [of "new_force_field ''gaff-1.81''"
      "demo_externals [] demo_system demo_labels []" demo_graph "''amber14''"]
    parametrize_dispatch [of "new_force_field ''amber14''"
      "demo_externals [] demo_system demo_labels []" demo_graph "''amber14''"]
  by (simp add: contains_sublist [symmetric] new_force_field_def)

subsection \<open>The atom type dictionaries\<close>

text \<open>
  What holds whenever \<^verbatim>\<open>_prepare_gaff\<close> returns: every atom type \<open>t\<close> of the XML file
  that is not one of the six redundant types is a key of \<^verbatim>\<open>str_2_idx\<close>, and
  \<^verbatim>\<open>idx_2_str[str_2_idx[t]] == t\<close> for every such key; each redundant type maps under
  \<^verbatim>\<open>str_2_idx\<close> to the index of its replacement; and a redundant type that the XML
  file lists once is not a value of \<^verbatim>\<open>idx_2_str\<close>.
\<close>

lemma prepare_gaff_dictionaries:
  assumes ok: "prepare_gaff ext self = Inr self'"
  shows "\<exists>s2i i2s. str_2_idx self' = Some s2i \<and> idx_2_str self' = Some i2s \<and>
           (\<forall>t \<in> set (ffxml_atom_types ext (forcefield self)).
              t \<notin> fst ` set REDUNDANT_TYPES \<longrightarrow> (\<exists>i. s2i t = Some i \<and> i2s i = Some t)) \<and>
           (\<forall>t i. t \<notin> fst ` set REDUNDANT_TYPES \<and> s2i t = Some i \<longrightarrow> i2s i = Some t) \<and>
           (\<forall>(bad_type, good_type) \<in> set REDUNDANT_TYPES.
              (\<exists>i. s2i bad_type = Some i \<and> s2i good_type = Some i) \<and>
              (count_list (ffxml_atom_types ext (forcefield self)) bad_type = 1
                 \<longrightarrow> bad_type \<notin> ran i2s))"
proof -
  let ?xs = "ffxml_atom_types ext (forcefield self)"
  from ok obtain atom_types s2i where
    rem: "for_loop list_remove (map fst REDUNDANT_TYPES) ?xs = Inr atom_types"
    and prov: "for_loop provide_redundant REDUNDANT_TYPES
                 (dict_of (zip atom_types [0..<length atom_types])) = Inr s2i"
    and eq_self: "self' = self\<lparr>str_2_idx := Some s2i,
                  idx_2_str := Some (dict_of (zip [0..<length atom_types] atom_types))\<rparr>"
    unfolding prepare_gaff_def by (auto split: sum.splits)
  let ?i2s = "dict_of (zip [0..<length atom_types] atom_types)"
  let ?s0 = "dict_of (zip atom_types [0..<length atom_types])"
  have dist: "distinct (map fst REDUNDANT_TYPES)" by (simp add: REDUNDANT_TYPES_def)
  have inv: "?i2s i = Some t" if "t \<notin> fst ` set REDUNDANT_TYPES" "s2i t = Some i" for t i
  proof -
    from provide_loop(1) [OF prov] that(1) have "s2i t = ?s0 t" by blast
    with that(2) have "?s0 t = Some i" by simp
    from dict_of_zip_value [OF this] show ?thesis by (simp add: dict_of_zip_index)
  qed
  have round: "\<exists>i. s2i t = Some i \<and> ?i2s i = Some t"
    if "t \<in> set ?xs" "t \<notin> fst ` set REDUNDANT_TYPES" for t
  proof -
    from that have "t \<in> set atom_types" using remove_loop_set [OF rem, of t] by simp
    then have "?s0 t \<noteq> None" by (rule dict_of_zip_dom)
    moreover from provide_loop(1) [OF prov] that(2) have "s2i t = ?s0 t" by blast
    ultimately obtain i where i: "s2i t = Some i" by auto
    with inv [OF that(2) i] show ?thesis by blast
  qed
  have gone: "bad_type \<notin> ran ?i2s"
    if "(bad_type, good_type) \<in> set REDUNDANT_TYPES" "count_list ?xs bad_type = 1"
    for bad_type good_type
  proof -
    from that(1) have "bad_type \<in> set (map fst REDUNDANT_TYPES)" by force
    with remove_loop_count [OF rem dist, of bad_type] that(2)
    have "count_list atom_types bad_type = 0" by simp
    then have "bad_type \<notin> set atom_types" by (simp add: count_list_0_iff)
    then show ?thesis by (auto simp: ran_def dict_of_zip_index split: if_splits)
  qed
  from provide_loop(2) [OF prov] round inv gone eq_self show ?thesis
    by (intro exI [of _ s2i] exI [of _ ?i2s]) (simp, blast)
qed

lemma prepare_gaff_dictionaries_once:
  "\<exists>s2i i2s i j.
     prepare_gaff (demo_externals gaff_types_once [] demo_labels []) (new_force_field ''gaff-1.81'')
       = Inr (projr (prepare_gaff (demo_externals gaff_types_once [] demo_labels [])
                (new_force_field ''gaff-1.81''))) \<and>
     str_2_idx (projr (prepare_gaff (demo_externals gaff_types_once [] demo_labels [])
                (new_force_field ''gaff-1.81''))) = Some s2i \<and>
     idx_2_str (projr (prepare_gaff (demo_externals gaff_types_once [] demo_labels [])
                (new_force_field ''gaff-1.81''))) = Some i2s \<and>
     s2i ''c'' = Some i \<and> i2s i = Some ''c'' \<and>
     s2i ''cd'' = Some j \<and> s2i ''cc'' = Some j \<and> ''cd'' \<notin> ran i2s"
proof -
  let ?ext = "demo_externals gaff_types_once [] demo_labels []"
  let ?self = "new_force_field ''gaff-1.81''"
  have ok: "prepare_gaff ?ext ?self = Inr (projr (prepare_gaff ?ext ?self))"
    by (simp add: prepare_gaff_def demo_externals_def gaff_types_once_def new_force_field_def
        REDUNDANT_TYPES_def list_remove_def provide_redundant_def dict_of_def)
  have types: "ffxml_atom_types ?ext (forcefield ?self) = gaff_types_once"
    by (simp add: demo_externals_def)
  have c: "''c'' \<in> set gaff_types_once" "''c'' \<notin> fst ` set REDUNDANT_TYPES"
    by (simp_all add: gaff_types_once_def REDUNDANT_TYPES_def)
  have cd: "(''cd'', ''cc'') \<in> set REDUNDANT_TYPES" "count_list gaff_types_once ''cd'' = 1"
    by (simp_all add: gaff_types_once_def REDUNDANT_TYPES_def)
  from prepare_gaff_dictionaries [OF ok] types c cd ok show ?thesis
    by fastforce
qed

text \<open>
  C9. The claim has every redundant type absent from the values of \<^verbatim>\<open>idx_2_str\<close>, and
  the comment \<^verbatim>\<open># remove redundant types\<close> above the removal says as much. The removal
  is one \<^verbatim>\<open>list.remove\<close> per redundant type, which deletes the first occurrence only.
  For an XML file whose NonbondedForce lists \<^verbatim>\<open>cd\<close> twice
  (\<open>gaff_types_twice\<close>), \<^verbatim>\<open>_prepare_gaff\<close> returns, the second \<^verbatim>\<open>cd\<close> stays in the
  list of atom types, and \<^verbatim>\<open>idx_2_str[6] == "cd"\<close>: a redundant type is a value of
  \<^verbatim>\<open>idx_2_str\<close>. Its key in \<^verbatim>\<open>str_2_idx\<close> maps to 0, the index of \<^verbatim>\<open>cc\<close>.
\<close>

theorem prepare_gaff_keeps_second_occurrence:
  "ffxml_atom_types (demo_externals gaff_types_twice [] demo_labels []) ''gaff-1.81''
     = [''cc'', ''ce'', ''cp'', ''pc'', ''pe'', ''nc'', ''cd'', ''cd'', ''cf'', ''cq'', ''pd'',
        ''pf'', ''nd''] \<and>
   \<not> isl (prepare_gaff (demo_externals gaff_types_twice [] demo_labels [])
            (new_force_field ''gaff-1.81'')) \<and>
   the (idx_2_str (projr (prepare_gaff (demo_externals gaff_types_twice [] demo_labels [])
            (new_force_field ''gaff-1.81'')))) 6 = Some ''cd'' \<and>
   the (str_2_idx (projr (prepare_gaff (demo_externals gaff_types_twice [] demo_labels [])
            (new_force_field ''gaff-1.81'')))) ''cd'' = Some 0 \<and>
   the (idx_2_str (projr (prepare_gaff (demo_externals gaff_types_twice [] demo_labels [])
            (new_force_field ''gaff-1.81'')))) 0 = Some ''cc''"
  by (simp add: prepare_gaff_def demo_externals_def gaff_types_twice_def new_force_field_def
      REDUNDANT_TYPES_def list_remove_def provide_redundant_def dict_of_def)

subsection \<open>Reference energies\<close>

text \<open>
  C8. For a graph with conformations (positions for at least one atom, the same number
  \<open>n_conf\<close> of conformations for every atom), \<^verbatim>\<open>baseline_energy\<close> returns the graph
  it was given with one entry added to the data of the graph-level node: under the key
  \<^verbatim>\<open>"u" + suffix\<close>, where the suffix defaults to \<^verbatim>\<open>"_"\<close> followed by the name of
  the force field, a tensor with one row of \<open>n_conf\<close> energies. The energy at column
  \<open>c\<close> is the potential energy that the simulation engine reports for the positions of
  conformation \<open>c\<close>, converted to espaloma's energy unit.
\<close>

theorem baseline_energy_reference:
  assumes "xyz (nodes g N1) = Some positions" and "positions \<noteq> []"
    and "\<forall>atom \<in> set positions. length atom = n_conf"
  shows "\<exists>us. baseline_energy ext self g suffix_arg =
             Inr (update_nodes g G (\<lambda>d. d\<lparr>data := (data d)
               (''u'' @ (case suffix_arg of None \<Rightarrow> ''_'' @ forcefield self | Some s \<Rightarrow> s) \<mapsto> [us])\<rparr>)) \<and>
           length us = n_conf \<and>
           (\<forall>c < n_conf. us ! c =
              value_in_unit ext
                (getPotentialEnergy ext (create_system ext (forcefield self) (mol g))
                   (map (\<lambda>atom. map (to_nanometer ext) (atom ! c)) positions))
                ENERGY_UNIT)"
proof -
  let ?nm = "map (map (map (to_nanometer ext))) positions"
  from assms have "?nm \<noteq> []" "\<forall>atom \<in> set ?nm. length atom = n_conf" by auto
  then have "transpose_102 ?nm = map (\<lambda>c. map (\<lambda>atom. atom ! c) ?nm) [0..<n_conf]"
    by (rule transpose_102_rect)
  also have "\<dots> = map (\<lambda>c. map (\<lambda>atom. map (to_nanometer ext) (atom ! c)) positions) [0..<n_conf]"
    using assms(3) by (auto simp: comp_def)
  finally have tr: "transpose_102 ?nm =
    map (\<lambda>c. map (\<lambda>atom. map (to_nanometer ext) (atom ! c)) positions) [0..<n_conf]" .
  define us where "us = map (\<lambda>c. value_in_unit ext
                (getPotentialEnergy ext (create_system ext (forcefield self) (mol g))
                   (map (\<lambda>atom. map (to_nanometer ext) (atom ! c)) positions))
                ENERGY_UNIT) [0..<n_conf]"
  have "baseline_energy ext self g suffix_arg =
             Inr (update_nodes g G (\<lambda>d. d\<lparr>data := (data d)
               (''u'' @ (case suffix_arg of None \<Rightarrow> ''_'' @ forcefield self | Some s \<Rightarrow> s) \<mapsto> [us])\<rparr>))"
    unfolding baseline_energy_def Let_def using assms(1)
    by (simp add: tr us_def comp_def)
  moreover have "length us = n_conf" by (simp add: us_def)
  moreover have "\<forall>c < n_conf. us ! c =
              value_in_unit ext
                (getPotentialEnergy ext (create_system ext (forcefield self) (mol g))
                   (map (\<lambda>atom. map (to_nanometer ext) (atom ! c)) positions))
                ENERGY_UNIT"
    by (simp add: us_def)
  ultimately show ?thesis by blast
qed

theorem baseline_energy_reference_witness:
  "data (nodes (projr (baseline_energy demo_ext (new_force_field ''gaff-1.81'') demo_graph None)) G)
     ''u_gaff-1.81'' = Some [[4 / 5, 3 / 2]] \<and>
   baseline_energy demo_ext (new_force_field ''gaff-1.81'') demo_graph None =
     Inr (update_nodes demo_graph G (\<lambda>d. d\<lparr>data := (data d)(''u_gaff-1.81'' \<mapsto> [[4 / 5, 3 / 2]])\<rparr>))"
proof -
  let ?positions = "[[[0, 0, 0], [0, 0, 1]], [[1, 0, 0], [1, 0, 1]], [[1, 1, 0], [1, 1, 1]],
                     [[2, 1, 0], [2, 1, 2]], [[1, 0, 1], [1, 0, 3::real]]]"
  have h1: "xyz (nodes demo_graph N1) = Some ?positions" by (simp add: demo_graph_def new_nodes_def)
  have h2: "?positions \<noteq> []" by simp
  have h3: "\<forall>atom \<in> set ?positions. length atom = 2" by simp
  from baseline_energy_reference [OF h1 h2 h3, of demo_ext "new_force_field ''gaff-1.81''" None]
  obtain us where run: "baseline_energy demo_ext (new_force_field ''gaff-1.81'') demo_graph None =
             Inr (update_nodes demo_graph G (\<lambda>d. d\<lparr>data := (data d)(''u_gaff-1.81'' \<mapsto> [us])\<rparr>))"
    and len: "length us = 2"
    and us: "\<forall>c < 2. us ! c =
              value_in_unit demo_ext
                (getPotentialEnergy demo_ext (create_system demo_ext ''gaff-1.81'' (mol demo_graph))
                   (map (\<lambda>atom. map (to_nanometer demo_ext) (atom ! c)) ?positions))
                ENERGY_UNIT"
    by (auto simp: new_force_field_def)
  from us have "us ! 0 = 4 / 5" "us ! 1 = 3 / 2"
    by (simp_all add: demo_ext_def demo_externals_def)
  with len have "us = [4 / 5, 3 / 2]"
    by (cases us; cases "tl us") auto
  with run show ?thesis by simp
qed

subsection \<open>Improper torsions\<close>

text \<open>
  C4, as amended. On the SMIRNOFF/OpenFF path, when \<^verbatim>\<open>parametrize\<close> returns, the
  n4_improper nodes carry \<^verbatim>\<open>k_ref\<close>, \<^verbatim>\<open>phases_ref\<close> and \<^verbatim>\<open>periodicity_ref\<close>:
  the result of \<^verbatim>\<open>apply_improper_torsion\<close>, one row of six columns per node, filled from
  the labelled improper torsion of the node's index tuple and zero elsewhere. On the GAFF
  path \<^verbatim>\<open>parametrize\<close> writes nothing on the n4_improper nodes: their data is what it was
  before the call, whether the call returns or raises.
\<close>

theorem improper_torsions_smirnoff_only:
  "(sublist ''smirnoff'' (forcefield self) \<or> sublist ''openff'' (forcefield self) \<longrightarrow>
      parametrize ext self g = Inr g' \<longrightarrow>
      (\<exists>label_molecules T.
         FF self = Some label_molecules \<and>
         apply_improper_torsion ext (label_molecules (mol g)) g 6 = Inr T \<and>
         k_ref (nodes g' N4_improper) = Some (fst T) \<and>
         phases_ref (nodes g' N4_improper) = Some (fst (snd T)) \<and>
         periodicity_ref (nodes g' N4_improper) = Some (snd (snd T)) \<and>
         shape3 (number_of_nodes g N4_improper) 6 T \<and>
         (\<forall>p < number_of_nodes g N4_improper. \<forall>c < 6.
            label_cell ext
              (ImproperTorsions (label_molecules (mol g)) (idxs (nodes g N4_improper) ! p))
              c (0, 0, 0) (cell T p c)))) \<and>
   (\<not> sublist ''smirnoff'' (forcefield self) \<and> \<not> sublist ''openff'' (forcefield self) \<and>
    sublist ''gaff'' (forcefield self) \<longrightarrow>
      parametrize ext self g = Inr g' \<or> parametrize ext self g = Inl (e, g') \<longrightarrow>
      nodes g' N4_improper = nodes g N4_improper)"
proof -
  have smirnoff: "\<exists>label_molecules T.
         FF self = Some label_molecules \<and>
         apply_improper_torsion ext (label_molecules (mol g)) g 6 = Inr T \<and>
         k_ref (nodes g' N4_improper) = Some (fst T) \<and>
         phases_ref (nodes g' N4_improper) = Some (fst (snd T)) \<and>
         periodicity_ref (nodes g' N4_improper) = Some (snd (snd T)) \<and>
         shape3 (number_of_nodes g N4_improper) 6 T \<and>
         (\<forall>p < number_of_nodes g N4_improper. \<forall>c < 6.
            label_cell ext
              (ImproperTorsions (label_molecules (mol g)) (idxs (nodes g N4_improper) ! p))
              c (0, 0, 0) (cell T p c))"
    if name: "sublist ''smirnoff'' (forcefield self) \<or> sublist ''openff'' (forcefield self)"
      and ok: "parametrize ext self g = Inr g'"
  proof -
    from name ok have "parametrize_smirnoff ext self g = Inr g'"
      by (simp add: parametrize_def contains_sublist)
    from parametrize_smirnoff_Inr [OF this] obtain lm T' where lm: "FF self = Some lm"
      and T': "apply_improper_torsion ext (lm (mol g)) g 6 = Inr T'"
      and n: "nodes g' N4_improper = (nodes g N4_improper)\<lparr>k_ref := Some (fst T'),
               periodicity_ref := Some (snd (snd T')), phases_ref := Some (fst (snd T'))\<rparr>"
      by blast
    from T' have "label_torsions ext (ImproperTorsions (lm (mol g))) (idxs (nodes g N4_improper)) 6 = Inr T'"
      by (simp add: apply_improper_torsion_def)
    from label_torsions_cells [OF this] lm T' n show ?thesis
      by (auto simp: number_of_nodes_def)
  qed
  have gaff: "nodes g' N4_improper = nodes g N4_improper"
    if name: "\<not> sublist ''smirnoff'' (forcefield self)" "\<not> sublist ''openff'' (forcefield self)"
      "sublist ''gaff'' (forcefield self)"
      and res: "parametrize ext self g = Inr g' \<or> parametrize ext self g = Inl (e, g')"
  proof -
    from name have "parametrize ext self g = parametrize_gaff ext self g 6"
      by (simp add: parametrize_def contains_sublist)
    with res have "gaff_frame g g'" by (auto dest: parametrize_gaff_frame)
    then show ?thesis by (simp add: gaff_frame_def)
  qed
  from smirnoff gaff show ?thesis by blast
qed

theorem improper_torsions_smirnoff_only_witness:
  "sublist ''openff'' ''openff-1.2.0'' \<and> sublist ''gaff'' ''gaff-1.81'' \<and>
   parametrize demo_ext ((new_force_field ''openff-1.2.0'')\<lparr>FF := Some (\<lambda>m. demo_labels)\<rparr>) demo_graph
     = Inr demo_smirnoff_result \<and>
   k_ref (nodes demo_smirnoff_result N4_improper)
     = Some [[4, 0, 0, 0, 0, 0], [0, 0, 0, 0, 0, 0], [0, 0, 0, 0, 0, 0]] \<and>
   (\<exists>T. apply_improper_torsion demo_ext demo_labels demo_graph 6 = Inr T \<and>
        k_ref (nodes demo_smirnoff_result N4_improper) = Some (fst T)) \<and>
   parametrize demo_ext (new_force_field ''gaff-1.81'') demo_graph = Inr demo_gaff_result \<and>
   nodes demo_gaff_result N4_improper = nodes demo_graph N4_improper"
proof -
  let ?self = "(new_force_field ''openff-1.2.0'')\<lparr>FF := Some (\<lambda>m. demo_labels)\<rparr>"
  have names: "sublist ''openff'' (forcefield ?self)" "sublist ''gaff'' ''gaff-1.81''"
    "\<not> sublist ''smirnoff'' (forcefield (new_force_field ''gaff-1.81''))"
    "\<not> sublist ''openff'' (forcefield (new_force_field ''gaff-1.81''))"
    "sublist ''gaff'' (forcefield (new_force_field ''gaff-1.81''))"
    by (simp_all add: contains_sublist [symmetric] new_force_field_def)
  from improper_torsions_smirnoff_only [of ?self demo_ext demo_graph demo_smirnoff_result KeyError]
    names(1) demo_smirnoff_run
  obtain lm T where "FF ?self = Some lm"
    "apply_improper_torsion demo_ext (lm (mol demo_graph)) demo_graph 6 = Inr T"
    "k_ref (nodes demo_smirnoff_result N4_improper) = Some (fst T)"
    by blast
  then have "apply_improper_torsion demo_ext demo_labels demo_graph 6 = Inr T \<and>
        k_ref (nodes demo_smirnoff_result N4_improper) = Some (fst T)"
    by (auto simp: new_force_field_def)
  then have "\<exists>T. apply_improper_torsion demo_ext demo_labels demo_graph 6 = Inr T \<and>
        k_ref (nodes demo_smirnoff_result N4_improper) = Some (fst T)"
    by (rule exI)
  moreover
  from improper_torsions_smirnoff_only [of "new_force_field ''gaff-1.81''" demo_ext demo_graph
      demo_gaff_result KeyError] names demo_gaff_run
  have "nodes demo_gaff_result N4_improper = nodes demo_graph N4_improper" by simp
  moreover have "k_ref (nodes demo_smirnoff_result N4_improper)
     = Some [[4, 0, 0, 0, 0, 0], [0, 0, 0, 0, 0, 0], [0, 0, 0, 0, 0, 0]]"
    by (simp add: demo_smirnoff_result_def demo_improper_tensors_def)
  ultimately show ?thesis using names demo_smirnoff_run demo_gaff_run
    by (simp add: new_force_field_def)
qed

theorem improper_torsions_gaff_counterexample:
  "parametrize demo_ext (new_force_field ''gaff-1.81'') demo_graph = Inr demo_gaff_result \<and>
   idxs (nodes demo_graph N4_improper) = [[1, 0, 2, 4], [1, 2, 4, 0], [1, 4, 0, 2]] \<and>
   k_ref (nodes demo_gaff_result N4_improper) = None \<and>
   periodicity_ref (nodes demo_gaff_result N4_improper) = None \<and>
   phases_ref (nodes demo_gaff_result N4_improper) = None"
  using demo_gaff_run
  by (simp add: demo_gaff_result_def demo_graph_def new_nodes_def)

subsection \<open>Van der Waals parameters\<close>

text \<open>
  C5, as amended. On the SMIRNOFF/OpenFF path, when \<^verbatim>\<open>parametrize\<close> returns, the n1
  nodes carry one row per atom in \<^verbatim>\<open>epsilon_ref\<close> and \<^verbatim>\<open>sigma_ref\<close>: the labelled
  epsilon of the atom in espaloma's energy unit, and its labelled \<^verbatim>\<open>rmin_half\<close> in
  espaloma's distance unit. On the GAFF path \<^verbatim>\<open>parametrize\<close> writes nothing on the n1
  nodes: their data is what it was before the call, whether the call returns or raises.
\<close>

theorem vdw_smirnoff_only:
  "(sublist ''smirnoff'' (forcefield self) \<or> sublist ''openff'' (forcefield self) \<longrightarrow>
      parametrize ext self g = Inr g' \<longrightarrow>
      (\<exists>label_molecules eps sig.
         FF self = Some label_molecules \<and>
         epsilon_ref (nodes g' N1) = Some eps \<and> sigma_ref (nodes g' N1) = Some sig \<and>
         length eps = number_of_nodes g N1 \<and> length sig = number_of_nodes g N1 \<and>
         (\<forall>idx < number_of_nodes g N1.
            \<exists>v. vdW (label_molecules (mol g)) [idx] = Some v \<and>
                eps ! idx = [value_in_unit ext (vdw_epsilon v) ENERGY_UNIT] \<and>
                sig ! idx = [value_in_unit ext (vdw_rmin_half v) DISTANCE_UNIT]))) \<and>
   (\<not> sublist ''smirnoff'' (forcefield self) \<and> \<not> sublist ''openff'' (forcefield self) \<and>
    sublist ''gaff'' (forcefield self) \<longrightarrow>
      parametrize ext self g = Inr g' \<or> parametrize ext self g = Inl (e, g') \<longrightarrow>
      nodes g' N1 = nodes g N1)"
proof -
  have smirnoff: "\<exists>label_molecules eps sig.
         FF self = Some label_molecules \<and>
         epsilon_ref (nodes g' N1) = Some eps \<and> sigma_ref (nodes g' N1) = Some sig \<and>
         length eps = number_of_nodes g N1 \<and> length sig = number_of_nodes g N1 \<and>
         (\<forall>idx < number_of_nodes g N1.
            \<exists>v. vdW (label_molecules (mol g)) [idx] = Some v \<and>
                eps ! idx = [value_in_unit ext (vdw_epsilon v) ENERGY_UNIT] \<and>
                sig ! idx = [value_in_unit ext (vdw_rmin_half v) DISTANCE_UNIT])"
    if name: "sublist ''smirnoff'' (forcefield self) \<or> sublist ''openff'' (forcefield self)"
      and ok: "parametrize ext self g = Inr g'"
  proof -
    from name ok have "parametrize_smirnoff ext self g = Inr g'"
      by (simp add: parametrize_def contains_sublist)
    from parametrize_smirnoff_Inr [OF this] obtain lm vs where lm: "FF self = Some lm"
      and vs: "getitems (vdW (lm (mol g))) (map (\<lambda>idx. [idx]) [0..<number_of_nodes g N1]) = Inr vs"
      and n: "nodes g' N1 = (nodes g N1)\<lparr>
             epsilon_ref := Some (column (map (\<lambda>v. value_in_unit ext (vdw_epsilon v) ENERGY_UNIT) vs)),
             sigma_ref := Some (column (map (\<lambda>v. value_in_unit ext (vdw_rmin_half v) DISTANCE_UNIT) vs))\<rparr>"
      by blast
    from getitems_Inr [OF vs] have len: "length vs = number_of_nodes g N1"
      and each: "\<And>idx. idx < number_of_nodes g N1 \<Longrightarrow> vdW (lm (mol g)) [idx] = Some (vs ! idx)"
      by auto
    let ?eps = "column (map (\<lambda>v. value_in_unit ext (vdw_epsilon v) ENERGY_UNIT) vs)"
    let ?sig = "column (map (\<lambda>v. value_in_unit ext (vdw_rmin_half v) DISTANCE_UNIT) vs)"
    have "\<exists>v. vdW (lm (mol g)) [idx] = Some v \<and>
                ?eps ! idx = [value_in_unit ext (vdw_epsilon v) ENERGY_UNIT] \<and>
                ?sig ! idx = [value_in_unit ext (vdw_rmin_half v) DISTANCE_UNIT]"
      if "idx < number_of_nodes g N1" for idx
      using each [OF that] that len by (simp add: column_def)
    with lm n len show ?thesis
      by (intro exI [of _ lm] exI [of _ ?eps] exI [of _ ?sig]) (simp add: column_def)
  qed
  have gaff: "nodes g' N1 = nodes g N1"
    if name: "\<not> sublist ''smirnoff'' (forcefield self)" "\<not> sublist ''openff'' (forcefield self)"
      "sublist ''gaff'' (forcefield self)"
      and res: "parametrize ext self g = Inr g' \<or> parametrize ext self g = Inl (e, g')"
  proof -
    from name have "parametrize ext self g = parametrize_gaff ext self g 6"
      by (simp add: parametrize_def contains_sublist)
    with res have "gaff_frame g g'" by (auto dest: parametrize_gaff_frame)
    then show ?thesis by (simp add: gaff_frame_def)
  qed
  from smirnoff gaff show ?thesis by blast
qed

theorem vdw_smirnoff_only_witness:
  "sublist ''openff'' ''openff-1.2.0'' \<and> sublist ''gaff'' ''gaff-1.81'' \<and>
   parametrize demo_ext ((new_force_field ''openff-1.2.0'')\<lparr>FF := Some (\<lambda>m. demo_labels)\<rparr>) demo_graph
     = Inr demo_smirnoff_result \<and>
   epsilon_ref (nodes demo_smirnoff_result N1) = Some [[2 / 5], [2 / 5], [2 / 5], [2 / 5], [3 / 50]] \<and>
   sigma_ref (nodes demo_smirnoff_result N1) = Some [[19 / 10], [19 / 10], [19 / 10], [19 / 10], [3 / 2]] \<and>
   (\<exists>v. vdW demo_labels [4] = Some v \<and>
        [3 / 50] = [value_in_unit demo_ext (vdw_epsilon v) ENERGY_UNIT] \<and>
        [3 / 2] = [value_in_unit demo_ext (vdw_rmin_half v) DISTANCE_UNIT]) \<and>
   parametrize demo_ext (new_force_field ''gaff-1.81'') demo_graph = Inr demo_gaff_result \<and>
   nodes demo_gaff_result N1 = nodes demo_graph N1"
proof -
  let ?self = "(new_force_field ''openff-1.2.0'')\<lparr>FF := Some (\<lambda>m. demo_labels)\<rparr>"
  have names: "sublist ''openff'' (forcefield ?self)" "sublist ''gaff'' ''gaff-1.81''"
    "\<not> sublist ''smirnoff'' (forcefield (new_force_field ''gaff-1.81''))"
    "\<not> sublist ''openff'' (forcefield (new_force_field ''gaff-1.81''))"
    "sublist ''gaff'' (forcefield (new_force_field ''gaff-1.81''))"
    by (simp_all add: contains_sublist [symmetric] new_force_field_def)
  have eps: "epsilon_ref (nodes demo_smirnoff_result N1) = Some [[2 / 5], [2 / 5], [2 / 5], [2 / 5], [3 / 50]]"
    and sig: "sigma_ref (nodes demo_smirnoff_result N1) = Some [[19 / 10], [19 / 10], [19 / 10], [19 / 10], [3 / 2]]"
    by (simp_all add: demo_smirnoff_result_def demo_proper_tensors_def demo_improper_tensors_def)
  have n: "(4::nat) < number_of_nodes demo_graph N1"
    by (simp add: number_of_nodes_def demo_graph_def new_nodes_def)
  from vdw_smirnoff_only [of ?self demo_ext demo_graph demo_smirnoff_result KeyError]
    names(1) demo_smirnoff_run
  obtain lm eps' sig' where "FF ?self = Some lm"
    "epsilon_ref (nodes demo_smirnoff_result N1) = Some eps'"
    "sigma_ref (nodes demo_smirnoff_result N1) = Some sig'"
    "\<forall>idx < number_of_nodes demo_graph N1.
            \<exists>v. vdW (lm (mol demo_graph)) [idx] = Some v \<and>
                eps' ! idx = [value_in_unit demo_ext (vdw_epsilon v) ENERGY_UNIT] \<and>
                sig' ! idx = [value_in_unit demo_ext (vdw_rmin_half v) DISTANCE_UNIT]"
    by blast
  with eps sig n have "\<exists>v. vdW demo_labels [4] = Some v \<and>
        [3 / 50] = [value_in_unit demo_ext (vdw_epsilon v) ENERGY_UNIT] \<and>
        [3 / 2] = [value_in_unit demo_ext (vdw_rmin_half v) DISTANCE_UNIT]"
    by (auto simp: new_force_field_def)
  moreover
  from vdw_smirnoff_only [of "new_force_field ''gaff-1.81''" demo_ext demo_graph
      demo_gaff_result KeyError] names demo_gaff_run
  have "nodes demo_gaff_result N1 = nodes demo_graph N1" by simp
  ultimately show ?thesis using names eps sig demo_smirnoff_run demo_gaff_run
    by (simp add: new_force_field_def)
qed

theorem vdw_gaff_counterexample:
  "parametrize demo_ext (new_force_field ''gaff-1.81'') demo_graph = Inr demo_gaff_result \<and>
   idxs (nodes demo_graph N1) = [[0], [1], [2], [3], [4]] \<and>
   epsilon_ref (nodes demo_gaff_result N1) = None \<and>
   sigma_ref (nodes demo_gaff_result N1) = None"
  using demo_gaff_run
  by (simp add: demo_gaff_result_def demo_graph_def new_nodes_def)

subsection \<open>Bonds and angles on the GAFF path\<close>

text \<open>
  C1. When \<^verbatim>\<open>_parametrize_gaff\<close> returns, then for every bond \<open>(i, j)\<close> that a
  HarmonicBondForce of the OpenMM system reports, the n2 lookup table has a position for
  \<open>(i, j)\<close> and one for \<open>(j, i)\<close>, and \<^verbatim>\<open>eq_ref\<close> and \<^verbatim>\<open>k_ref\<close> hold the same
  values at the two positions. For the bonds of the last HarmonicBondForce of the system
  (the only one, in a system that OpenMM builds) these values are the equilibrium length
  and the force constant, converted to espaloma's distance and force constant units, of a
  bond that this force reports for the same two atoms. The same holds for every angle
  \<open>(i, j, l)\<close> of a HarmonicAngleForce, with the positions of \<open>(i, j, l)\<close> and
  \<open>(l, j, i)\<close> in the n3 table and espaloma's angle units.
\<close>

theorem gaff_bonds_angles_symmetric:
  assumes ok: "parametrize_gaff ext self g n = Inr g'"
  shows
    "(\<forall>bonds i j eq k.
        HarmonicBondForce bonds \<in> set (create_system ext (forcefield self) (mol g)) \<and>
        (i, j, eq, k) \<in> set bonds \<longrightarrow>
        (\<exists>p q eqs ks.
           lookup_table (idxs (nodes g N2)) [i, j] = Some p \<and>
           lookup_table (idxs (nodes g N2)) [j, i] = Some q \<and>
           eq_ref (nodes g' N2) = Some eqs \<and> k_ref (nodes g' N2) = Some ks \<and>
           p < length eqs \<and> q < length eqs \<and> p < length ks \<and> q < length ks \<and>
           eqs ! p = eqs ! q \<and> ks ! p = ks ! q \<and>
           ((\<exists>pre post. create_system ext (forcefield self) (mol g)
                           = pre @ HarmonicBondForce bonds # post \<and>
                         (\<forall>bs. HarmonicBondForce bs \<notin> set post)) \<longrightarrow>
            (\<exists>i' j' eq' k'. (i', j', eq', k') \<in> set bonds \<and>
               (i' = i \<and> j' = j \<or> i' = j \<and> j' = i) \<and>
               eqs ! p = [value_in_unit ext eq' DISTANCE_UNIT] \<and>
               ks ! p = [value_in_unit ext k' FORCE_CONSTANT_UNIT])))) \<and>
     (\<forall>angles i j l eq k.
        HarmonicAngleForce angles \<in> set (create_system ext (forcefield self) (mol g)) \<and>
        (i, j, l, eq, k) \<in> set angles \<longrightarrow>
        (\<exists>p q eqs ks.
           lookup_table (idxs (nodes g N3)) [i, j, l] = Some p \<and>
           lookup_table (idxs (nodes g N3)) [l, j, i] = Some q \<and>
           eq_ref (nodes g' N3) = Some eqs \<and> k_ref (nodes g' N3) = Some ks \<and>
           p < length eqs \<and> q < length eqs \<and> p < length ks \<and> q < length ks \<and>
           eqs ! p = eqs ! q \<and> ks ! p = ks ! q \<and>
           ((\<exists>pre post. create_system ext (forcefield self) (mol g)
                           = pre @ HarmonicAngleForce angles # post \<and>
                         (\<forall>bs. HarmonicAngleForce bs \<notin> set post)) \<longrightarrow>
            (\<exists>i' j' l' eq' k'. (i', j', l', eq', k') \<in> set angles \<and>
               (i' = i \<and> j' = j \<and> l' = l \<or> i' = l \<and> j' = j \<and> l' = i) \<and>
               eqs ! p = [value_in_unit ext eq' ANGLE_UNIT] \<and>
               ks ! p = [value_in_unit ext k' ANGLE_FORCE_CONSTANT_UNIT]))))"
proof (intro conjI allI impI; elim conjE)
  fix bonds i j eq k
  assume f: "HarmonicBondForce bonds \<in> set (create_system ext (forcefield self) (mol g))"
    and b: "(i, j, eq, k) \<in> set bonds"
  from gaff_bonds_symmetric [OF ok f b] obtain p q eqs ks where
    sym: "lookup_table (idxs (nodes g N2)) [i, j] = Some p"
      "lookup_table (idxs (nodes g N2)) [j, i] = Some q"
      "eq_ref (nodes g' N2) = Some eqs" "k_ref (nodes g' N2) = Some ks"
      "p < length eqs" "q < length eqs" "p < length ks" "q < length ks"
      "eqs ! p = eqs ! q" "ks ! p = ks ! q"
    by blast
  have "\<exists>i' j' eq' k'. (i', j', eq', k') \<in> set bonds \<and>
               (i' = i \<and> j' = j \<or> i' = j \<and> j' = i) \<and>
               eqs ! p = [value_in_unit ext eq' DISTANCE_UNIT] \<and>
               ks ! p = [value_in_unit ext k' FORCE_CONSTANT_UNIT]"
    if "\<exists>pre post. create_system ext (forcefield self) (mol g)
                           = pre @ HarmonicBondForce bonds # post \<and>
                         (\<forall>bs. HarmonicBondForce bs \<notin> set post)"
  proof -
    from that obtain pre post where
      "create_system ext (forcefield self) (mol g) = pre @ HarmonicBondForce bonds # post"
      "\<forall>bs. HarmonicBondForce bs \<notin> set post"
      by blast
    from gaff_bonds_values [OF ok this b] sym(1,3,4) show ?thesis by auto
  qed
  with sym show "\<exists>p q eqs ks.
           lookup_table (idxs (nodes g N2)) [i, j] = Some p \<and>
           lookup_table (idxs (nodes g N2)) [j, i] = Some q \<and>
           eq_ref (nodes g' N2) = Some eqs \<and> k_ref (nodes g' N2) = Some ks \<and>
           p < length eqs \<and> q < length eqs \<and> p < length ks \<and> q < length ks \<and>
           eqs ! p = eqs ! q \<and> ks ! p = ks ! q \<and>
           ((\<exists>pre post. create_system ext (forcefield self) (mol g)
                           = pre @ HarmonicBondForce bonds # post \<and>
                         (\<forall>bs. HarmonicBondForce bs \<notin> set post)) \<longrightarrow>
            (\<exists>i' j' eq' k'. (i', j', eq', k') \<in> set bonds \<and>
               (i' = i \<and> j' = j \<or> i' = j \<and> j' = i) \<and>
               eqs ! p = [value_in_unit ext eq' DISTANCE_UNIT] \<and>
               ks ! p = [value_in_unit ext k' FORCE_CONSTANT_UNIT]))"
    by blast
next
  fix angles i j l eq k
  assume f: "HarmonicAngleForce angles \<in> set (create_system ext (forcefield self) (mol g))"
    and b: "(i, j, l, eq, k) \<in> set angles"
  from gaff_angles_symmetric [OF ok f b] obtain p q eqs ks where
    sym: "lookup_table (idxs (nodes g N3)) [i, j, l] = Some p"
      "lookup_table (idxs (nodes g N3)) [l, j, i] = Some q"
      "eq_ref (nodes g' N3) = Some eqs" "k_ref (nodes g' N3) = Some ks"
      "p < length eqs" "q < length eqs" "p < length ks" "q < length ks"
      "eqs ! p = eqs ! q" "ks ! p = ks ! q"
    by blast
  have "\<exists>i' j' l' eq' k'. (i', j', l', eq', k') \<in> set angles \<and>
               (i' = i \<and> j' = j \<and> l' = l \<or> i' = l \<and> j' = j \<and> l' = i) \<and>
               eqs ! p = [value_in_unit ext eq' ANGLE_UNIT] \<and>
               ks ! p = [value_in_unit ext k' ANGLE_FORCE_CONSTANT_UNIT]"
    if "\<exists>pre post. create_system ext (forcefield self) (mol g)
                           = pre @ HarmonicAngleForce angles # post \<and>
                         (\<forall>bs. HarmonicAngleForce bs \<notin> set post)"
  proof -
    from that obtain pre post where
      "create_system ext (forcefield self) (mol g) = pre @ HarmonicAngleForce angles # post"
      "\<forall>bs. HarmonicAngleForce bs \<notin> set post"
      by blast
    from gaff_angles_values [OF ok this b] sym(1,3,4) show ?thesis by auto
  qed
  with sym show "\<exists>p q eqs ks.
           lookup_table (idxs (nodes g N3)) [i, j, l] = Some p \<and>
           lookup_table (idxs (nodes g N3)) [l, j, i] = Some q \<and>
           eq_ref (nodes g' N3) = Some eqs \<and> k_ref (nodes g' N3) = Some ks \<and>
           p < length eqs \<and> q < length eqs \<and> p < length ks \<and> q < length ks \<and>
           eqs ! p = eqs ! q \<and> ks ! p = ks ! q \<and>
           ((\<exists>pre post. create_system ext (forcefield self) (mol g)
                           = pre @ HarmonicAngleForce angles # post \<and>
                         (\<forall>bs. HarmonicAngleForce bs \<notin> set post)) \<longrightarrow>
            (\<exists>i' j' l' eq' k'. (i', j', l', eq', k') \<in> set angles \<and>
               (i' = i \<and> j' = j \<and> l' = l \<or> i' = l \<and> j' = j \<and> l' = i) \<and>
               eqs ! p = [value_in_unit ext eq' ANGLE_UNIT] \<and>
               ks ! p = [value_in_unit ext k' ANGLE_FORCE_CONSTANT_UNIT]))"
    by blast
qed


theorem gaff_bonds_angles_symmetric_witness:
  "parametrize_gaff demo_ext (new_force_field ''gaff-1.81'') demo_graph 6 = Inr demo_gaff_result \<and>
   (\<exists>p q eqs ks.
      lookup_table (idxs (nodes demo_graph N2)) [1, 2] = Some p \<and>
      lookup_table (idxs (nodes demo_graph N2)) [2, 1] = Some q \<and>
      eq_ref (nodes demo_gaff_result N2) = Some eqs \<and> k_ref (nodes demo_gaff_result N2) = Some ks \<and>
      eqs ! p = eqs ! q \<and> ks ! p = ks ! q) \<and>
   (\<exists>p q eqs ks.
      lookup_table (idxs (nodes demo_graph N3)) [2, 1, 4] = Some p \<and>
      lookup_table (idxs (nodes demo_graph N3)) [4, 1, 2] = Some q \<and>
      eq_ref (nodes demo_gaff_result N3) = Some eqs \<and> k_ref (nodes demo_gaff_result N3) = Some ks \<and>
      eqs ! p = eqs ! q \<and> ks ! p = ks ! q)"
proof -
  let ?bonds = "[(0, 1, 0.15, 200), (1, 2, 0.14, 300), (2, 3, 0.15, 200), (1, 4, 0.11, 250)] :: bond list"
  let ?angles = "[(0, 1, 2, 1.9, 50), (0, 1, 4, 1.9, 40), (2, 1, 4, 2, 40), (1, 2, 3, 1.9, 50)] :: angle list"
  have sys: "create_system demo_ext (forcefield (new_force_field ''gaff-1.81'')) (mol demo_graph) = demo_system"
    by (simp add: demo_ext_def demo_externals_def)
  have b: "HarmonicBondForce ?bonds \<in> set demo_system" "(1, 2, 0.14, 300) \<in> set ?bonds"
    and a: "HarmonicAngleForce ?angles \<in> set demo_system" "(2, 1, 4, 2, 40) \<in> set ?angles"
    by (simp_all add: demo_system_def)
  note inst = gaff_bonds_angles_symmetric [OF demo_gaff_run_6, unfolded sys]
  from inst [THEN conjunct1, rule_format, of ?bonds 1 2 "0.14" 300] b
  have "\<exists>p q eqs ks.
      lookup_table (idxs (nodes demo_graph N2)) [1, 2] = Some p \<and>
      lookup_table (idxs (nodes demo_graph N2)) [2, 1] = Some q \<and>
      eq_ref (nodes demo_gaff_result N2) = Some eqs \<and> k_ref (nodes demo_gaff_result N2) = Some ks \<and>
      eqs ! p = eqs ! q \<and> ks ! p = ks ! q"
    by blast
  moreover
  from inst [THEN conjunct2, rule_format, of ?angles 2 1 4 2 40] a
  have "\<exists>p q eqs ks.
      lookup_table (idxs (nodes demo_graph N3)) [2, 1, 4] = Some p \<and>
      lookup_table (idxs (nodes demo_graph N3)) [4, 1, 2] = Some q \<and>
      eq_ref (nodes demo_gaff_result N3) = Some eqs \<and> k_ref (nodes demo_gaff_result N3) = Some ks \<and>
      eqs ! p = eqs ! q \<and> ks ! p = ks ! q"
    by blast
  ultimately show ?thesis using demo_gaff_run_6 by blast
qed

subsection \<open>The assertions of the GAFF path\<close>

text \<open>
  C7, as amended. \<^verbatim>\<open>_parametrize_gaff\<close> asserts, at each HarmonicBondForce, that the
  number of n2 nodes is twice the number of its bonds and, at each HarmonicAngleForce,
  that the number of n3 nodes is twice the number of its angles. If this holds for all
  forces of the system, no AssertionError is raised. If it fails for a force \<open>f\<close> of the
  system, the function does not return; and if the forces before \<open>f\<close> are processed
  without an exception, leaving the graph \<open>g1\<close>, it raises AssertionError at \<open>f\<close> with
  the graph still \<open>g1\<close>: no bond or angle parameter of \<open>f\<close> has been written.
\<close>

theorem gaff_assertions:
  "((\<forall>bonds. HarmonicBondForce bonds \<in> set (create_system ext (forcefield self) (mol g))
        \<longrightarrow> length bonds * 2 = number_of_nodes g N2) \<and>
    (\<forall>angles. HarmonicAngleForce angles \<in> set (create_system ext (forcefield self) (mol g))
        \<longrightarrow> length angles * 2 = number_of_nodes g N3)
      \<longrightarrow> (\<forall>g'. parametrize_gaff ext self g n \<noteq> Inl (AssertionError, g'))) \<and>
   (((\<exists>bonds. f = HarmonicBondForce bonds \<and> length bonds * 2 \<noteq> number_of_nodes g N2) \<or>
     (\<exists>angles. f = HarmonicAngleForce angles \<and> length angles * 2 \<noteq> number_of_nodes g N3)) \<longrightarrow>
      (f \<in> set (create_system ext (forcefield self) (mol g)) \<longrightarrow>
         (\<exists>e g'. parametrize_gaff ext self g n = Inl (e, g'))) \<and>
      (create_system ext (forcefield self) (mol g) = pre @ f # post \<and>
       parametrize_gaff (ext\<lparr>create_system := \<lambda>name m. pre\<rparr>) self g n = Inr g1 \<longrightarrow>
         parametrize_gaff ext self g n = Inl (AssertionError, g1)))"
  using gaff_assertion_unreachable [of ext self g n]
    gaff_violation_fails [of f ext self g n]
    gaff_violation_assertion [of ext self g pre f post n g1]
  by blast

theorem gaff_assertions_witness:
  "parametrize_gaff demo_ext (new_force_field ''gaff-1.81'') demo_graph 6
     \<noteq> Inl (AssertionError, demo_graph) \<and>
   length [(0, 1, 2, 1.9, 50) :: angle] * 2 \<noteq> number_of_nodes short_graph N3 \<and>
   parametrize_gaff (demo_externals [] small_system demo_labels []) (new_force_field ''gaff-1.81'')
     short_graph 6 = Inl (AssertionError, short_after_bonds)"
proof -
  let ?self = "new_force_field ''gaff-1.81''"
  let ?ext = "demo_externals [] small_system demo_labels []"
  let ?bonds = "[(0, 1, 0.15, 200), (1, 2, 0.14, 300)] :: bond list"
  let ?f = "HarmonicAngleForce [(0, 1, 2, 1.9, 50)]"
  have sys: "create_system demo_ext (forcefield ?self) (mol demo_graph) = demo_system"
    by (simp add: demo_ext_def demo_externals_def)
  have ok: "\<forall>bonds. HarmonicBondForce bonds \<in> set demo_system
              \<longrightarrow> length bonds * 2 = number_of_nodes demo_graph N2"
    "\<forall>angles. HarmonicAngleForce angles \<in> set demo_system
              \<longrightarrow> length angles * 2 = number_of_nodes demo_graph N3"
    by (auto simp: demo_system_def number_of_nodes_def demo_graph_def new_nodes_def)
  from gaff_assertions [of demo_ext ?self demo_graph 6, THEN conjunct1] ok sys
  have one: "parametrize_gaff demo_ext ?self demo_graph 6 \<noteq> Inl (AssertionError, demo_graph)"
    by simp
  have bad: "length [(0, 1, 2, 1.9, 50) :: angle] * 2 \<noteq> number_of_nodes short_graph N3"
    by (simp add: number_of_nodes_def short_graph_def new_nodes_def)
  have split: "create_system ?ext (forcefield ?self) (mol short_graph) = [HarmonicBondForce ?bonds] @ ?f # []"
    by (simp add: demo_externals_def small_system_def)
  from gaff_assertions [of ?ext ?self short_graph 6 ?f "[HarmonicBondForce ?bonds]" "[]" short_after_bonds,
      THEN conjunct2] bad split short_graph_prefix_run
  have "parametrize_gaff ?ext ?self short_graph 6 = Inl (AssertionError, short_after_bonds)"
    by blast
  with one bad show ?thesis by blast
qed

theorem gaff_assertion_preempted_counterexample:
  "length [(0, 1, 2, 1.9, 50) :: angle] * 2 \<noteq> number_of_nodes broken_graph N3 \<and>
   HarmonicAngleForce [(0, 1, 2, 1.9, 50)] \<in> set small_system \<and>
   parametrize_gaff (demo_externals [] small_system demo_labels []) (new_force_field ''gaff-1.81'')
     broken_graph 6
   = Inl (KeyError, update_nodes broken_graph N2
            (\<lambda>d. d\<lparr>eq_ref := Some [[3 / 2], [0], [0], [0]], k_ref := Some [[200], [0], [0], [0]]\<rparr>))"
  using broken_graph_run
  by (simp add: number_of_nodes_def broken_graph_def new_nodes_def small_system_def)

subsection \<open>Padding of the torsion terms\<close>

text \<open>
  C2. The tensors \<^verbatim>\<open>k_ref\<close>, \<^verbatim>\<open>phases_ref\<close> and \<^verbatim>\<open>periodicity_ref\<close> that a
  parametrization stores on the n4 nodes have one row per n4 node and \<^verbatim>\<open>n_max_phases\<close>
  columns (six on the SMIRNOFF path, and six on the GAFF path when called from
  \<^verbatim>\<open>parametrize\<close>), and they start as zeros.

  GAFF path, when \<^verbatim>\<open>_parametrize_gaff\<close> returns for a system with at least one force:
  the tensors stored on n4 are those that the torsion terms of the system, taken in their
  order, make of the zero tensors. Every cell of them is zero or holds the value of a term
  that the system reports for the torsion of its row (in either index order), and every
  column at or beyond the number of such terms is zero. When no term has a halved force
  constant of zero, a row that the table gives to its own quadruple holds in column \<open>c\<close>
  the value of term number \<open>c\<close> of its torsion (counting the terms, in either index order,
  whose quadruple is in the table), and zero in every column that no term fills.
  Each term \<open>t\<close> of the system, met with the tensors \<open>T1\<close> that the terms before it have
  produced, is written into the first column of its row whose \<^verbatim>\<open>k\<close> entry is zero in
  \<open>T1\<close>, and into the same column of the row of the reversed index tuple, all other cells
  staying as they are; the tensors stay as they are when the row has no zero \<^verbatim>\<open>k\<close>
  entry or the index tuple is not in the n4 table. The terms after \<open>t\<close> take the outcome
  \<open>T2\<close> to the tensors stored on n4.

  SMIRNOFF path, when \<^verbatim>\<open>_parametrize_smirnoff\<close> returns: column \<open>c\<close> of a row holds the
  attributes \<^verbatim>\<open>k<c>\<close>, \<^verbatim>\<open>phase<c>\<close>, \<^verbatim>\<open>periodicity<c>\<close> of the labelled parameter of
  the row's index tuple when \<open>c\<close> is below the number of its periodicities and
  \<^verbatim>\<open>k<c>\<close> exists, and zero otherwise.
\<close>

theorem torsion_padding:
  "(parametrize_gaff ext self g n = Inr g' \<and> create_system ext (forcefield self) (mol g) \<noteq> [] \<longrightarrow>
      (\<exists>T. k_ref (nodes g' N4) = Some (fst T) \<and> phases_ref (nodes g' N4) = Some (fst (snd T)) \<and>
           periodicity_ref (nodes g' N4) = Some (snd (snd T)) \<and>
           for_loop (torsion_body ext (lookup_table (idxs (nodes g N4))) n)
             (all_torsions (create_system ext (forcefield self) (mol g)))
             (zeros (number_of_nodes g N4) n, zeros (number_of_nodes g N4) n,
              zeros (number_of_nodes g N4) n) = Inr T \<and>
           shape3 (number_of_nodes g N4) n T \<and>
           (\<forall>p < number_of_nodes g N4. \<forall>c < n.
              cell T p c = (0, 0, 0) \<or>
              (\<exists>t \<in> set (all_torsions (create_system ext (forcefield self) (mol g))).
                 same_torsion (idxs (nodes g N4) ! p) t \<and> cell T p c = torsion_value ext t)) \<and>
           (\<forall>p < number_of_nodes g N4. \<forall>c < n.
              length (filter (same_torsion (idxs (nodes g N4) ! p))
                        (all_torsions (create_system ext (forcefield self) (mol g)))) \<le> c
                \<longrightarrow> cell T p c = (0, 0, 0)) \<and>
           ((\<forall>t \<in> set (all_torsions (create_system ext (forcefield self) (mol g))).
               fst (torsion_value ext t) \<noteq> 0) \<longrightarrow>
            (\<forall>p < number_of_nodes g N4.
               lookup_table (idxs (nodes g N4)) (idxs (nodes g N4) ! p) = Some p \<longrightarrow>
               (\<forall>c < n. cell T p c =
                  (if c < length (row_terms (idxs (nodes g N4)) (idxs (nodes g N4) ! p)
                                   (all_torsions (create_system ext (forcefield self) (mol g))))
                   then torsion_value ext
                          (row_terms (idxs (nodes g N4)) (idxs (nodes g N4) ! p)
                             (all_torsions (create_system ext (forcefield self) (mol g))) ! c)
                   else (0, 0, 0))))))) \<and>
   (parametrize_gaff ext self g n = Inr g' \<and>
    all_torsions (create_system ext (forcefield self) (mol g)) = pre @ t # post \<longrightarrow>
      (\<exists>T1 T2 T.
         for_loop (torsion_body ext (lookup_table (idxs (nodes g N4))) n) pre
           (zeros (number_of_nodes g N4) n, zeros (number_of_nodes g N4) n,
            zeros (number_of_nodes g N4) n) = Inr T1 \<and>
         torsion_body ext (lookup_table (idxs (nodes g N4))) n t T1 = Inr T2 \<and>
         for_loop (torsion_body ext (lookup_table (idxs (nodes g N4))) n) post T2 = Inr T \<and>
         k_ref (nodes g' N4) = Some (fst T) \<and> phases_ref (nodes g' N4) = Some (fst (snd T)) \<and>
         periodicity_ref (nodes g' N4) = Some (snd (snd T)) \<and>
         (case lookup_table (idxs (nodes g N4)) (torsion_key t) of
            None \<Rightarrow> T2 = T1
          | Some p \<Rightarrow>
              if \<forall>c < n. fst (cell T1 p c) \<noteq> 0 then T2 = T1
              else \<exists>c p'. c < n \<and> fst (cell T1 p c) = 0 \<and> (\<forall>c' < c. fst (cell T1 p c') \<noteq> 0) \<and>
                     lookup_table (idxs (nodes g N4)) (rev (torsion_key t)) = Some p' \<and>
                     shape3 (number_of_nodes g N4) n T2 \<and>
                     (\<forall>x y. cell T2 x y =
                        (if (x = p \<or> x = p') \<and> y = c then torsion_value ext t
                         else cell T1 x y))))) \<and>
   (parametrize_smirnoff ext self g = Inr g' \<longrightarrow>
      (\<exists>label_molecules T. FF self = Some label_molecules \<and>
           k_ref (nodes g' N4) = Some (fst T) \<and> phases_ref (nodes g' N4) = Some (fst (snd T)) \<and>
           periodicity_ref (nodes g' N4) = Some (snd (snd T)) \<and>
           shape3 (number_of_nodes g N4) 6 T \<and>
           (\<forall>p < number_of_nodes g N4. \<forall>c < 6.
              label_cell ext (ProperTorsions (label_molecules (mol g)) (idxs (nodes g N4) ! p)) c
                (0, 0, 0) (cell T p c))))"
proof (intro conjI impI; (elim conjE)?)
  let ?rows = "idxs (nodes g N4)"
  let ?sys = "create_system ext (forcefield self) (mol g)"
  assume ok: "parametrize_gaff ext self g n = Inr g'" and sys: "?sys \<noteq> []"
  from parametrize_gaff_torsions [OF ok sys, unfolded number_of_nodes_def] obtain T where
    run: "for_loop (torsion_body ext (lookup_table ?rows) n) (all_torsions ?sys)
            (zeros (length ?rows) n, zeros (length ?rows) n, zeros (length ?rows) n) = Inr T"
    and refs: "k_ref (nodes g' N4) = Some (fst T)" "phases_ref (nodes g' N4) = Some (fst (snd T))"
      "periodicity_ref (nodes g' N4) = Some (snd (snd T))"
    by blast
  have filled: "\<forall>p < length ?rows. lookup_table ?rows (?rows ! p) = Some p \<longrightarrow>
               (\<forall>c < n. cell T p c =
                  (if c < length (row_terms ?rows (?rows ! p) (all_torsions ?sys))
                   then torsion_value ext (row_terms ?rows (?rows ! p) (all_torsions ?sys) ! c)
                   else (0, 0, 0)))"
    if "\<forall>t \<in> set (all_torsions ?sys). fst (torsion_value ext t) \<noteq> 0"
    using row_filled_loop [OF run that] unfolding row_filled_def .
  from zero_beyond_loop [OF run] torsion_cells_loop [OF run] refs run filled
  show "\<exists>T. k_ref (nodes g' N4) = Some (fst T) \<and> phases_ref (nodes g' N4) = Some (fst (snd T)) \<and>
           periodicity_ref (nodes g' N4) = Some (snd (snd T)) \<and>
           for_loop (torsion_body ext (lookup_table ?rows) n) (all_torsions ?sys)
             (zeros (number_of_nodes g N4) n, zeros (number_of_nodes g N4) n,
              zeros (number_of_nodes g N4) n) = Inr T \<and>
           shape3 (number_of_nodes g N4) n T \<and>
           (\<forall>p < number_of_nodes g N4. \<forall>c < n.
              cell T p c = (0, 0, 0) \<or>
              (\<exists>t \<in> set (all_torsions ?sys).
                 same_torsion (?rows ! p) t \<and> cell T p c = torsion_value ext t)) \<and>
           (\<forall>p < number_of_nodes g N4. \<forall>c < n.
              length (filter (same_torsion (?rows ! p)) (all_torsions ?sys)) \<le> c
                \<longrightarrow> cell T p c = (0, 0, 0)) \<and>
           ((\<forall>t \<in> set (all_torsions ?sys). fst (torsion_value ext t) \<noteq> 0) \<longrightarrow>
            (\<forall>p < number_of_nodes g N4.
               lookup_table ?rows (?rows ! p) = Some p \<longrightarrow>
               (\<forall>c < n. cell T p c =
                  (if c < length (row_terms ?rows (?rows ! p) (all_torsions ?sys))
                   then torsion_value ext (row_terms ?rows (?rows ! p) (all_torsions ?sys) ! c)
                   else (0, 0, 0)))))"
    unfolding number_of_nodes_def by (intro exI [of _ T]) simp
next
  let ?rows = "idxs (nodes g N4)"
  let ?sys = "create_system ext (forcefield self) (mol g)"
  let ?B = "torsion_body ext (lookup_table ?rows) n"
  let ?Z = "(zeros (length ?rows) n, zeros (length ?rows) n, zeros (length ?rows) n)"
  assume ok: "parametrize_gaff ext self g n = Inr g'" and terms: "all_torsions ?sys = pre @ t # post"
  from terms have sys: "?sys \<noteq> []" by auto
  from parametrize_gaff_torsions [OF ok sys, unfolded number_of_nodes_def terms] obtain T where
    run: "for_loop ?B (pre @ t # post) ?Z = Inr T"
    and refs: "k_ref (nodes g' N4) = Some (fst T)" "phases_ref (nodes g' N4) = Some (fst (snd T))"
      "periodicity_ref (nodes g' N4) = Some (snd (snd T))"
    by blast
  from run obtain T1 T2 where pre: "for_loop ?B pre ?Z = Inr T1" and step: "?B t T1 = Inr T2"
    and post: "for_loop ?B post T2 = Inr T"
    by (auto simp: for_loop_append split: sum.splits)
  from zero_beyond_loop [OF pre] have sh1: "shape3 (length ?rows) n T1" by simp
  from pre step post refs torsion_step_cells [OF sh1 step]
  show "\<exists>T1 T2 T.
         for_loop (torsion_body ext (lookup_table ?rows) n) pre
           (zeros (number_of_nodes g N4) n, zeros (number_of_nodes g N4) n,
            zeros (number_of_nodes g N4) n) = Inr T1 \<and>
         torsion_body ext (lookup_table ?rows) n t T1 = Inr T2 \<and>
         for_loop (torsion_body ext (lookup_table ?rows) n) post T2 = Inr T \<and>
         k_ref (nodes g' N4) = Some (fst T) \<and> phases_ref (nodes g' N4) = Some (fst (snd T)) \<and>
         periodicity_ref (nodes g' N4) = Some (snd (snd T)) \<and>
         (case lookup_table ?rows (torsion_key t) of
            None \<Rightarrow> T2 = T1
          | Some p \<Rightarrow>
              if \<forall>c < n. fst (cell T1 p c) \<noteq> 0 then T2 = T1
              else \<exists>c p'. c < n \<and> fst (cell T1 p c) = 0 \<and> (\<forall>c' < c. fst (cell T1 p c') \<noteq> 0) \<and>
                     lookup_table ?rows (rev (torsion_key t)) = Some p' \<and>
                     shape3 (number_of_nodes g N4) n T2 \<and>
                     (\<forall>x y. cell T2 x y =
                        (if (x = p \<or> x = p') \<and> y = c then torsion_value ext t
                         else cell T1 x y)))"
    unfolding number_of_nodes_def by (intro exI [of _ T1] exI [of _ T2] exI [of _ T] conjI)
next
  assume ok: "parametrize_smirnoff ext self g = Inr g'"
  from parametrize_smirnoff_Inr [OF ok] obtain lm T where lm: "FF self = Some lm"
    and T: "apply_torsion ext (lm (mol g)) g 6 = Inr T"
    and n4: "nodes g' N4 = (nodes g N4)\<lparr>k_ref := Some (fst T), periodicity_ref := Some (snd (snd T)),
                                     phases_ref := Some (fst (snd T))\<rparr>"
    by blast
  from T have "label_torsions ext (ProperTorsions (lm (mol g))) (idxs (nodes g N4)) 6 = Inr T"
    by (simp add: apply_torsion_def)
  from label_torsions_cells [OF this] lm n4
  show "\<exists>label_molecules T. FF self = Some label_molecules \<and>
           k_ref (nodes g' N4) = Some (fst T) \<and> phases_ref (nodes g' N4) = Some (fst (snd T)) \<and>
           periodicity_ref (nodes g' N4) = Some (snd (snd T)) \<and>
           shape3 (number_of_nodes g N4) 6 T \<and>
           (\<forall>p < number_of_nodes g N4. \<forall>c < 6.
              label_cell ext (ProperTorsions (label_molecules (mol g)) (idxs (nodes g N4) ! p)) c
                (0, 0, 0) (cell T p c))"
    unfolding number_of_nodes_def by (intro exI [of _ lm] exI [of _ T]) simp
qed

theorem torsion_padding_witness:
  "parametrize_gaff demo_ext (new_force_field ''gaff-1.81'') demo_graph 6 = Inr demo_gaff_result \<and>
   create_system demo_ext (forcefield (new_force_field ''gaff-1.81'')) (mol demo_graph) \<noteq> [] \<and>
   list_all (\<lambda>t. fst (torsion_value demo_ext t) \<noteq> 0) (all_torsions demo_system) \<and>
   (\<exists>T. k_ref (nodes demo_gaff_result N4) = Some (fst T) \<and>
        phases_ref (nodes demo_gaff_result N4) = Some (fst (snd T)) \<and>
        periodicity_ref (nodes demo_gaff_result N4) = Some (snd (snd T)) \<and> shape3 4 6 T \<and>
        cell T 0 0 = (1 / 4, 0, 3) \<and> cell T 0 1 = (1 / 2, 3, 2) \<and>
        cell T 0 2 = (0, 0, 0) \<and> cell T 2 1 = (0, 0, 0)) \<and>
   (\<exists>T1 T2 T c.
      torsion_body demo_ext (lookup_table (idxs (nodes demo_graph N4))) 6 (0, 1, 2, 3, 2, 3, 1) T1
        = Inr T2 \<and>
      for_loop (torsion_body demo_ext (lookup_table (idxs (nodes demo_graph N4))) 6)
        [(4, 1, 2, 3, 3, 0, 0.25), (0, 2, 1, 4, 2, 3, 4)] T2 = Inr T \<and>
      k_ref (nodes demo_gaff_result N4) = Some (fst T) \<and>
      c < 6 \<and> fst (cell T1 0 c) = 0 \<and> cell T2 0 c = (1 / 2, 3, 2) \<and> cell T2 1 c = (1 / 2, 3, 2)) \<and>
   parametrize_smirnoff demo_ext ((new_force_field ''openff-1.2.0'')\<lparr>FF := Some (\<lambda>m. demo_labels)\<rparr>)
     demo_graph = Inr demo_smirnoff_result \<and>
   (\<exists>T. k_ref (nodes demo_smirnoff_result N4) = Some (fst T) \<and> shape3 4 6 T \<and>
        cell T 0 1 = (1, 3, 2) \<and> cell T 0 2 = (0, 0, 0))"
proof -
  let ?gaff = "new_force_field ''gaff-1.81''"
  let ?off = "(new_force_field ''openff-1.2.0'')\<lparr>FF := Some (\<lambda>m. demo_labels)\<rparr>"
  let ?s = "(0, 1, 2, 3, 3, 0, 0.5) :: torsion"
  let ?t = "(0, 1, 2, 3, 2, 3, 1) :: torsion"
  let ?pre = "[?s]"
  let ?post = "[(4, 1, 2, 3, 3, 0, 0.25), (0, 2, 1, 4, 2, 3, 4)] :: torsion list"
  let ?rows = "idxs (nodes demo_graph N4)"
  have sys: "create_system demo_ext (forcefield ?gaff) (mol demo_graph) = demo_system"
    by (simp add: demo_ext_def demo_externals_def)
  have terms: "all_torsions demo_system = ?pre @ ?t # ?post"
    by (simp add: demo_system_def)
  have nonempty: "demo_system \<noteq> []" by (simp add: demo_system_def)
  have nz: "\<forall>t \<in> set (all_torsions demo_system). fst (torsion_value demo_ext t) \<noteq> 0"
    unfolding terms by (simp add: torsion_value_def demo_ext_def demo_externals_def)
  have rows0: "?rows ! 0 = [0, 1, 2, 3]" by (simp add: demo_table(4))
  have own: "lookup_table ?rows (?rows ! 0) = Some 0" unfolding rows0 by (rule demo_table(1))
  have rt: "row_terms ?rows [0, 1, 2, 3] (all_torsions demo_system) = [?s, ?t]"
    unfolding terms by (simp add: row_terms_def demo_table(4) same_torsion_def torsion_key_def)
  have vals: "torsion_value demo_ext ?s = (1 / 4, 0, 3)" "torsion_value demo_ext ?t = (1 / 2, 3, 2)"
    by (simp_all add: torsion_value_def demo_ext_def demo_externals_def)
  note gaff = torsion_padding [of demo_ext ?gaff demo_graph 6 demo_gaff_result ?pre ?t ?post,
      unfolded sys]
  from gaff [THEN conjunct1] demo_gaff_run_6 nonempty nz obtain T where
    T: "k_ref (nodes demo_gaff_result N4) = Some (fst T)"
      "phases_ref (nodes demo_gaff_result N4) = Some (fst (snd T))"
      "periodicity_ref (nodes demo_gaff_result N4) = Some (snd (snd T))"
      "shape3 (number_of_nodes demo_graph N4) 6 T"
    and zero: "\<forall>p < number_of_nodes demo_graph N4. \<forall>c < 6.
              length (filter (same_torsion (?rows ! p)) (all_torsions demo_system)) \<le> c
                \<longrightarrow> cell T p c = (0, 0, 0)"
    and filled: "\<forall>p < number_of_nodes demo_graph N4.
               lookup_table ?rows (?rows ! p) = Some p \<longrightarrow>
               (\<forall>c < 6. cell T p c =
                  (if c < length (row_terms ?rows (?rows ! p) (all_torsions demo_system))
                   then torsion_value demo_ext (row_terms ?rows (?rows ! p) (all_torsions demo_system) ! c)
                   else (0, 0, 0)))"
    by blast
  from zero [rule_format, of 0 2] zero [rule_format, of 2 1]
  have z: "cell T 0 2 = (0, 0, 0)" "cell T 2 1 = (0, 0, 0)"
    by (simp_all add: demo_table terms same_torsion_def torsion_key_def)
  from filled [rule_format, of 0 0] filled [rule_format, of 0 1] own
  have f: "cell T 0 0 = (1 / 4, 0, 3)" "cell T 0 1 = (1 / 2, 3, 2)"
    unfolding rows0 rt
    by (simp_all add: demo_table(3) torsion_value_def demo_ext_def demo_externals_def)
  from T z f have "k_ref (nodes demo_gaff_result N4) = Some (fst T) \<and>
        phases_ref (nodes demo_gaff_result N4) = Some (fst (snd T)) \<and>
        periodicity_ref (nodes demo_gaff_result N4) = Some (snd (snd T)) \<and> shape3 4 6 T \<and>
        cell T 0 0 = (1 / 4, 0, 3) \<and> cell T 0 1 = (1 / 2, 3, 2) \<and>
        cell T 0 2 = (0, 0, 0) \<and> cell T 2 1 = (0, 0, 0)"
    by (simp add: demo_table(3))
  then have one: "\<exists>T. k_ref (nodes demo_gaff_result N4) = Some (fst T) \<and>
        phases_ref (nodes demo_gaff_result N4) = Some (fst (snd T)) \<and>
        periodicity_ref (nodes demo_gaff_result N4) = Some (snd (snd T)) \<and> shape3 4 6 T \<and>
        cell T 0 0 = (1 / 4, 0, 3) \<and> cell T 0 1 = (1 / 2, 3, 2) \<and>
        cell T 0 2 = (0, 0, 0) \<and> cell T 2 1 = (0, 0, 0)"
    by (rule exI)
  from gaff [THEN conjunct2, THEN conjunct1] demo_gaff_run_6 terms obtain T1 T2 U where
    pre: "for_loop (torsion_body demo_ext (lookup_table ?rows) 6) ?pre
           (zeros (number_of_nodes demo_graph N4) 6, zeros (number_of_nodes demo_graph N4) 6,
            zeros (number_of_nodes demo_graph N4) 6) = Inr T1"
    and step: "torsion_body demo_ext (lookup_table ?rows) 6 ?t T1 = Inr T2"
    and post: "for_loop (torsion_body demo_ext (lookup_table ?rows) 6) ?post T2 = Inr U"
    and stored: "k_ref (nodes demo_gaff_result N4) = Some (fst U)"
    and written: "case lookup_table ?rows (torsion_key ?t) of
            None \<Rightarrow> T2 = T1
          | Some p \<Rightarrow>
              if \<forall>c < 6. fst (cell T1 p c) \<noteq> 0 then T2 = T1
              else \<exists>c p'. c < 6 \<and> fst (cell T1 p c) = 0 \<and> (\<forall>c' < c. fst (cell T1 p c') \<noteq> 0) \<and>
                     lookup_table ?rows (rev (torsion_key ?t)) = Some p' \<and>
                     shape3 (number_of_nodes demo_graph N4) 6 T2 \<and>
                     (\<forall>x y. cell T2 x y =
                        (if (x = p \<or> x = p') \<and> y = c then torsion_value demo_ext ?t
                         else cell T1 x y))"
    by blast
  from pre demo_first_term have "fst (cell T1 0 1) = 0" by (auto simp: cell_def)
  then have room: "\<not> (\<forall>c < 6. fst (cell T1 0 c) \<noteq> 0)" by (intro notI) force
  have key: "torsion_key ?t = [0, 1, 2, 3]" "rev (torsion_key ?t) = [3, 2, 1, 0]"
    by (simp_all add: torsion_key_def)
  from written room have "\<exists>c p'. c < 6 \<and> fst (cell T1 0 c) = 0 \<and>
      lookup_table ?rows [3, 2, 1, 0] = Some p' \<and>
      (\<forall>x y. cell T2 x y =
         (if (x = 0 \<or> x = p') \<and> y = c then torsion_value demo_ext ?t else cell T1 x y))"
    unfolding key demo_table(1) by auto
  then obtain c where c: "c < 6" "fst (cell T1 0 c) = 0"
    and cells: "\<forall>x y. cell T2 x y = (if (x = 0 \<or> x = 1) \<and> y = c then (1 / 2, 3, 2) else cell T1 x y)"
    unfolding demo_table(2) vals by auto
  from cells have "cell T2 0 c = (1 / 2, 3, 2)" "cell T2 1 c = (1 / 2, 3, 2)" by simp_all
  with step post stored c have two: "\<exists>T1 T2 T c.
      torsion_body demo_ext (lookup_table ?rows) 6 ?t T1 = Inr T2 \<and>
      for_loop (torsion_body demo_ext (lookup_table ?rows) 6) ?post T2 = Inr T \<and>
      k_ref (nodes demo_gaff_result N4) = Some (fst T) \<and>
      c < 6 \<and> fst (cell T1 0 c) = 0 \<and> cell T2 0 c = (1 / 2, 3, 2) \<and> cell T2 1 c = (1 / 2, 3, 2)"
    by (intro exI [of _ T1] exI [of _ T2] exI [of _ U] exI [of _ c]) simp
  from torsion_padding [of demo_ext ?off demo_graph 6 demo_smirnoff_result ?pre ?t ?post,
      THEN conjunct2, THEN conjunct2] demo_smirnoff_run_direct
  obtain lm S where lm: "FF ?off = Some lm"
    and S: "k_ref (nodes demo_smirnoff_result N4) = Some (fst S)"
      "shape3 (number_of_nodes demo_graph N4) 6 S"
    and labelled: "\<forall>p < number_of_nodes demo_graph N4. \<forall>c < 6.
              label_cell demo_ext (ProperTorsions (lm (mol demo_graph)) (?rows ! p)) c
                (0, 0, 0) (cell S p c)"
    by blast
  from lm have lm': "lm = (\<lambda>m. demo_labels)" by (simp add: new_force_field_def)
  from labelled [rule_format, of 0 1] labelled [rule_format, of 0 2]
  have "cell S 0 1 = (1, 3, 2)" "cell S 0 2 = (0, 0, 0)"
    by (simp_all add: lm' demo_table label_cell_def demo_labels_def demo_torsion_def
          demo_ext_def demo_externals_def)
  with S have "k_ref (nodes demo_smirnoff_result N4) = Some (fst S) \<and> shape3 4 6 S \<and>
        cell S 0 1 = (1, 3, 2) \<and> cell S 0 2 = (0, 0, 0)"
    by (simp add: demo_table)
  then have three: "\<exists>T. k_ref (nodes demo_smirnoff_result N4) = Some (fst T) \<and> shape3 4 6 T \<and>
        cell T 0 1 = (1, 3, 2) \<and> cell T 0 2 = (0, 0, 0)"
    by (rule exI)
  from one two three demo_gaff_run_6 demo_smirnoff_run_direct nonempty sys nz show ?thesis
    by (simp add: list_all_iff)
qed

subsection \<open>Torsions on the GAFF path\<close>

text \<open>
  C3, as amended. When \<^verbatim>\<open>_parametrize_gaff\<close> returns, then for every term
  \<open>(idx0, idx1, idx2, idx3, per, phase, k)\<close> of a PeriodicTorsionForce of the OpenMM
  system whose index quadruple is in the n4 lookup table, such that fewer than
  \<^verbatim>\<open>n_max_phases\<close> terms of the same torsion (in either index order) come before it, and
  such that half its force constant is not zero or no term of the same torsion comes after
  it: the reversed quadruple is in the n4 table too, and there is a column, not beyond the
  number of earlier terms of the torsion, at which the stored \<^verbatim>\<open>k_ref\<close>,
  \<^verbatim>\<open>phases_ref\<close> and \<^verbatim>\<open>periodicity_ref\<close> hold half the force constant (in espaloma's
  energy unit), the phase (in espaloma's angle unit) and the periodicity of the term, both
  in the row of the quadruple and in the row of the reversed quadruple.
\<close>

theorem gaff_torsion_symmetric:
  assumes ok: "parametrize_gaff ext self g n = Inr g'"
    and terms: "all_torsions (create_system ext (forcefield self) (mol g))
                  = pre @ (idx0, idx1, idx2, idx3, per, phase, k) # post"
    and present: "lookup_table (idxs (nodes g N4)) [idx0, idx1, idx2, idx3] = Some p"
    and room: "length (filter (same_torsion [idx0, idx1, idx2, idx3]) pre) < n"
    and keeps: "0.5 * value_in_unit ext k ENERGY_UNIT \<noteq> 0 \<or>
                (\<forall>t' \<in> set post. \<not> same_torsion [idx0, idx1, idx2, idx3] t')"
  shows "\<exists>p' c ks phs pers.
           lookup_table (idxs (nodes g N4)) [idx3, idx2, idx1, idx0] = Some p' \<and>
           c \<le> length (filter (same_torsion [idx0, idx1, idx2, idx3]) pre) \<and> c < n \<and>
           k_ref (nodes g' N4) = Some ks \<and> phases_ref (nodes g' N4) = Some phs \<and>
           periodicity_ref (nodes g' N4) = Some pers \<and>
           has_shape (number_of_nodes g N4) n ks \<and> has_shape (number_of_nodes g N4) n phs \<and>
           has_shape (number_of_nodes g N4) n pers \<and>
           p < number_of_nodes g N4 \<and> p' < number_of_nodes g N4 \<and>
           ks ! p ! c = 0.5 * value_in_unit ext k ENERGY_UNIT \<and>
           ks ! p' ! c = 0.5 * value_in_unit ext k ENERGY_UNIT \<and>
           phs ! p ! c = value_in_unit ext phase ANGLE_UNIT \<and>
           phs ! p' ! c = value_in_unit ext phase ANGLE_UNIT \<and>
           pers ! p ! c = of_int per \<and> pers ! p' ! c = of_int per"
proof -
  let ?rows = "idxs (nodes g N4)"
  let ?t = "(idx0, idx1, idx2, idx3, per, phase, k)"
  let ?q = "[idx0, idx1, idx2, idx3]"
  have key: "torsion_key ?t = ?q" by (simp add: torsion_key_def)
  have val: "torsion_value ext ?t
    = (0.5 * value_in_unit ext k ENERGY_UNIT, value_in_unit ext phase ANGLE_UNIT, of_int per)"
    by (simp add: torsion_value_def)
  from terms have sys: "create_system ext (forcefield self) (mol g) \<noteq> []" by auto
  from parametrize_gaff_torsions [OF ok sys, unfolded number_of_nodes_def terms] obtain T where
    run: "for_loop (torsion_body ext (lookup_table ?rows) n) (pre @ ?t # post)
            (zeros (length ?rows) n, zeros (length ?rows) n, zeros (length ?rows) n) = Inr T"
    and refs: "k_ref (nodes g' N4) = Some (fst T)" "phases_ref (nodes g' N4) = Some (fst (snd T))"
      "periodicity_ref (nodes g' N4) = Some (snd (snd T))"
    by blast
  from zero_beyond_loop [OF run] have sh: "shape3 (length ?rows) n T" by simp
  have p: "lookup_table ?rows (torsion_key ?t) = Some p" using present by (simp only: key)
  have room': "length (filter (same_torsion (torsion_key ?t)) pre) < n" using room by (simp only: key)
  have keeps': "fst (torsion_value ext ?t) \<noteq> 0 \<or> (\<forall>t' \<in> set post. \<not> same_torsion (torsion_key ?t) t')"
    using keeps by (simp only: key val fst_conv)
  from torsion_loop_stored [OF run p room' keeps'] obtain c p' where
    c: "c \<le> length (filter (same_torsion ?q) pre)" "c < n"
    and p': "lookup_table ?rows [idx3, idx2, idx1, idx0] = Some p'"
    and r: "p < length ?rows" "p' < length ?rows"
    and cells: "cell T p c = torsion_value ext ?t" "cell T p' c = torsion_value ext ?t"
    unfolding key by auto
  obtain ks phs pers where T: "T = (ks, phs, pers)" by (cases T)
  from cells have vals: "ks ! p ! c = 0.5 * value_in_unit ext k ENERGY_UNIT"
    "ks ! p' ! c = 0.5 * value_in_unit ext k ENERGY_UNIT"
    "phs ! p ! c = value_in_unit ext phase ANGLE_UNIT"
    "phs ! p' ! c = value_in_unit ext phase ANGLE_UNIT"
    "pers ! p ! c = of_int per" "pers ! p' ! c = of_int per"
    unfolding val T by (simp_all add: cell_def)
  from sh have shapes: "has_shape (length ?rows) n ks" "has_shape (length ?rows) n phs"
    "has_shape (length ?rows) n pers"
    unfolding T by (simp_all add: shape3_def)
  from refs have refs': "k_ref (nodes g' N4) = Some ks" "phases_ref (nodes g' N4) = Some phs"
    "periodicity_ref (nodes g' N4) = Some pers"
    unfolding T by simp_all
  from c p' r vals shapes refs' show ?thesis
    unfolding number_of_nodes_def
    by (intro exI [of _ p'] exI [of _ c] exI [of _ ks] exI [of _ phs] exI [of _ pers]) simp
qed

theorem gaff_torsion_symmetric_witness:
  "parametrize_gaff demo_ext (new_force_field ''gaff-1.81'') demo_graph 6 = Inr demo_gaff_result \<and>
   lookup_table (idxs (nodes demo_graph N4)) [0, 1, 2, 3] = Some 0 \<and>
   length (filter (same_torsion [0, 1, 2, 3]) [(0, 1, 2, 3, 3, 0, 0.5)]) < (6 :: nat) \<and>
   0.5 * value_in_unit demo_ext 1 ENERGY_UNIT \<noteq> 0 \<and>
   (\<exists>c ks phs pers. c \<le> 1 \<and>
      k_ref (nodes demo_gaff_result N4) = Some ks \<and> phases_ref (nodes demo_gaff_result N4) = Some phs \<and>
      periodicity_ref (nodes demo_gaff_result N4) = Some pers \<and>
      ks ! 0 ! c = 1 / 2 \<and> ks ! 1 ! c = 1 / 2 \<and> phs ! 0 ! c = 3 \<and> phs ! 1 ! c = 3 \<and>
      pers ! 0 ! c = 2 \<and> pers ! 1 ! c = 2)"
proof -
  let ?gaff = "new_force_field ''gaff-1.81''"
  let ?pre = "[(0, 1, 2, 3, 3, 0, 0.5)] :: torsion list"
  let ?post = "[(4, 1, 2, 3, 3, 0, 0.25), (0, 2, 1, 4, 2, 3, 4)] :: torsion list"
  have sys: "create_system demo_ext (forcefield ?gaff) (mol demo_graph) = demo_system"
    by (simp add: demo_ext_def demo_externals_def)
  have terms: "all_torsions (create_system demo_ext (forcefield ?gaff) (mol demo_graph))
                 = ?pre @ (0, 1, 2, 3, 2, 3, 1) # ?post"
    unfolding sys by (simp add: demo_system_def)
  have room: "length (filter (same_torsion [0, 1, 2, 3]) ?pre) < (6 :: nat)"
    by (simp add: same_torsion_def torsion_key_def)
  have count: "length (filter (same_torsion [0, 1, 2, 3]) ?pre) = 1"
    by (simp add: same_torsion_def torsion_key_def)
  have unit: "value_in_unit demo_ext 1 ENERGY_UNIT = 1" "value_in_unit demo_ext 3 ANGLE_UNIT = 3"
    by (simp_all add: demo_ext_def demo_externals_def)
  have keeps: "0.5 * value_in_unit demo_ext 1 ENERGY_UNIT \<noteq> 0 \<or>
                (\<forall>t' \<in> set ?post. \<not> same_torsion [0, 1, 2, 3] t')"
    by (simp add: unit)
  from gaff_torsion_symmetric [OF demo_gaff_run_6 terms demo_table(1) room keeps]
  obtain p' c ks phs pers where
    p': "lookup_table (idxs (nodes demo_graph N4)) [3, 2, 1, 0] = Some p'"
    and rest: "c \<le> length (filter (same_torsion [0, 1, 2, 3]) ?pre)"
      "k_ref (nodes demo_gaff_result N4) = Some ks" "phases_ref (nodes demo_gaff_result N4) = Some phs"
      "periodicity_ref (nodes demo_gaff_result N4) = Some pers"
      "ks ! 0 ! c = 0.5 * value_in_unit demo_ext 1 ENERGY_UNIT"
      "ks ! p' ! c = 0.5 * value_in_unit demo_ext 1 ENERGY_UNIT"
      "phs ! 0 ! c = value_in_unit demo_ext 3 ANGLE_UNIT"
      "phs ! p' ! c = value_in_unit demo_ext 3 ANGLE_UNIT"
      "pers ! 0 ! c = of_int 2" "pers ! p' ! c = of_int 2"
    by blast
  from p' demo_table(2) have "p' = 1" by simp
  with rest have "c \<le> 1 \<and>
      k_ref (nodes demo_gaff_result N4) = Some ks \<and> phases_ref (nodes demo_gaff_result N4) = Some phs \<and>
      periodicity_ref (nodes demo_gaff_result N4) = Some pers \<and>
      ks ! 0 ! c = 1 / 2 \<and> ks ! 1 ! c = 1 / 2 \<and> phs ! 0 ! c = 3 \<and> phs ! 1 ! c = 3 \<and>
      pers ! 0 ! c = 2 \<and> pers ! 1 ! c = 2"
    unfolding count unit by simp
  then have "\<exists>c ks phs pers. c \<le> 1 \<and>
      k_ref (nodes demo_gaff_result N4) = Some ks \<and> phases_ref (nodes demo_gaff_result N4) = Some phs \<and>
      periodicity_ref (nodes demo_gaff_result N4) = Some pers \<and>
      ks ! 0 ! c = 1 / 2 \<and> ks ! 1 ! c = 1 / 2 \<and> phs ! 0 ! c = 3 \<and> phs ! 1 ! c = 3 \<and>
      pers ! 0 ! c = 2 \<and> pers ! 1 ! c = 2"
    by blast
  with demo_gaff_run_6 demo_table(1) room unit show ?thesis by simp
qed

theorem gaff_torsion_dropped_counterexample:
  "PeriodicTorsionForce [(0, 1, 2, 3, 1, 0, 1), (0, 1, 2, 3, 2, 0, 2), (0, 1, 2, 3, 3, 0, 3),
                         (0, 1, 2, 3, 4, 0, 4), (0, 1, 2, 3, 5, 0, 5), (0, 1, 2, 3, 6, 0, 6),
                         (0, 1, 2, 3, 7, 0, 7)] \<in> set overfull_system \<and>
   lookup_table (idxs (nodes demo_graph N4)) [0, 1, 2, 3] = Some 0 \<and>
   parametrize (demo_externals [] overfull_system demo_labels []) (new_force_field ''gaff-1.81'')
     demo_graph = Inr (apply_n4 demo_graph overfull_tensors) \<and>
   k_ref (nodes (apply_n4 demo_graph overfull_tensors) N4)
     = Some [[1 / 2, 1, 3 / 2, 2, 5 / 2, 3], [1 / 2, 1, 3 / 2, 2, 5 / 2, 3],
             [0, 0, 0, 0, 0, 0], [0, 0, 0, 0, 0, 0]] \<and>
   0.5 * value_in_unit (demo_externals [] overfull_system demo_labels []) 7 ENERGY_UNIT
     \<notin> set ([1 / 2, 1, 3 / 2, 2, 5 / 2, 3] :: real list) \<and>
   PeriodicTorsionForce [(0, 1, 2, 3, 1, 3, 0), (0, 1, 2, 3, 2, 0, 4)] \<in> set zero_k_system \<and>
   parametrize (demo_externals [] zero_k_system demo_labels []) (new_force_field ''gaff-1.81'')
     demo_graph = Inr (apply_n4 demo_graph zero_k_tensors) \<and>
   phases_ref (nodes (apply_n4 demo_graph zero_k_tensors) N4)
     = Some [[0, 0, 0, 0, 0, 0], [0, 0, 0, 0, 0, 0], [0, 0, 0, 0, 0, 0], [0, 0, 0, 0, 0, 0]] \<and>
   value_in_unit (demo_externals [] zero_k_system demo_labels []) 3 ANGLE_UNIT
     \<notin> set ([0, 0, 0, 0, 0, 0] :: real list)"
proof -
  have "k_ref (nodes (apply_n4 demo_graph overfull_tensors) N4)
     = Some [[1 / 2, 1, 3 / 2, 2, 5 / 2, 3], [1 / 2, 1, 3 / 2, 2, 5 / 2, 3],
             [0, 0, 0, 0, 0, 0], [0, 0, 0, 0, 0, 0]]"
    "phases_ref (nodes (apply_n4 demo_graph zero_k_tensors) N4)
     = Some [[0, 0, 0, 0, 0, 0], [0, 0, 0, 0, 0, 0], [0, 0, 0, 0, 0, 0], [0, 0, 0, 0, 0, 0]]"
    by (simp_all add: overfull_tensors_def zero_k_tensors_def)
  moreover have
    "0.5 * value_in_unit (demo_externals [] overfull_system demo_labels []) 7 ENERGY_UNIT
       \<notin> set ([1 / 2, 1, 3 / 2, 2, 5 / 2, 3] :: real list)"
    "value_in_unit (demo_externals [] zero_k_system demo_labels []) 3 ANGLE_UNIT
       \<notin> set ([0, 0, 0, 0, 0, 0] :: real list)"
    by (simp_all add: demo_externals_def)
  moreover have
    "PeriodicTorsionForce [(0, 1, 2, 3, 1, 0, 1), (0, 1, 2, 3, 2, 0, 2), (0, 1, 2, 3, 3, 0, 3),
                         (0, 1, 2, 3, 4, 0, 4), (0, 1, 2, 3, 5, 0, 5), (0, 1, 2, 3, 6, 0, 6),
                         (0, 1, 2, 3, 7, 0, 7)] \<in> set overfull_system"
    "PeriodicTorsionForce [(0, 1, 2, 3, 1, 3, 0), (0, 1, 2, 3, 2, 0, 4)] \<in> set zero_k_system"
    by (simp_all add: overfull_system_def zero_k_system_def)
  ultimately show ?thesis using overfull_run zero_k_run demo_table(1) by blast
qed

end
